(* ===== verification/Clue_Prelude.thy ===== *)
theory Clue_Prelude
  imports Complex_Main "HOL-Library.Sublist" "HOL-Library.Char_ord"
    "HOL-Library.List_Lexorder" "HOL-Library.Product_Lexorder"
begin

section \<open>Prelude: Python values, text and fallible computations\<close>

text \<open>
  What the components share. Python text is a \<^typ>\<open>string\<close>, one \<^typ>\<open>char\<close> per code point below
  256; comparison and sorting of text follow the code points (\<open>Char_ord\<close>, \<open>List_Lexorder\<close>). The
  values that travel as JSON or YAML are the datatype \<open>json\<close>; mappings are association lists, so
  that insertion order is kept as a Python dict keeps it. A float carries its exact value and the
  text that \<^verbatim>\<open>repr\<close> prints for it. Computations that raise return a sum, the exception on the left.
\<close>

named_theorems py_defs \<open>definitions of the Python primitives, for unfolding\<close>

subsection \<open>Fallible computations\<close>

definition bindE :: "'e + 'a \<Rightarrow> ('a \<Rightarrow> 'e + 'b) \<Rightarrow> 'e + 'b" where
  "bindE m f = (case m of Inl e \<Rightarrow> Inl e | Inr x \<Rightarrow> f x)"

definition guardE :: "bool \<Rightarrow> 'e \<Rightarrow> 'e + unit" where
  \<comment> \<open>\<^verbatim>\<open>if b: raise e\<close>\<close>
  "guardE b e = (if b then Inl e else Inr ())"

fun mapE :: "('a \<Rightarrow> 'e + 'b) \<Rightarrow> 'a list \<Rightarrow> 'e + 'b list" where
  "mapE f [] = Inr []"
| "mapE f (x # xs) = bindE (f x) (\<lambda>y. bindE (mapE f xs) (\<lambda>ys. Inr (y # ys)))"

fun foldE :: "('a \<Rightarrow> 's \<Rightarrow> 'e + 's) \<Rightarrow> 'a list \<Rightarrow> 's \<Rightarrow> 'e + 's" where
  "foldE f [] s = Inr s"
| "foldE f (x # xs) s = bindE (f x s) (foldE f xs)"

lemma bindE_simps [simp]:
  "bindE (Inl e) f = Inl e"
  "bindE (Inr x) f = f x"
  by (simp_all add: bindE_def)

lemma bindE_eq_Inr [simp]: "bindE m f = Inr y \<longleftrightarrow> (\<exists>x. m = Inr x \<and> f x = Inr y)"
  by (cases m) auto

lemma bindE_eq_Inl: "bindE m f = Inl e \<longleftrightarrow> m = Inl e \<or> (\<exists>x. m = Inr x \<and> f x = Inl e)"
  by (cases m) auto

lemma bindE_cong [fundef_cong]:
  "m = m' \<Longrightarrow> (\<And>x. m' = Inr x \<Longrightarrow> f x = g x) \<Longrightarrow> bindE m f = bindE m' g"
  by (cases m') auto

lemma guardE_eq [simp]:
  "guardE b e = Inr u \<longleftrightarrow> \<not> b"
  "guardE b e = Inl e' \<longleftrightarrow> b \<and> e' = e"
  by (auto simp: guardE_def)

lemma guardE_True [simp]: "guardE True e = Inl e"
  by (simp add: guardE_def)

lemma guardE_False [simp]: "guardE False e = Inr ()"
  by (simp add: guardE_def)

lemma mapE_Inr_iff: "mapE f xs = Inr ys \<longleftrightarrow> list_all2 (\<lambda>x y. f x = Inr y) xs ys"
proof (induction xs arbitrary: ys)
  case Nil
  then show ?case by auto
next
  case (Cons x xs)
  then show ?case by (cases ys) (auto simp: list_all2_Cons1)
qed

lemma mapE_Inr_length: "mapE f xs = Inr ys \<Longrightarrow> length ys = length xs"
  by (auto simp: mapE_Inr_iff dest: list_all2_lengthD)

lemma mapE_Inl_iff: "(\<exists>e. mapE f xs = Inl e) \<longleftrightarrow> (\<exists>x \<in> set xs. \<exists>e. f x = Inl e)"
proof (induction xs)
  case Nil
  then show ?case by simp
next
  case (Cons x xs)
  show ?case
  proof (cases "f x")
    case (Inl e)
    then show ?thesis by auto
  next
    case (Inr y)
    then show ?thesis using Cons.IH by (auto simp: bindE_eq_Inl)
  qed
qed

lemma mapE_cong [fundef_cong]:
  "xs = ys \<Longrightarrow> (\<And>x. x \<in> set ys \<Longrightarrow> f x = g x) \<Longrightarrow> mapE f xs = mapE g ys"
proof (induction ys arbitrary: xs)
  case Nil
  then show ?case by simp
next
  case (Cons y ys)
  then have "mapE f ys = mapE g ys" and "f y = g y" by auto
  with Cons.prems show ?case by simp
qed

lemma foldE_append: "foldE f (xs @ ys) s = bindE (foldE f xs s) (foldE f ys)"
proof (induction xs arbitrary: s)
  case (Cons x xs)
  then show ?case by (cases "f x s") simp_all
qed simp

lemma foldE_invariant:
  assumes "foldE f xs s = Inr t" and "P s"
    and "\<And>x s t. x \<in> set xs \<Longrightarrow> f x s = Inr t \<Longrightarrow> P s \<Longrightarrow> P t"
  shows "P t"
  using assms
proof (induction xs arbitrary: s)
  case (Cons x xs)
  from Cons.prems(1) obtain s' where "f x s = Inr s'" and rest: "foldE f xs s' = Inr t" by auto
  with Cons.prems have "P s'" by auto
  from Cons.IH [OF rest this] Cons.prems(3) show ?case by auto
qed simp

subsection \<open>Text\<close>

definition chr_in :: "char \<Rightarrow> char \<Rightarrow> char \<Rightarrow> bool" where
  "chr_in lo hi c \<longleftrightarrow> lo \<le> c \<and> c \<le> hi"

definition is_digit :: "char \<Rightarrow> bool" where
  "is_digit c \<longleftrightarrow> chr_in CHR ''0'' CHR ''9'' c"

definition is_lower_hex :: "char \<Rightarrow> bool" where
  "is_lower_hex c \<longleftrightarrow> is_digit c \<or> chr_in CHR ''a'' CHR ''f'' c"

definition is_alnum :: "char \<Rightarrow> bool" where
  "is_alnum c \<longleftrightarrow> chr_in CHR ''A'' CHR ''Z'' c \<or> chr_in CHR ''a'' CHR ''z'' c \<or> is_digit c"

definition is_space :: "char \<Rightarrow> bool" where
  \<comment> \<open>\<^verbatim>\<open>str.isspace\<close> below code point 256\<close>
  "is_space c \<longleftrightarrow> (let n = of_char c :: int in
     (9 \<le> n \<and> n \<le> 13) \<or> (28 \<le> n \<and> n \<le> 32) \<or> n = 133 \<or> n = 160)"

definition py_strip :: "string \<Rightarrow> string" where
  "py_strip s = rev (dropWhile is_space (rev (dropWhile is_space s)))"

fun py_split :: "char \<Rightarrow> string \<Rightarrow> string list" where
  \<comment> \<open>\<^verbatim>\<open>str.split(c)\<close> for a one-character separator\<close>
  "py_split c [] = [[]]"
| "py_split c (x # xs) =
     (if x = c then [] # py_split c xs
      else case py_split c xs of [] \<Rightarrow> [[x]] | w # ws \<Rightarrow> (x # w) # ws)"

fun py_join :: "string \<Rightarrow> string list \<Rightarrow> string" where
  "py_join sep [] = []"
| "py_join sep [w] = w"
| "py_join sep (w # ws) = w @ sep @ py_join sep ws"

definition fold_char :: "char \<Rightarrow> string" where
  \<comment> \<open>\<^verbatim>\<open>str.casefold\<close> of one code point: ASCII and Latin-1 capitals, and the sharp s\<close>
  "fold_char c =
     (let n = of_char c :: int in
      if (65 \<le> n \<and> n \<le> 90) \<or> (192 \<le> n \<and> n \<le> 222 \<and> n \<noteq> 215) then [char_of (n + 32)]
      else if n = 223 then ''ss'' else [c])"

definition py_casefold :: "string \<Rightarrow> string" where
  "py_casefold s = concat (map fold_char s)"

fun nat_digits :: "nat \<Rightarrow> string" where
  "nat_digits n =
     (if n < 10 then [char_of (48 + n)] else nat_digits (n div 10) @ [char_of (48 + n mod 10)])"

declare nat_digits.simps [simp del]

definition int_str :: "int \<Rightarrow> string" where
  "int_str i = (if i < 0 then CHR ''-'' # nat_digits (nat (- i)) else nat_digits (nat i))"

definition utf8_length :: "string \<Rightarrow> int" where
  \<comment> \<open>\<^verbatim>\<open>len(s.encode("utf-8"))\<close> below code point 256\<close>
  "utf8_length s = sum_list (map (\<lambda>c. if (of_char c :: int) < 128 then 1 else 2) s)"

lemma utf8_length_ge: "int (length s) \<le> utf8_length s"
  by (induction s) (auto simp: utf8_length_def)

lemma py_split_ne [simp]: "py_split c s \<noteq> []"
  by (induction s) (auto split: list.split)

lemma py_split_no_sep: "w \<in> set (py_split c s) \<Longrightarrow> c \<notin> set w"
proof (induction s arbitrary: w)
  case Nil
  then show ?case by simp
next
  case (Cons x xs)
  then show ?case by (auto split: if_splits list.splits)
qed

lemma py_split_plain: "c \<notin> set w \<Longrightarrow> py_split c w = [w]"
  by (induction w) auto

lemma py_split_append: "c \<notin> set w \<Longrightarrow> py_split c (w @ c # s) = w # py_split c s"
  by (induction w) auto

lemma py_split_join:
  "ws \<noteq> [] \<Longrightarrow> \<forall>w \<in> set ws. c \<notin> set w \<Longrightarrow> py_split c (py_join [c] ws) = ws"
proof (induction ws rule: induct_list012)
  case (3 w v ws)
  then show ?case by (simp add: py_split_append)
qed (simp_all add: py_split_plain)

lemma py_join_split: "py_join [c] (py_split c s) = s"
proof (induction s)
  case Nil
  then show ?case by simp
next
  case (Cons x xs)
  obtain w ws where "py_split c xs = w # ws" by (cases "py_split c xs") auto
  with Cons show ?case by (cases ws) auto
qed

lemma py_strip_empty [simp]: "py_strip [] = []"
  by (simp add: py_strip_def)

lemma py_strip_set: "set (py_strip s) \<subseteq> set s"
  unfolding py_strip_def by (auto dest!: set_dropWhileD)

lemma dropWhile_idem: "dropWhile P (dropWhile P xs) = dropWhile P xs"
  by (induction xs) auto

subsection \<open>Lists without repetition\<close>

fun py_dedup :: "'a list \<Rightarrow> 'a list" where
  \<comment> \<open>\<^verbatim>\<open>list(dict.fromkeys(xs))\<close>: first occurrences, in order\<close>
  "py_dedup [] = []"
| "py_dedup (x # xs) = x # filter (\<lambda>y. y \<noteq> x) (py_dedup xs)"

lemma set_py_dedup [simp]: "set (py_dedup xs) = set xs"
  by (induction xs) auto

lemma distinct_py_dedup [simp]: "distinct (py_dedup xs)"
  by (induction xs) auto

lemma py_dedup_empty [simp]: "py_dedup xs = [] \<longleftrightarrow> xs = []"
  by (cases xs) auto

lemma py_dedup_id: "distinct xs \<Longrightarrow> py_dedup xs = xs"
  by (induction xs) (auto simp: filter_id_conv)

end
