(* ===== verification/Json_Value.thy ===== *)
theory Json_Value
  imports Clue_Prelude
begin

section \<open>Values that travel as JSON or YAML\<close>

text \<open>
  The Python values built by \<^verbatim>\<open>json.loads\<close> and \<^verbatim>\<open>yaml.safe_load\<close>, with what the sources do to them:
  lookup with a default, truth testing, equality (numeric across \<^verbatim>\<open>bool\<close>, \<^verbatim>\<open>int\<close> and \<^verbatim>\<open>float\<close>, mappings
  without regard to order, NaN equal to nothing), \<^verbatim>\<open>str\<close>/\<^verbatim>\<open>repr\<close>, \<^verbatim>\<open>int\<close> and canonical
  \<^verbatim>\<open>json.dumps\<close>. Mapping keys are text. Floats are exact rationals or one of the three special
  values; binary rounding is not modelled.
\<close>

datatype fnum = Fin rat | PosInf | NegInf | NaN

datatype json =
    JNull
  | JBool bool
  | JInt int
  | JFloat fnum string
  | JStr string
  | JList "json list"
  | JDict "(string \<times> json) list"

type_synonym jdict = "(string \<times> json) list"

datatype py_exn = TypeError | ValueError | OverflowError | KeyError | IndexError

subsection \<open>Mappings\<close>

definition dget :: "jdict \<Rightarrow> string \<Rightarrow> json" where
  \<comment> \<open>\<^verbatim>\<open>d.get(k)\<close>\<close>
  "dget d k = (case map_of d k of None \<Rightarrow> JNull | Some v \<Rightarrow> v)"

definition dhas :: "jdict \<Rightarrow> string \<Rightarrow> bool" where
  "dhas d k \<longleftrightarrow> k \<in> fst ` set d"

fun dset :: "(string \<times> 'v) list \<Rightarrow> string \<Rightarrow> 'v \<Rightarrow> (string \<times> 'v) list" where
  \<comment> \<open>\<^verbatim>\<open>d[k] = v\<close>: an existing key keeps its position, a new one is appended\<close>
  "dset [] k v = [(k, v)]"
| "dset ((k', v') # d) k v = (if k' = k then (k, v) # d else (k', v') # dset d k v)"

definition keys_are :: "jdict \<Rightarrow> string list \<Rightarrow> bool" where
  \<comment> \<open>\<^verbatim>\<open>set(d) == {...}\<close>\<close>
  "keys_are d ks \<longleftrightarrow> set (map fst d) = set ks"

definition as_dict :: "json \<Rightarrow> jdict option" where
  "as_dict v = (case v of JDict d \<Rightarrow> Some d | _ \<Rightarrow> None)"

definition as_list :: "json \<Rightarrow> json list option" where
  "as_list v = (case v of JList xs \<Rightarrow> Some xs | _ \<Rightarrow> None)"

definition as_str :: "json \<Rightarrow> string option" where
  "as_str v = (case v of JStr s \<Rightarrow> Some s | _ \<Rightarrow> None)"

definition is_dict :: "json \<Rightarrow> bool" where
  "is_dict v \<longleftrightarrow> as_dict v \<noteq> None"

definition is_str :: "json \<Rightarrow> bool" where
  "is_str v \<longleftrightarrow> as_str v \<noteq> None"

lemma as_dict_simps [simp]:
  "as_dict v = Some d \<longleftrightarrow> v = JDict d"
  "as_dict (JDict d) = Some d"
  by (auto simp: as_dict_def split: json.splits)

lemma as_list_simps [simp]:
  "as_list v = Some xs \<longleftrightarrow> v = JList xs"
  "as_list (JList xs) = Some xs"
  by (auto simp: as_list_def split: json.splits)

lemma as_str_simps [simp]:
  "as_str v = Some s \<longleftrightarrow> v = JStr s"
  "as_str (JStr s) = Some s"
  by (auto simp: as_str_def split: json.splits)

lemma as_eval [simp]:
  "as_dict JNull = None" "as_dict (JBool b) = None" "as_dict (JInt i) = None"
  "as_dict (JFloat f r) = None" "as_dict (JStr s) = None" "as_dict (JList xs) = None"
  "as_list JNull = None" "as_list (JBool b) = None" "as_list (JInt i) = None"
  "as_list (JFloat f r) = None" "as_list (JStr s) = None" "as_list (JDict d) = None"
  "as_str JNull = None" "as_str (JBool b) = None" "as_str (JInt i) = None"
  "as_str (JFloat f r) = None" "as_str (JList xs) = None" "as_str (JDict d) = None"
  by (simp_all add: as_dict_def as_list_def as_str_def)

lemma is_dict_iff: "is_dict v \<longleftrightarrow> (\<exists>d. v = JDict d)"
  by (auto simp: is_dict_def)

lemma is_str_iff: "is_str v \<longleftrightarrow> (\<exists>s. v = JStr s)"
  by (auto simp: is_str_def)

lemma map_of_dset [simp]: "map_of (dset d k v) = (map_of d)(k \<mapsto> v)"
  by (induction d) (auto simp: fun_eq_iff)

lemma dset_keys: "fst ` set (dset d k v) = insert k (fst ` set d)"
  by (induction d k v rule: dset.induct) (simp_all add: insert_commute)

lemma distinct_dset: "distinct (map fst d) \<Longrightarrow> distinct (map fst (dset d k v))"
  by (induction d k v rule: dset.induct) (auto simp: dset_keys)

lemma dset_new: "k \<notin> fst ` set d \<Longrightarrow> dset d k v = d @ [(k, v)]"
  by (induction d) auto

lemma map_fst_dset: "map_of d k = Some x \<Longrightarrow> map fst (dset d k v) = map fst d"
  by (induction d k v rule: dset.induct) (simp_all split: if_splits)

lemma length_dset: "map_of d k = Some x \<Longrightarrow> length (dset d k v) = length d"
  by (induction d k v rule: dset.induct) (simp_all split: if_splits)

lemma dset_idem: "map_of d k = Some v \<Longrightarrow> dset d k v = d"
  by (induction d k v rule: dset.induct) (simp_all split: if_splits)

lemma dset_dset [simp]: "dset (dset d k v) k w = dset d k w"
  by (induction d k v rule: dset.induct) simp_all

lemma dset_commute: "k \<noteq> k' \<Longrightarrow> map_of d k = Some x \<Longrightarrow> map_of d k' = Some y \<Longrightarrow>
    dset (dset d k v) k' w = dset (dset d k' w) k v"
  by (induction d k v rule: dset.induct) (simp_all split: if_splits)

lemma dget_dset [simp]: "dget (dset d k v) k' = (if k' = k then v else dget d k')"
  by (simp add: dget_def)

lemma zip_size [termination_simp]:
  "(x, y) \<in> set (zip xs ys) \<Longrightarrow> size x < Suc (size_list size xs)"
  using set_zip_leftD [of x y xs ys] size_list_estimation' [of x xs "size x" size]
  by (simp add: less_Suc_eq_le)

subsection \<open>Truth and equality\<close>

fun truthy :: "json \<Rightarrow> bool" where
  "truthy JNull = False"
| "truthy (JBool b) = b"
| "truthy (JInt i) = (i \<noteq> 0)"
| "truthy (JFloat f _) = (f \<noteq> Fin 0)"
| "truthy (JStr s) = (s \<noteq> [])"
| "truthy (JList xs) = (xs \<noteq> [])"
| "truthy (JDict d) = (d \<noteq> [])"

definition py_or :: "json \<Rightarrow> json \<Rightarrow> json" where
  "py_or a b = (if truthy a then a else b)"

fun num_of :: "json \<Rightarrow> fnum option" where
  "num_of (JBool b) = Some (Fin (if b then 1 else 0))"
| "num_of (JInt i) = Some (Fin (of_int i))"
| "num_of (JFloat f _) = Some f"
| "num_of _ = None"

definition num_eq :: "fnum \<Rightarrow> fnum \<Rightarrow> bool" where
  "num_eq x y \<longleftrightarrow> x \<noteq> NaN \<and> x = y"

fun py_eq :: "json \<Rightarrow> json \<Rightarrow> bool" where
  "py_eq JNull b = (b = JNull)"
| "py_eq (JStr s) b = (b = JStr s)"
| "py_eq (JList xs) b =
     (case b of JList ys \<Rightarrow> length xs = length ys \<and> list_all (\<lambda>(x, y). py_eq x y) (zip xs ys)
      | _ \<Rightarrow> False)"
| "py_eq (JDict xs) b =
     (case b of JDict ys \<Rightarrow>
        length xs = length ys \<and>
        list_all (\<lambda>(k, v). case map_of ys k of None \<Rightarrow> False | Some w \<Rightarrow> py_eq v w) xs
      | _ \<Rightarrow> False)"
| "py_eq a b = (case (num_of a, num_of b) of (Some x, Some y) \<Rightarrow> num_eq x y | _ \<Rightarrow> False)"

fun json_wf :: "json \<Rightarrow> bool" where
  \<comment> \<open>the keys of every mapping are distinct, as in any Python dict\<close>
  "json_wf (JList xs) = list_all json_wf xs"
| "json_wf (JDict d) = (distinct (map fst d) \<and> list_all (\<lambda>(k, v). json_wf v) d)"
| "json_wf _ = True"

fun type_tag :: "json \<Rightarrow> nat" where
  "type_tag JNull = 0"
| "type_tag (JBool _) = 1"
| "type_tag (JInt _) = 2"
| "type_tag (JFloat _ _) = 3"
| "type_tag (JStr _) = 4"
| "type_tag (JList _) = 5"
| "type_tag (JDict _) = 6"


subsection \<open>Equality is a partial equivalence on well-formed values\<close>

lemma py_eq_list [simp]: "py_eq (JList xs) (JList ys) \<longleftrightarrow> list_all2 py_eq xs ys"
  by (simp add: list_all2_iff list_all_iff)

lemma py_eq_dict:
  "py_eq (JDict xs) (JDict ys) \<longleftrightarrow> length xs = length ys \<and>
     (\<forall>k v. (k, v) \<in> set xs \<longrightarrow> (\<exists>w. map_of ys k = Some w \<and> py_eq v w))"
  by (fastforce simp: list_all_iff split: option.splits)

lemma py_eq_str_right [simp]: "py_eq v (JStr s) \<longleftrightarrow> v = JStr s"
  by (cases v) auto

declare py_eq.simps(3,4) [simp del]

lemma py_eq_list_left: "py_eq (JList xs) b \<longleftrightarrow> (\<exists>ys. b = JList ys \<and> list_all2 py_eq xs ys)"
  by (cases b) (simp_all add: py_eq.simps(3) list_all2_iff list_all_iff)

lemma py_eq_dict_left: "py_eq (JDict xs) b \<Longrightarrow> \<exists>ys. b = JDict ys"
  by (cases b) (simp_all add: py_eq.simps(4))

lemma py_eq_num:
  assumes "num_of a = Some x"
  shows "py_eq a b \<longleftrightarrow> num_of b = Some x \<and> x \<noteq> NaN"
  using assms by (cases a) (auto simp: num_eq_def split: option.splits)

lemma num_of_cases:
  obtains (num) x where "num_of a = Some x" | (null) "a = JNull" | (str) s where "a = JStr s"
    | (list) xs where "a = JList xs" | (dict) d where "a = JDict d"
  by (cases a) auto

lemma py_eq_num_trans:
  assumes "py_eq a b" and "py_eq b c" and "num_of a = Some x"
  shows "py_eq a c"
  using assms py_eq_num [of a x] py_eq_num [of b x] by simp

lemma py_eq_trans: "py_eq a b \<Longrightarrow> py_eq b c \<Longrightarrow> py_eq a c"
proof (induction a arbitrary: b c)
  case (JList xs)
  then obtain ys zs where b: "b = JList ys" and c: "c = JList zs"
    and "list_all2 py_eq xs ys" "list_all2 py_eq ys zs"
    by (auto simp: py_eq_list_left)
  then have "list_all2 py_eq xs zs"
    using JList.IH by (auto simp: list_all2_conv_all_nth)
  then show ?case by (simp add: c)
next
  case (JDict xs)
  then obtain ys zs where b: "b = JDict ys" and c: "c = JDict zs"
    by (blast dest: py_eq_dict_left)
  have "\<exists>u. map_of zs k = Some u \<and> py_eq v u" if kv: "(k, v) \<in> set xs" for k v
  proof -
    obtain w where w: "map_of ys k = Some w" "py_eq v w"
      using JDict.prems(1) kv by (auto simp: b py_eq_dict)
    then obtain u where "map_of zs k = Some u" "py_eq w u"
      using JDict.prems(2) map_of_SomeD [OF w(1)] by (auto simp: b c py_eq_dict)
    with JDict.IH [OF kv, of v] w show ?thesis by auto
  qed
  then show ?case using JDict.prems by (auto simp: b c py_eq_dict)
next
  case (JBool x)
  then show ?case by (rule py_eq_num_trans) simp
next
  case (JInt x)
  then show ?case by (rule py_eq_num_trans) simp
next
  case (JFloat f r)
  then show ?case by (rule py_eq_num_trans) simp
qed auto

lemma img_fst: "(k, v) \<in> S \<Longrightarrow> k \<in> fst ` S"
  by force

lemma dict_keys_agree:
  assumes "distinct (map fst xs)" and "length xs = length ys"
    and "\<And>k. k \<in> fst ` set xs \<Longrightarrow> k \<in> fst ` set ys"
  shows "fst ` set xs = fst ` set ys"
proof (rule card_seteq)
  have "card (fst ` set ys) \<le> length ys"
    using card_length [of "map fst ys"] by simp
  also have "\<dots> = card (fst ` set xs)"
    using assms(1,2) distinct_card [of "map fst xs"] by simp
  finally show "card (fst ` set ys) \<le> card (fst ` set xs)" .
qed (use assms(3) in auto)

lemma py_eq_sym: "py_eq a b \<Longrightarrow> json_wf a \<Longrightarrow> json_wf b \<Longrightarrow> py_eq b a"
proof (induction a arbitrary: b)
  case (JList xs)
  then obtain ys where b: "b = JList ys" and "list_all2 py_eq xs ys"
    by (auto simp: py_eq_list_left)
  then have "list_all2 py_eq ys xs"
    using JList by (auto simp: list_all2_conv_all_nth list_all_iff)
  then show ?case by (simp add: b)
next
  case (JDict xs)
  then obtain ys where b: "b = JDict ys" by (blast dest: py_eq_dict_left)
  have len: "length xs = length ys"
    and sub: "\<And>k v. (k, v) \<in> set xs \<Longrightarrow> \<exists>w. map_of ys k = Some w \<and> py_eq v w"
    using JDict.prems(1) by (auto simp: b py_eq_dict)
  have dist: "distinct (map fst xs)" "distinct (map fst ys)"
    and wfx: "\<And>k v. (k, v) \<in> set xs \<Longrightarrow> json_wf v"
    and wfy: "\<And>k v. (k, v) \<in> set ys \<Longrightarrow> json_wf v"
    using JDict.prems(2,3) by (auto simp: b list_all_iff)
  have keys: "fst ` set xs = fst ` set ys"
  proof (rule dict_keys_agree [OF dist(1) len])
    fix k assume "k \<in> fst ` set xs"
    then obtain v where "(k, v) \<in> set xs" by auto
    with sub obtain w where "map_of ys k = Some w" by blast
    then show "k \<in> fst ` set ys" by (rule map_of_SomeD [THEN img_fst])
  qed
  have "\<exists>v. map_of xs k = Some v \<and> py_eq w v" if kw: "(k, w) \<in> set ys" for k w
  proof -
    from img_fst [OF kw] keys obtain v where kv: "(k, v) \<in> set xs" by (metis imageE prod.collapse)
    from sub [OF kv] map_of_is_SomeI [OF dist(2) kw] have "py_eq v w" by simp
    then have "py_eq w v" using JDict.IH [OF kv] wfx [OF kv] wfy [OF kw] by simp
    with map_of_is_SomeI [OF dist(1) kv] show ?thesis by blast
  qed
  then show ?case using len by (auto simp: b py_eq_dict)
next
  case (JStr s)
  then show ?case by simp
next
  case JNull
  then show ?case by simp
qed (case_tac [!] b, auto simp: num_eq_def split: option.splits)

subsection \<open>Rendering\<close>

definition hex_digit :: "nat \<Rightarrow> char" where
  "hex_digit n = (if n < 10 then char_of (48 + n) else char_of (87 + n))"

definition hex2 :: "nat \<Rightarrow> string" where
  "hex2 n = [hex_digit (n div 16), hex_digit (n mod 16)]"

definition str_repr :: "string \<Rightarrow> string" where
  \<comment> \<open>\<^verbatim>\<open>repr\<close> of a str below code point 256\<close>
  "str_repr s =
     (let q = (if CHR 0x27 \<in> set s \<and> CHR 0x22 \<notin> set s then CHR 0x22 else CHR 0x27);
          esc = (\<lambda>c. let n = of_char c :: nat in
             if c = q \<or> c = CHR 0x5C then [CHR 0x5C, c]
             else if n = 10 then [CHR 0x5C, CHR ''n'']
             else if n = 13 then [CHR 0x5C, CHR ''r'']
             else if n = 9 then [CHR 0x5C, CHR ''t'']
             else if n < 32 \<or> (127 \<le> n \<and> n \<le> 160) \<or> n = 173 then [CHR 0x5C, CHR ''x''] @ hex2 n
             else [c])
      in [q] @ concat (map esc s) @ [q])"

fun py_repr :: "json \<Rightarrow> string" where
  "py_repr JNull = ''None''"
| "py_repr (JBool b) = (if b then ''True'' else ''False'')"
| "py_repr (JInt i) = int_str i"
| "py_repr (JFloat _ r) = r"
| "py_repr (JStr s) = str_repr s"
| "py_repr (JList xs) = ''['' @ py_join '', '' (map py_repr xs) @ '']''"
| "py_repr (JDict d) =
     ''{'' @ py_join '', '' (map (\<lambda>(k, v). str_repr k @ '': '' @ py_repr v) d) @ ''}''"

definition py_str :: "json \<Rightarrow> string" where
  "py_str v = (case v of JStr s \<Rightarrow> s | _ \<Rightarrow> py_repr v)"

definition json_escape :: "char \<Rightarrow> string" where
  \<comment> \<open>\<^verbatim>\<open>json.dumps(..., ensure_ascii=False)\<close> of one code point\<close>
  "json_escape c =
     (let n = of_char c :: nat in
      if c = CHR 0x22 \<or> c = CHR 0x5C then [CHR 0x5C, c]
      else if n = 8 then [CHR 0x5C, CHR ''b'']
      else if n = 9 then [CHR 0x5C, CHR ''t'']
      else if n = 10 then [CHR 0x5C, CHR ''n'']
      else if n = 12 then [CHR 0x5C, CHR ''f'']
      else if n = 13 then [CHR 0x5C, CHR ''r'']
      else if n < 32 then [CHR 0x5C, CHR ''u'', CHR ''0'', CHR ''0''] @ hex2 n
      else [c])"

definition json_str :: "string \<Rightarrow> string" where
  "json_str s = [CHR 0x22] @ concat (map json_escape s) @ [CHR 0x22]"

fun json_float :: "fnum \<Rightarrow> string \<Rightarrow> string" where
  "json_float (Fin _) r = r"
| "json_float PosInf _ = ''Infinity''"
| "json_float NegInf _ = ''-Infinity''"
| "json_float NaN _ = ''NaN''"

fun json_dumps_sorted :: "json \<Rightarrow> string" where
  \<comment> \<open>\<^verbatim>\<open>json.dumps(v, sort_keys=True, separators=(",", ":"), ensure_ascii=False)\<close>\<close>
  "json_dumps_sorted JNull = ''null''"
| "json_dumps_sorted (JBool b) = (if b then ''true'' else ''false'')"
| "json_dumps_sorted (JInt i) = int_str i"
| "json_dumps_sorted (JFloat f r) = json_float f r"
| "json_dumps_sorted (JStr s) = json_str s"
| "json_dumps_sorted (JList xs) = ''['' @ py_join '','' (map json_dumps_sorted xs) @ '']''"
| "json_dumps_sorted (JDict d) =
     ''{'' @ py_join '','' (map (\<lambda>(k, t). json_str k @ '':'' @ t)
        (sort_key fst (map (\<lambda>(k, v). (k, json_dumps_sorted v)) d))) @ ''}''"

subsection \<open>Conversion to int\<close>

fun digits_value :: "nat \<Rightarrow> string \<Rightarrow> nat" where
  "digits_value acc [] = acc"
| "digits_value acc (c # cs) = digits_value (10 * acc + (of_char c - 48)) cs"

fun digit_groups :: "string \<Rightarrow> bool" where
  \<comment> \<open>decimal digits with single underscores between them\<close>
  "digit_groups [] = False"
| "digit_groups [c] = is_digit c"
| "digit_groups (c # d # cs) =
     (is_digit c \<and> (if d = CHR ''_'' then digit_groups cs else digit_groups (d # cs)))"

definition int_of_text :: "string \<Rightarrow> int option" where
  "int_of_text s =
     (let t = py_strip s;
          neg = (t \<noteq> [] \<and> hd t = CHR ''-'');
          body = (if t \<noteq> [] \<and> (hd t = CHR ''-'' \<or> hd t = CHR ''+'') then tl t else t)
      in if digit_groups body
         then let n = int (digits_value 0 (filter is_digit body)) in Some (if neg then - n else n)
         else None)"

definition rat_trunc :: "rat \<Rightarrow> int" where
  "rat_trunc q = (if q < 0 then - \<lfloor>- q\<rfloor> else \<lfloor>q\<rfloor>)"

fun py_int :: "json \<Rightarrow> py_exn + int" where
  "py_int (JBool b) = Inr (if b then 1 else 0)"
| "py_int (JInt i) = Inr i"
| "py_int (JFloat (Fin q) _) = Inr (rat_trunc q)"
| "py_int (JFloat NaN _) = Inl ValueError"
| "py_int (JFloat _ _) = Inl OverflowError"
| "py_int (JStr s) = (case int_of_text s of None \<Rightarrow> Inl ValueError | Some i \<Rightarrow> Inr i)"
| "py_int _ = Inl TypeError"

end
