(* ===== verification/Field_Paths.thy ===== *)
theory Field_Paths
  imports Json_Value
begin

section \<open>Field paths of a manifest\<close>

text \<open>
  The path language of \<^verbatim>\<open>src/src/domains/gitops/source_patch.py\<close>: \<^verbatim>\<open>spec.containers[name=web].image\<close>
  is parsed into segments; a segment selects a mapping key and, with \<^verbatim>\<open>[name=...]\<close>, the one item of a
  list whose \<^verbatim>\<open>name\<close> is the given text. \<open>object_value_at\<close> reads, \<open>set_object_value\<close> writes (the
  in-place update of the source, as a function on values) and \<open>node_value_at\<close> finds the YAML node
  at a path. The lemmas show that reading and writing obey the laws of a lens, that writes at
  different scalar paths commute, and that both respect Python equality.
\<close>

datatype patch_error =
    ManifestSourcePatchError string
  | RemediationSourcePatchUnsupported string
  | PyError py_exn

record segment =
  seg_key :: string
  selected_name :: "string option"

subsection \<open>Parsing a path\<close>

definition key_char :: "char \<Rightarrow> bool" where
  "key_char c \<longleftrightarrow> is_alnum c \<or> c = CHR ''_'' \<or> c = CHR ''-''"

fun field_path_parts_loop :: "string \<Rightarrow> string \<Rightarrow> int \<Rightarrow> string list \<Rightarrow> string list" where
  "field_path_parts_loop [] cur bracket_depth parts =
     (if bracket_depth \<noteq> 0 then [] else parts @ [cur])"
| "field_path_parts_loop (c # cs) cur bracket_depth parts =
     (if c = CHR ''['' then field_path_parts_loop cs (cur @ [c]) (bracket_depth + 1) parts
      else if c = CHR '']'' then
        (if bracket_depth - 1 < 0 then []
         else field_path_parts_loop cs (cur @ [c]) (bracket_depth - 1) parts)
      else if c = CHR ''.'' \<and> bracket_depth = 0
      then field_path_parts_loop cs [] bracket_depth (parts @ [cur])
      else field_path_parts_loop cs (cur @ [c]) bracket_depth parts)"

definition field_path_parts :: "string \<Rightarrow> string list" where
  "field_path_parts value = field_path_parts_loop value [] 0 []"

definition match_segment :: "string \<Rightarrow> (string \<times> string option) option" where
  \<comment> \<open>\<^verbatim>\<open>FIELD_PATH_SEGMENT_PATTERN.fullmatch\<close> with its two groups\<close>
  "match_segment raw =
     (let k = takeWhile key_char raw; rest = dropWhile key_char raw;
          nm = butlast (drop 6 rest)
      in if k = [] then None
         else if rest = [] then Some (k, None)
         else if rest = ''[name='' @ nm @ '']'' \<and> nm \<noteq> [] \<and> CHR '']'' \<notin> set nm
         then Some (k, Some nm)
         else None)"

fun field_path_segments_loop :: "string list \<Rightarrow> segment list \<Rightarrow> segment list" where
  "field_path_segments_loop [] segments = segments"
| "field_path_segments_loop (raw # raws) segments =
     (case match_segment raw of
        None \<Rightarrow> []
      | Some (k, nm) \<Rightarrow>
          (if nm \<noteq> None \<and> py_strip (the nm) = [] then []
           else field_path_segments_loop raws
                  (segments @ [\<lparr>seg_key = k, selected_name = nm\<rparr>])))"

definition field_path_segments :: "string \<Rightarrow> segment list" where
  "field_path_segments value = field_path_segments_loop (field_path_parts value) []"

subsection \<open>Reading and writing values\<close>

definition scalar_target_missing :: patch_error where
  "scalar_target_missing = ManifestSourcePatchError ''manifest scalar target is missing''"

definition scalar_target_not_unique :: patch_error where
  "scalar_target_not_unique = ManifestSourcePatchError ''manifest scalar target is not unique''"

definition named_item :: "string \<Rightarrow> json \<Rightarrow> bool" where
  \<comment> \<open>\<^verbatim>\<open>isinstance(item, Mapping) and item.get("name") == selected_name\<close>\<close>
  "named_item nm item = (case item of JDict d \<Rightarrow> py_eq (dget d ''name'') (JStr nm) | _ \<Rightarrow> False)"

fun object_value_at :: "json \<Rightarrow> segment list \<Rightarrow> patch_error + json" where
  "object_value_at current [] = Inr current"
| "object_value_at current (segment # segments) =
     (case current of
        JDict d \<Rightarrow>
          (case map_of d (seg_key segment) of
             None \<Rightarrow> Inl scalar_target_missing
           | Some v \<Rightarrow>
               (case selected_name segment of
                  None \<Rightarrow> object_value_at v segments
                | Some nm \<Rightarrow>
                    (case v of
                       JList items \<Rightarrow>
                         (case filter (named_item nm) items of
                            [m] \<Rightarrow> object_value_at m segments
                          | _ \<Rightarrow> Inl scalar_target_not_unique)
                     | _ \<Rightarrow> Inl scalar_target_missing)))
      | _ \<Rightarrow> Inl scalar_target_missing)"

fun set_object_value :: "json \<Rightarrow> segment list \<Rightarrow> json \<Rightarrow> patch_error + json" where
  "set_object_value current [] v = Inl (PyError IndexError)"
| "set_object_value current [final] v =
     (case current of
        JDict d \<Rightarrow>
          (if selected_name final \<noteq> None then Inl scalar_target_missing
           else Inr (JDict (dset d (seg_key final) v)))
      | _ \<Rightarrow> Inl scalar_target_missing)"
| "set_object_value current (segment # segments) v =
     (case current of
        JDict d \<Rightarrow>
          (case map_of d (seg_key segment) of
             None \<Rightarrow> Inl (PyError KeyError)
           | Some child \<Rightarrow>
               (case selected_name segment of
                  None \<Rightarrow>
                    bindE (set_object_value child segments v)
                      (\<lambda>child'. Inr (JDict (dset d (seg_key segment) child')))
                | Some nm \<Rightarrow>
                    (case child of
                       JList items \<Rightarrow>
                         (case filter (named_item nm) items of
                            [m] \<Rightarrow>
                              bindE (set_object_value m segments v)
                                (\<lambda>m'. Inr (JDict (dset d (seg_key segment)
                                  (JList (map (\<lambda>it. if named_item nm it then m' else it) items)))))
                          | _ \<Rightarrow> Inl scalar_target_not_unique)
                     | JDict _ \<Rightarrow> Inl scalar_target_not_unique
                     | JStr _ \<Rightarrow> Inl scalar_target_not_unique
                     | _ \<Rightarrow> Inl (PyError TypeError))))
      | _ \<Rightarrow> Inl scalar_target_missing)"

subsection \<open>YAML nodes\<close>

datatype node =
    ScalarNode (node_value: string) (style: "char option") (start_mark: nat) (end_mark: nat)
  | SequenceNode "node list"
  | MappingNode "(node \<times> node) list"

fun mapping_value :: "(node \<times> node) list \<Rightarrow> string \<Rightarrow> node option" where
  "mapping_value [] key = None"
| "mapping_value ((key_node, value_node) # rest) key =
     (case key_node of
        ScalarNode kv _ _ _ \<Rightarrow> if kv = key then Some value_node else mapping_value rest key
      | _ \<Rightarrow> mapping_value rest key)"

definition named_node :: "string \<Rightarrow> node \<Rightarrow> bool" where
  "named_node nm item =
     (case item of
        MappingNode kvs \<Rightarrow>
          (case mapping_value kvs ''name'' of
             Some (ScalarNode v _ _ _) \<Rightarrow> v = nm
           | _ \<Rightarrow> False)
      | _ \<Rightarrow> False)"

fun node_value_at :: "node \<Rightarrow> segment list \<Rightarrow> patch_error + node" where
  "node_value_at current [] = Inr current"
| "node_value_at current (segment # segments) =
     (case current of
        MappingNode kvs \<Rightarrow>
          (case mapping_value kvs (seg_key segment) of
             None \<Rightarrow> Inl scalar_target_missing
           | Some value \<Rightarrow>
               (case selected_name segment of
                  None \<Rightarrow> node_value_at value segments
                | Some nm \<Rightarrow>
                    (case value of
                       SequenceNode items \<Rightarrow>
                         (case filter (named_node nm) items of
                            [m] \<Rightarrow> node_value_at m segments
                          | _ \<Rightarrow> Inl scalar_target_not_unique)
                     | _ \<Rightarrow> Inl scalar_target_missing)))
      | _ \<Rightarrow> Inl scalar_target_missing)"

subsection \<open>Replacing the one selected item of a list\<close>

abbreviation replace_if :: "('a \<Rightarrow> bool) \<Rightarrow> 'a \<Rightarrow> 'a list \<Rightarrow> 'a list" where
  "replace_if P y xs \<equiv> map (\<lambda>x. if P x then y else x) xs"

lemma filter_single_prop: "filter P xs = [m] \<Longrightarrow> P m \<and> m \<in> set xs"
  by (auto simp: filter_eq_Cons_iff)

lemma filter_single_eq:
  assumes "filter P xs = [m]" and "x \<in> set xs" and "P x"
  shows "x = m"
proof -
  have "x \<in> set (filter P xs)" using assms(2,3) by simp
  then show ?thesis unfolding assms(1) by simp
qed

lemma filter_replace_same:
  "filter P xs = [m] \<Longrightarrow> P m' \<Longrightarrow> filter P (replace_if P m' xs) = [m']"
proof (induction xs)
  case (Cons x xs)
  then show ?case
  proof (cases "P x")
    case True
    with Cons.prems have "filter P xs = []" by simp
    then have "filter P (replace_if P m' xs) = []" by (auto simp: filter_empty_conv)
    with True Cons.prems show ?thesis by simp
  qed simp
qed simp

lemma filter_replace_other:
  "\<forall>x \<in> set xs. P x \<longrightarrow> \<not> Q x \<Longrightarrow> \<not> Q m' \<Longrightarrow> filter Q (replace_if P m' xs) = filter Q xs"
  by (induction xs) auto

lemma replace_back:
  assumes "filter P xs = [m]" and "P m'"
  shows "replace_if P m (replace_if P m' xs) = xs"
  using filter_single_eq [OF assms(1)] assms(2) by (auto simp: o_def intro!: map_idI)

lemma replace_commute:
  assumes "\<forall>x \<in> set xs. \<not> (P x \<and> Q x)" and "\<not> Q m'" and "\<not> P k'"
  shows "replace_if Q k' (replace_if P m' xs) = replace_if P m' (replace_if Q k' xs)"
  using assms by auto

lemma named_item_iff: "named_item nm it \<longleftrightarrow> (\<exists>d. it = JDict d \<and> dget d ''name'' = JStr nm)"
  by (cases it) (auto simp: named_item_def)

lemma named_item_unique: "named_item nm it \<Longrightarrow> named_item nm' it \<Longrightarrow> nm = nm'"
  by (auto simp: named_item_iff)

subsection \<open>Elimination rules for reading and writing\<close>

lemma object_value_at_ConsE:
  assumes "object_value_at cur (s # ss) = Inr x"
  obtains (key) d v where "cur = JDict d" "map_of d (seg_key s) = Some v"
      "selected_name s = None" "object_value_at v ss = Inr x"
    | (sel) d items nm m where "cur = JDict d" "map_of d (seg_key s) = Some (JList items)"
      "selected_name s = Some nm" "filter (named_item nm) items = [m]"
      "object_value_at m ss = Inr x"
  using assms by (auto split: json.splits option.splits list.splits)

lemma set_object_value_ConsE:
  assumes "set_object_value cur (s # ss) v = Inr r"
  obtains (final) d where "ss = []" "cur = JDict d" "selected_name s = None"
      "r = JDict (dset d (seg_key s) v)"
    | (key) d c c' where "ss \<noteq> []" "cur = JDict d" "map_of d (seg_key s) = Some c"
      "selected_name s = None" "set_object_value c ss v = Inr c'"
      "r = JDict (dset d (seg_key s) c')"
    | (sel) d items nm m m' where "ss \<noteq> []" "cur = JDict d"
      "map_of d (seg_key s) = Some (JList items)" "selected_name s = Some nm"
      "filter (named_item nm) items = [m]" "set_object_value m ss v = Inr m'"
      "r = JDict (dset d (seg_key s) (JList (replace_if (named_item nm) m' items)))"
proof (cases ss)
  case Nil
  with assms that(1) show ?thesis by (auto split: json.splits if_splits)
next
  case (Cons t ts)
  with assms that(2,3) show ?thesis by (auto split: json.splits option.splits list.splits)
qed

lemma set_object_value_key:
  assumes "ss \<noteq> []" "map_of d (seg_key s) = Some c" "selected_name s = None"
  shows "set_object_value (JDict d) (s # ss) v =
    bindE (set_object_value c ss v) (\<lambda>c'. Inr (JDict (dset d (seg_key s) c')))"
  using assms by (cases ss) auto

lemma set_object_value_sel:
  assumes "ss \<noteq> []" "map_of d (seg_key s) = Some (JList items)" "selected_name s = Some nm"
    "filter (named_item nm) items = [m]"
  shows "set_object_value (JDict d) (s # ss) v =
    bindE (set_object_value m ss v)
      (\<lambda>m'. Inr (JDict (dset d (seg_key s) (JList (replace_if (named_item nm) m' items)))))"
  using assms by (cases ss) auto

lemma set_object_value_dict: "set_object_value cur p v = Inr r \<Longrightarrow> \<exists>d. r = JDict d"
  by (cases p) (auto elim: set_object_value_ConsE)

fun name_safe :: "segment list \<Rightarrow> bool" where
  \<comment> \<open>the path does not write the name its own last selection looks for\<close>
  "name_safe (s # t # ss) \<longleftrightarrow>
     (selected_name s \<noteq> None \<and> ss = [] \<longrightarrow> seg_key t \<noteq> ''name'') \<and> name_safe (t # ss)"
| "name_safe _ = True"

lemma name_safe_tl: "name_safe (s # ss) \<Longrightarrow> name_safe ss"
  by (cases ss) auto

lemma named_item_set:
  assumes "set_object_value m ss v = Inr m'" and "named_item nm m"
    and "name_safe (s # ss)" and "selected_name s = Some nm'"
  shows "named_item k m' \<longleftrightarrow> named_item k m"
proof (cases ss)
  case Nil
  with assms show ?thesis by simp
next
  case (Cons t ts)
  from assms(2) obtain d where d: "m = JDict d" "dget d ''name'' = JStr nm"
    by (auto simp: named_item_iff)
  have name: "seg_key t = ''name'' \<Longrightarrow> ts \<noteq> [] \<Longrightarrow> map_of d (seg_key t) = Some (JStr nm)"
    using d(2) by (simp add: dget_def split: option.splits)
  from assms(1) [unfolded Cons] show ?thesis
  proof (cases rule: set_object_value_ConsE)
    case final
    then show ?thesis using assms(3,4) Cons d by (auto simp: named_item_iff)
  next
    case (key d' c c')
    have "seg_key t \<noteq> ''name''"
    proof
      assume "seg_key t = ''name''"
      with name key d have "c = JStr nm" by simp
      with key show False by (cases ts) (auto elim: set_object_value_ConsE)
    qed
    with key d show ?thesis by (auto simp: named_item_iff)
  next
    case (sel d' items nm2 m2 m2')
    then have "seg_key t \<noteq> ''name''" using name d by auto
    with sel d show ?thesis by (auto simp: named_item_iff)
  qed
qed

subsection \<open>Laws of reading and writing\<close>

lemma object_value_at_set:
  "set_object_value cur p v = Inr r \<Longrightarrow> name_safe p \<Longrightarrow> object_value_at r p = Inr v"
proof (induction p arbitrary: cur r)
  case (Cons s ss)
  from Cons.prems(1) show ?case
  proof (cases rule: set_object_value_ConsE)
    case (sel d items nm m m')
    then have "named_item nm m'"
      using named_item_set [OF sel(6) _ Cons.prems(2) sel(4)] filter_single_prop [OF sel(5)] by auto
    then have "filter (named_item nm) (replace_if (named_item nm) m' items) = [m']"
      by (rule filter_replace_same [OF sel(5)])
    with sel Cons.IH [OF sel(6) name_safe_tl [OF Cons.prems(2)]] show ?thesis by simp
  qed (use Cons name_safe_tl in auto)
qed simp

lemma set_object_value_defined:
  assumes "object_value_at cur p = Inr u" and "p \<noteq> []" and "selected_name (last p) = None"
  shows "\<exists>r. set_object_value cur p v = Inr r"
  using assms
proof (induction p arbitrary: cur)
  case (Cons s ss)
  from Cons.prems(1) show ?case
  proof (cases rule: object_value_at_ConsE)
    case (key d w)
    then show ?thesis using Cons by (cases "ss = []") (auto simp: set_object_value_key)
  next
    case (sel d items nm m)
    then show ?thesis using Cons by (cases "ss = []") (auto simp: set_object_value_sel)
  qed
qed simp

lemma set_object_value_back:
  assumes "object_value_at cur p = Inr u" and "set_object_value cur p v = Inr r" and "name_safe p"
  shows "set_object_value r p u = Inr cur"
  using assms
proof (induction p arbitrary: cur r)
  case (Cons s ss)
  from Cons.prems(2) show ?case
  proof (cases rule: set_object_value_ConsE)
    case (final d)
    with Cons.prems(1) show ?thesis by (auto simp: dset_idem split: option.splits)
  next
    case (key d c c')
    then have "object_value_at c ss = Inr u" using Cons.prems(1) by (auto elim: object_value_at_ConsE)
    from Cons.IH [OF this key(5) name_safe_tl [OF Cons.prems(3)]] key
    show ?thesis by (simp add: set_object_value_key dset_idem)
  next
    case (sel d items nm m m')
    have named: "named_item nm m" using filter_single_prop [OF sel(5)] by simp
    then have named': "named_item nm m'"
      using named_item_set [OF sel(6) _ Cons.prems(3) sel(4)] by blast
    have "object_value_at m ss = Inr u" using Cons.prems(1) sel by (auto elim: object_value_at_ConsE)
    from Cons.IH [OF this sel(6) name_safe_tl [OF Cons.prems(3)]]
    have undo: "set_object_value m' ss u = Inr m" .
    have "set_object_value r (s # ss) u =
        bindE (set_object_value m' ss u) (\<lambda>x. Inr (JDict (dset
          (dset d (seg_key s) (JList (replace_if (named_item nm) m' items))) (seg_key s)
          (JList (replace_if (named_item nm) x (replace_if (named_item nm) m' items))))))"
      unfolding sel(7)
      by (rule set_object_value_sel [OF sel(1) _ sel(4) filter_replace_same [OF sel(5) named']]) simp
    then show ?thesis
      using replace_back [OF sel(5) named'] sel undo by (simp add: dset_idem)
  qed
qed simp

subsection \<open>Writes at independent paths\<close>

fun independent :: "segment list \<Rightarrow> segment list \<Rightarrow> bool" where
  "independent (s # ss) (t # ts) \<longleftrightarrow>
     seg_key s \<noteq> seg_key t \<or>
     (case (selected_name s, selected_name t) of
        (None, None) \<Rightarrow> independent ss ts
      | (Some a, Some b) \<Rightarrow> a \<noteq> b \<or> independent ss ts
      | _ \<Rightarrow> False)"
| "independent _ _ \<longleftrightarrow> False"

lemma independent_ne: "independent p q \<Longrightarrow> p \<noteq> [] \<and> q \<noteq> []"
  by (cases p; cases q) auto

lemma independent_sym: "independent p q \<Longrightarrow> independent q p"
  by (induction p q rule: independent.induct) (auto split: option.splits)

definition scalar_value :: "json \<Rightarrow> bool" where
  \<comment> \<open>\<^verbatim>\<open>value is None or isinstance(value, str | int | float | bool)\<close>\<close>
  "scalar_value v = (case v of JList _ \<Rightarrow> False | JDict _ \<Rightarrow> False | _ \<Rightarrow> True)"

lemma scalar_value_simps [simp]:
  "\<not> scalar_value (JDict d)" "\<not> scalar_value (JList xs)" "scalar_value JNull"
  "scalar_value (JBool b)" "scalar_value (JInt i)" "scalar_value (JFloat f r)" "scalar_value (JStr t)"
  by (simp_all add: scalar_value_def)

lemma object_value_at_scalar:
  "scalar_value cur \<Longrightarrow> object_value_at cur (s # ss) = Inl scalar_target_missing"
  by (cases cur) auto

lemma object_value_at_list: "object_value_at (JList xs) ss = Inr u \<Longrightarrow> scalar_value u \<Longrightarrow> False"
  by (cases ss) auto

lemma scalar_paths_independent:
  assumes "object_value_at cur p = Inr u" "object_value_at cur q = Inr w"
    and "scalar_value u" "scalar_value w" "p \<noteq> q"
  shows "independent p q"
  using assms
proof (induction p arbitrary: cur q)
  case Nil
  then show ?case by (cases q) (auto simp del: object_value_at.simps(2) simp: object_value_at_scalar)
next
  case (Cons s ss)
  show ?case
  proof (cases q)
    case Nil
    with Cons.prems show ?thesis
      by (auto simp del: object_value_at.simps(2) simp: object_value_at_scalar)
  next
    case q: (Cons t ts)
    have IH: "independent ss ts"
      if "object_value_at v ss = Inr u" "object_value_at v ts = Inr w" "ss \<noteq> ts" for v
      using Cons.IH [OF that(1,2) Cons.prems(3,4) that(3)] .
    from Cons.prems(1) show ?thesis
    proof (cases rule: object_value_at_ConsE)
      case (key d v)
      from Cons.prems(2) [unfolded q] show ?thesis
      proof (cases rule: object_value_at_ConsE)
        case key2: (key d' v')
        then show ?thesis using key IH [of v] Cons.prems(5) by (auto simp: q)
      next
        case sel2: (sel d' items' nm' m')
        then show ?thesis
          using key object_value_at_list [OF _ Cons.prems(3)] by (auto simp: q)
      qed
    next
      case (sel d items nm m)
      from Cons.prems(2) [unfolded q] show ?thesis
      proof (cases rule: object_value_at_ConsE)
        case key2: (key d' v')
        then show ?thesis
          using sel object_value_at_list [OF _ Cons.prems(4)] by (auto simp: q)
      next
        case sel2: (sel d' items' nm' m')
        then show ?thesis using sel IH [of m] Cons.prems(5) by (auto simp: q)
      qed
    qed
  qed
qed

lemma object_value_at_set_other:
  assumes "set_object_value cur p v = Inr r" and "independent p q" and "name_safe p"
  shows "object_value_at r q = object_value_at cur q"
  using assms
proof (induction p arbitrary: cur r q)
  case (Cons s ss)
  from Cons.prems(2) obtain t ts where q: "q = t # ts" by (cases q) auto
  from Cons.prems(1) show ?case
  proof (cases rule: set_object_value_ConsE)
    case (final d)
    with Cons.prems(2) show ?thesis by (auto simp: q split: option.splits)
  next
    case (key d c c')
    with Cons.prems(2) Cons.IH [OF key(5) _ name_safe_tl [OF Cons.prems(3)]]
    show ?thesis by (auto simp: q split: option.splits)
  next
    case (sel d items nm m m')
    have named: "named_item nm m" using filter_single_prop [OF sel(5)] by simp
    then have named': "named_item nm m'"
      using named_item_set [OF sel(6) _ Cons.prems(3) sel(4)] by blast
    have same: "filter (named_item nm) (replace_if (named_item nm) m' items) = [m']"
      by (rule filter_replace_same [OF sel(5) named'])
    have other: "filter (named_item b) (replace_if (named_item nm) m' items) = filter (named_item b) items"
      if "b \<noteq> nm" for b
      using that named' by (intro filter_replace_other) (auto dest: named_item_unique)
    note IH = Cons.IH [OF sel(6) _ name_safe_tl [OF Cons.prems(3)], of ts]
    show ?thesis
    proof (cases "seg_key t = seg_key s")
      case True
      with Cons.prems(2) sel(4) obtain b where b: "selected_name t = Some b"
        by (auto simp: q split: option.splits)
      show ?thesis
        using True sel b same other [of b] IH Cons.prems(2) by (cases "b = nm") (auto simp: q)
    qed (use sel in \<open>simp add: q\<close>)
  qed
qed simp

lemma set_object_value_shape:
  assumes "set_object_value (JDict d) (t # ts) w = Inr r"
  obtains y where "r = JDict (dset d (seg_key t) y)"
    and "\<And>d'. map_of d' (seg_key t) = map_of d (seg_key t) \<Longrightarrow>
      set_object_value (JDict d') (t # ts) w = Inr (JDict (dset d' (seg_key t) y))"
  using assms
proof (cases rule: set_object_value_ConsE)
  case (final d')
  then show ?thesis using that [of w] by simp
next
  case (key d' c c')
  then show ?thesis using that [of c'] by (simp add: set_object_value_key)
next
  case (sel d' items nm m m')
  then show ?thesis
    using that [of "JList (replace_if (named_item nm) m' items)"] by (simp add: set_object_value_sel)
qed

declare object_value_at.simps(2) [simp del] set_object_value.simps(3) [simp del]

lemma commute_distinct_items:
  assumes m: "filter (named_item a) items = [m]" "set_object_value m ss v = Inr m1" "named_item a m1"
    and n: "filter (named_item b) items = [n]" "set_object_value n ts w = Inr n1" "named_item b n1"
    and "a \<noteq> b" "ss \<noteq> []" "ts \<noteq> []"
    and s: "selected_name s = Some a" and t: "selected_name t = Some b" "seg_key t = seg_key s"
  defines "k \<equiv> seg_key s"
  shows "\<exists>z. set_object_value (JDict (dset d k (JList (replace_if (named_item a) m1 items)))) (t # ts) w
        = Inr z \<and>
      set_object_value (JDict (dset d k (JList (replace_if (named_item b) n1 items)))) (s # ss) v
        = Inr z"
proof -
  have ra: "filter (named_item b) (replace_if (named_item a) m1 items) = [n]"
    using filter_replace_other [of items "named_item a" "named_item b" m1] assms
    by (auto dest: named_item_unique)
  have rb: "filter (named_item a) (replace_if (named_item b) n1 items) = [m]"
    using filter_replace_other [of items "named_item b" "named_item a" n1] assms
    by (auto dest: named_item_unique)
  have rc: "replace_if (named_item b) n1 (replace_if (named_item a) m1 items) =
      replace_if (named_item a) m1 (replace_if (named_item b) n1 items)"
    using assms by (intro replace_commute) (auto dest: named_item_unique)
  have key: "map_of (dset d k x) (seg_key t) = Some x" "map_of (dset d k x) (seg_key s) = Some x" for x
    by (simp_all add: k_def t)
  show ?thesis
    using set_object_value_sel [OF \<open>ts \<noteq> []\<close> key(1) t(1) ra, of w] n(2)
      set_object_value_sel [OF \<open>ss \<noteq> []\<close> key(2) s rb, of v] m(2) rc
    by (simp add: k_def t del: map_map map_eq_conv)
qed

lemma commute_same_item:
  assumes m: "filter (named_item a) items = [m]" "named_item a m1" "named_item a n1"
    and z: "set_object_value m1 ts w = Inr z" "set_object_value n1 ss v = Inr z"
    and "ss \<noteq> []" "ts \<noteq> []"
    and s: "selected_name s = Some a" and t: "selected_name t = Some a" "seg_key t = seg_key s"
  defines "k \<equiv> seg_key s"
  shows "\<exists>z. set_object_value (JDict (dset d k (JList (replace_if (named_item a) m1 items)))) (t # ts) w
        = Inr z \<and>
      set_object_value (JDict (dset d k (JList (replace_if (named_item a) n1 items)))) (s # ss) v
        = Inr z"
proof -
  note ra = filter_replace_same [OF m(1,2)] and rb = filter_replace_same [OF m(1,3)]
  have rc: "replace_if (named_item a) z (replace_if (named_item a) m1 items) =
      replace_if (named_item a) z (replace_if (named_item a) n1 items)"
    using m by auto
  have key: "map_of (dset d k x) (seg_key t) = Some x" "map_of (dset d k x) (seg_key s) = Some x" for x
    by (simp_all add: k_def t)
  show ?thesis
    using set_object_value_sel [OF \<open>ts \<noteq> []\<close> key(1) t(1) ra, of w]
      set_object_value_sel [OF \<open>ss \<noteq> []\<close> key(2) s rb, of v] z rc
    by (simp add: k_def t del: map_map map_eq_conv)
qed

lemma commute_distinct_keys:
  assumes "set_object_value (JDict d) (s # ss) v = Inr r" "set_object_value (JDict d) (t # ts) w = Inr r'"
    and "seg_key s \<noteq> seg_key t" "map_of d (seg_key s) = Some a" "map_of d (seg_key t) = Some b"
  shows "\<exists>z. set_object_value r (t # ts) w = Inr z \<and> set_object_value r' (s # ss) v = Inr z"
proof -
  obtain x where x: "r = JDict (dset d (seg_key s) x)"
    "\<And>d'. map_of d' (seg_key s) = map_of d (seg_key s) \<Longrightarrow>
      set_object_value (JDict d') (s # ss) v = Inr (JDict (dset d' (seg_key s) x))"
    using assms(1) by (rule set_object_value_shape) blast
  obtain y where y: "r' = JDict (dset d (seg_key t) y)"
    "\<And>d'. map_of d' (seg_key t) = map_of d (seg_key t) \<Longrightarrow>
      set_object_value (JDict d') (t # ts) w = Inr (JDict (dset d' (seg_key t) y))"
    using assms(2) by (rule set_object_value_shape) blast
  show ?thesis using assms(3) dset_commute [OF assms(3-5), of x y] by (simp add: x y)
qed

lemma set_object_value_commute:
  assumes "set_object_value cur p v = Inr r" "set_object_value cur q w = Inr r'"
    and "independent p q" "name_safe p" "name_safe q"
    and "object_value_at cur p = Inr u" "object_value_at cur q = Inr u'"
  shows "\<exists>z. set_object_value r q w = Inr z \<and> set_object_value r' p v = Inr z"
  using assms
proof (induction p arbitrary: cur r r' q)
  case (Cons s ss)
  from Cons.prems(3) obtain t ts where q: "q = t # ts" by (cases q) auto
  note p7 = Cons.prems(7) [unfolded q]
  show ?case
  proof (cases "seg_key s = seg_key t")
    case False
    with Cons.prems p7 show ?thesis unfolding q
      by (elim object_value_at_ConsE) (auto intro: commute_distinct_keys)
  next
    case same: True
    note tails = name_safe_tl [OF Cons.prems(4)] name_safe_tl [OF Cons.prems(5) [unfolded q]]
    from Cons.prems(1) show ?thesis
    proof (cases rule: set_object_value_ConsE)
      case (final d')
      with Cons.prems(3) same show ?thesis by (auto simp: q split: option.splits)
    next
      case key: (key d c c1)
      with Cons.prems(3) same have ind: "independent ss ts" and t: "selected_name t = None"
        by (auto simp: q split: option.splits)
      from Cons.prems(2) [unfolded q] obtain c2 where
        c2: "set_object_value c ts w = Inr c2" "r' = JDict (dset d (seg_key s) c2)"
        by (rule set_object_value_ConsE) (use key same t independent_ne [OF ind] in auto)
      have "object_value_at c ss = Inr u" "object_value_at c ts = Inr u'"
        using Cons.prems(6) p7 key same t by (auto elim!: object_value_at_ConsE)
      from Cons.IH [OF key(5) c2(1) ind tails this] key c2 same t independent_ne [OF ind]
      show ?thesis by (auto simp: q set_object_value_key)
    next
      case sel: (sel d items a m m1)
      with Cons.prems(3) same obtain b where t: "selected_name t = Some b"
        by (auto simp: q split: option.splits)
      from Cons.prems(2) [unfolded q] obtain n n1 where ts: "ts \<noteq> []"
        and n: "filter (named_item b) items = [n]" "set_object_value n ts w = Inr n1"
        "r' = JDict (dset d (seg_key s) (JList (replace_if (named_item b) n1 items)))"
        by (rule set_object_value_ConsE) (use sel same t in auto)
      have nm1: "named_item a m1"
        using named_item_set [OF sel(6) _ Cons.prems(4) sel(4)] filter_single_prop [OF sel(5)] by auto
      have nn1: "named_item b n1"
        using named_item_set [OF n(2) _ Cons.prems(5) [unfolded q] t] filter_single_prop [OF n(1)]
        by auto
      show ?thesis
      proof (cases "a = b")
        case False
        show ?thesis unfolding q sel(7) n(3) using same
          by (intro commute_distinct_items [OF sel(5,6) nm1 n(1,2) nn1 False sel(1) ts sel(4) t]) simp
      next
        case True
        have mn: "n = m" using n(1) sel(5) True by simp
        have ind: "independent ss ts" using Cons.prems(3) same True t sel(4) by (auto simp: q)
        have "object_value_at m ss = Inr u" "object_value_at m ts = Inr u'"
          using Cons.prems(6) p7 sel same t True by (auto elim!: object_value_at_ConsE)
        from Cons.IH [OF sel(6) n(2) [unfolded mn] ind tails this] obtain z where
          z: "set_object_value m1 ts w = Inr z" "set_object_value n1 ss v = Inr z" by blast
        show ?thesis unfolding q sel(7) n(3) True [symmetric] using same t True
          by (intro commute_same_item [OF sel(5) nm1 nn1 [folded True] z sel(1) ts sel(4)]) simp_all
      qed
    qed
  qed
qed simp

subsection \<open>Printing and parsing paths\<close>

definition render_segment :: "segment \<Rightarrow> string" where
  "render_segment s =
     seg_key s @ (case selected_name s of None \<Rightarrow> [] | Some nm \<Rightarrow> ''[name='' @ nm @ '']'')"

definition render_path :: "segment list \<Rightarrow> string" where
  "render_path ss = py_join ''.'' (map render_segment ss)"

definition valid_segment :: "segment \<Rightarrow> bool" where
  "valid_segment s \<longleftrightarrow> seg_key s \<noteq> [] \<and> list_all key_char (seg_key s) \<and>
     (case selected_name s of
        None \<Rightarrow> True
      | Some nm \<Rightarrow> py_strip nm \<noteq> [] \<and> CHR ''['' \<notin> set nm \<and> CHR '']'' \<notin> set nm)"

lemma key_char_special [simp]:
  "\<not> key_char CHR ''[''" "\<not> key_char CHR '']''" "\<not> key_char CHR ''.''"
  by (simp_all add: key_char_def is_alnum_def is_digit_def chr_in_def)

lemma parts_loop_plain:
  assumes "CHR ''['' \<notin> set w" "CHR '']'' \<notin> set w" "CHR ''.'' \<notin> set w \<or> depth \<noteq> 0"
  shows "field_path_parts_loop (w @ rest) cur depth parts
    = field_path_parts_loop rest (cur @ w) depth parts"
  using assms by (induction w arbitrary: cur) auto

lemma key_chars_plain:
  "list_all key_char k \<Longrightarrow> CHR ''['' \<notin> set k \<and> CHR '']'' \<notin> set k \<and> CHR ''.'' \<notin> set k"
  by (auto simp: list_all_iff)

lemma parts_loop_segment:
  assumes "valid_segment s"
  shows "field_path_parts_loop (render_segment s @ rest) cur 0 parts
    = field_path_parts_loop rest (cur @ render_segment s) 0 parts"
proof -
  have k: "CHR ''['' \<notin> set (seg_key s)" "CHR '']'' \<notin> set (seg_key s)" "CHR ''.'' \<notin> set (seg_key s)"
    using assms key_chars_plain [of "seg_key s"] by (auto simp: valid_segment_def)
  show ?thesis
  proof (cases "selected_name s")
    case None
    then show ?thesis using parts_loop_plain [of "seg_key s"] k by (simp add: render_segment_def)
  next
    case (Some nm)
    then have "CHR ''['' \<notin> set (''name='' @ nm)" "CHR '']'' \<notin> set (''name='' @ nm)"
      using assms by (auto simp: valid_segment_def)
    then have "field_path_parts_loop ((''name='' @ nm) @ ('']'' @ rest)) c 1 parts
        = field_path_parts_loop ('']'' @ rest) (c @ (''name='' @ nm)) 1 parts" for c
      by (intro parts_loop_plain) auto
    from this [of "cur @ seg_key s @ ''[''"] show ?thesis
      using parts_loop_plain [of "seg_key s"] k Some by (simp add: render_segment_def)
  qed
qed

lemma parts_loop_path:
  assumes "ss \<noteq> []" "list_all valid_segment ss"
  shows "field_path_parts_loop (render_path ss) [] 0 parts = parts @ map render_segment ss"
  using assms
proof (induction ss arbitrary: parts rule: induct_list012)
  case (2 s)
  then show ?case using parts_loop_segment [of s "[]" "[]"] by (simp add: render_path_def)
next
  case (3 s t ss)
  then show ?case using parts_loop_segment [of s _ "[]"] by (simp add: render_path_def)
qed simp

lemma match_render_segment:
  assumes "valid_segment s"
  shows "match_segment (render_segment s) = Some (seg_key s, selected_name s)"
proof (cases "selected_name s")
  case None
  then have "takeWhile key_char (render_segment s) = seg_key s" "dropWhile key_char (render_segment s) = []"
    using assms
    by (auto simp: render_segment_def valid_segment_def list_all_iff takeWhile_eq_all_conv
        dropWhile_eq_Nil_conv)
  with None assms show ?thesis by (simp add: match_segment_def valid_segment_def)
next
  case (Some nm)
  then have "takeWhile key_char (render_segment s) = seg_key s"
    and "dropWhile key_char (render_segment s) = ''[name='' @ nm @ '']''"
    using assms by (simp_all add: render_segment_def valid_segment_def list_all_iff takeWhile_append2)
  moreover have "nm \<noteq> []" using assms Some by (auto simp: valid_segment_def)
  ultimately show ?thesis using assms Some
    by (simp add: match_segment_def valid_segment_def butlast_append)
qed

lemma segments_loop_render:
  assumes "list_all valid_segment ss"
  shows "field_path_segments_loop (map render_segment ss) acc = acc @ ss"
  using assms
proof (induction ss arbitrary: acc)
  case (Cons s ss)
  then show ?case by (auto simp: match_render_segment valid_segment_def)
qed simp

lemma field_path_segments_render:
  "ss \<noteq> [] \<Longrightarrow> list_all valid_segment ss \<Longrightarrow> field_path_segments (render_path ss) = ss"
  by (simp add: field_path_segments_def field_path_parts_def parts_loop_path segments_loop_render)

lemma py_join_snoc: "py_join sep (ws @ [a, b]) = py_join sep (ws @ [a @ sep @ b])"
proof (induction ws)
  case (Cons w ws)
  then show ?case by (cases ws) simp_all
qed simp

lemma parts_loop_join:
  assumes "field_path_parts_loop v cur depth parts = ps" "ps \<noteq> []"
  shows "py_join ''.'' ps = py_join ''.'' (parts @ [cur @ v])"
  using assms
proof (induction v cur depth parts rule: field_path_parts_loop.induct)
  case (2 c cs cur depth parts)
  then show ?case by (auto simp: py_join_snoc split: if_splits)
qed (auto split: if_splits)

lemma match_segment_render:
  assumes "match_segment raw = Some (k, nm)"
  shows "render_segment \<lparr>seg_key = k, selected_name = nm\<rparr> = raw"
proof -
  have "raw = takeWhile key_char raw @ dropWhile key_char raw" by simp
  then show ?thesis using assms
    by (auto simp: match_segment_def render_segment_def Let_def split: if_splits)
qed

lemma segments_loop_parse:
  "field_path_segments_loop raws acc = ss \<Longrightarrow> ss \<noteq> [] \<Longrightarrow>
    map render_segment ss = map render_segment acc @ raws"
proof (induction raws arbitrary: acc)
  case (Cons raw raws)
  then show ?case by (fastforce simp: match_segment_render split: option.splits if_splits)
qed auto

lemma render_field_path_segments:
  assumes "field_path_segments v \<noteq> []"
  shows "render_path (field_path_segments v) = v"
proof -
  have ps: "map render_segment (field_path_segments v) = field_path_parts v"
    using segments_loop_parse [OF refl] assms by (simp add: field_path_segments_def)
  with assms have "field_path_parts v \<noteq> []" by auto
  then have "py_join ''.'' (field_path_parts v) = v"
    using parts_loop_join [OF refl, of v "[]" 0 "[]"] by (simp add: field_path_parts_def)
  with ps show ?thesis by (simp add: render_path_def)
qed

lemma field_path_segments_inj:
  "field_path_segments v = field_path_segments w \<Longrightarrow> field_path_segments v \<noteq> [] \<Longrightarrow> v = w"
  by (metis render_field_path_segments)

text \<open>
  C11. Field paths print and parse without loss: a non-empty path of well-formed segments is read back
  from its text, and every text that parses is the text of its segments, so two different texts never
  denote the same path.
\<close>

theorem field_path_roundtrip:
  "(ss \<noteq> [] \<and> list_all valid_segment ss \<longrightarrow> field_path_segments (render_path ss) = ss)
   \<and> (field_path_segments v \<noteq> [] \<longrightarrow> render_path (field_path_segments v) = v)"
  using field_path_segments_render render_field_path_segments by blast

theorem field_path_roundtrip_witness:
  "render_path (field_path_segments ''spec.containers[name=a.b].image'') = ''spec.containers[name=a.b].image''"
proof -
  have "field_path_segments ''spec.containers[name=a.b].image'' \<noteq> []" by code_simp
  then show ?thesis using field_path_roundtrip by blast
qed

end
