(* ===== verification/Path_Writes.thy ===== *)
theory Path_Writes
  imports Field_Paths
begin

section \<open>Sequences of scalar writes\<close>

text \<open>
  A patch writes several scalars one after the other. This theory lifts the laws of one write to a
  list of writes: the order of the writes is irrelevant, every written scalar is read back, nothing
  else changes, and writing the old scalars back in any order restores the object. It also shows
  that reading and writing respect Python equality, which is what the sources compare with.
\<close>

definition write_all :: "(segment list \<times> json) list \<Rightarrow> json \<Rightarrow> patch_error + json" where
  "write_all ws cur = foldE (\<lambda>(p, v) c. set_object_value c p v) ws cur"

definition targets :: "json \<Rightarrow> segment list list \<Rightarrow> bool" where
  \<comment> \<open>different paths, each of which reads a scalar\<close>
  "targets cur ps \<longleftrightarrow> distinct ps \<and>
     (\<forall>p \<in> set ps. name_safe p \<and> (\<exists>u. object_value_at cur p = Inr u \<and> scalar_value u))"

text \<open>
  What a patch relies on, as a contract: fields are read and written at addresses; two addresses that
  read different scalars are independent; a write leaves independent fields alone, commutes with an
  independent write, can be undone, and is possible wherever a field is read that was once writable.
\<close>

locale scalar_fields =
  fixes safe :: "'p \<Rightarrow> bool"
    and scalar :: "'v \<Rightarrow> bool"
    and indep :: "'p \<Rightarrow> 'p \<Rightarrow> bool"
    and get :: "'s \<Rightarrow> 'p \<Rightarrow> 'e + 'v"
    and put :: "'s \<Rightarrow> 'p \<Rightarrow> 'v \<Rightarrow> 'e + 's"
  assumes scalars_apart: "get s p = Inr u \<Longrightarrow> get s q = Inr w \<Longrightarrow> scalar u \<Longrightarrow> scalar w \<Longrightarrow> p \<noteq> q \<Longrightarrow> indep p q"
    and get_other: "put s p v = Inr s' \<Longrightarrow> indep p q \<Longrightarrow> safe p \<Longrightarrow> get s' q = get s q"
    and put_again: "get s q = Inr u \<Longrightarrow> put s1 q w = Inr s2 \<Longrightarrow> \<exists>s'. put s q w = Inr s'"
    and put_commute: "put s p v = Inr r \<Longrightarrow> put s q w = Inr r' \<Longrightarrow> indep p q \<Longrightarrow> safe p \<Longrightarrow> safe q \<Longrightarrow>
      get s p = Inr u \<Longrightarrow> get s q = Inr u' \<Longrightarrow> \<exists>z. put r q w = Inr z \<and> put r' p v = Inr z"
    and put_back: "get s p = Inr u \<Longrightarrow> put s p v = Inr r \<Longrightarrow> safe p \<Longrightarrow> put r p u = Inr s"
begin

definition puts :: "('p \<times> 'v) list \<Rightarrow> 's \<Rightarrow> 'e + 's" where
  "puts ws cur = foldE (\<lambda>(p, v) c. put c p v) ws cur"

definition ready :: "'s \<Rightarrow> 'p list \<Rightarrow> bool" where
  "ready cur ps \<longleftrightarrow> distinct ps \<and> (\<forall>p \<in> set ps. safe p \<and> (\<exists>u. get cur p = Inr u \<and> scalar u))"

lemma puts_simps [simp]:
  "puts [] cur = Inr cur"
  "puts ((p, v) # ws) cur = bindE (put cur p v) (puts ws)"
  by (simp_all add: puts_def [abs_def])

lemma puts_append: "puts (xs @ ys) cur = bindE (puts xs cur) (puts ys)"
  by (simp add: puts_def [abs_def] foldE_append)

lemma ready_independent:
  "ready cur ps \<Longrightarrow> p \<in> set ps \<Longrightarrow> q \<in> set ps \<Longrightarrow> p \<noteq> q \<Longrightarrow> indep p q"
  unfolding ready_def by (blast intro: scalars_apart)

lemma ready_step:
  assumes "ready cur (p # ps)" and "put cur p v = Inr c"
  shows "ready c ps" and "\<And>q. q \<in> set ps \<Longrightarrow> get c q = get cur q"
proof -
  have "safe p" using assms(1) by (simp add: ready_def)
  have same: "get c q = get cur q" if "q \<in> set ps" for q
  proof (rule get_other [OF assms(2) _ \<open>safe p\<close>])
    have "p \<noteq> q" using assms(1) that by (auto simp: ready_def)
    then show "indep p q" using ready_independent [OF assms(1)] that by auto
  qed
  then show "ready c ps" using assms(1) by (simp add: ready_def)
  show "\<And>q. q \<in> set ps \<Longrightarrow> get c q = get cur q" by (rule same)
qed

lemma puts_ready:
  assumes "puts ws cur = Inr c" and "ready cur (map fst ws @ ps)"
  shows "ready c ps" and "\<And>q. q \<in> set ps \<Longrightarrow> get c q = get cur q"
proof -
  have "ready c ps \<and> (\<forall>q \<in> set ps. get c q = get cur q)"
    using assms
  proof (induction ws arbitrary: cur)
    case (Cons w ws)
    obtain p v where w: "w = (p, v)" by (cases w)
    with Cons.prems(1) obtain c1 where c1: "put cur p v = Inr c1"
      and rest: "puts ws c1 = Inr c" by auto
    have t: "ready cur (p # map fst ws @ ps)" using Cons.prems(2) w by simp
    from Cons.IH [OF rest ready_step(1) [OF t c1]] ready_step(2) [OF t c1] show ?case by auto
  qed simp
  then show "ready c ps" "\<And>q. q \<in> set ps \<Longrightarrow> get c q = get cur q" by auto
qed

lemma puts_swap:
  assumes "ready cur (p # q # ps)" and "puts ((p, v) # (q, w) # ws) cur = Inr r"
  shows "puts ((q, w) # (p, v) # ws) cur = Inr r"
proof -
  from assms(2) obtain c1 c2 where c1: "put cur p v = Inr c1"
    and c2: "put c1 q w = Inr c2" and rest: "puts ws c2 = Inr r" by auto
  from assms(1) obtain u u' where reads: "get cur p = Inr u" "get cur q = Inr u'"
    and safe: "safe p" "safe q" and ne: "p \<noteq> q" by (auto simp: ready_def)
  have ind: "indep p q" using ready_independent [OF assms(1)] ne by auto
  obtain d1 where d1: "put cur q w = Inr d1"
    using put_again [OF reads(2) c2] by blast
  from put_commute [OF c1 d1 ind safe reads] c2
  have "put d1 p v = Inr c2" by auto
  with d1 rest show ?thesis by simp
qed

lemma puts_move_last:
  assumes "ready cur (p # map fst ys)" and "puts ((p, v) # ys) cur = Inr r"
  shows "puts (ys @ [(p, v)]) cur = Inr r"
  using assms
proof (induction ys arbitrary: cur)
  case (Cons y ys)
  obtain q w where y: "y = (q, w)" by (cases y)
  with Cons.prems have t: "ready cur (p # q # map fst ys)" by simp
  have "puts ((q, w) # (p, v) # ys) cur = Inr r"
    using puts_swap [OF t] Cons.prems(2) y by simp
  then obtain c where c: "put cur q w = Inr c" "puts ((p, v) # ys) c = Inr r" by auto
  have "ready cur (q # p # map fst ys)" using t by (auto simp: ready_def)
  from Cons.IH [OF ready_step(1) [OF this c(1)] c(2)] c(1) y show ?case by simp
qed simp

lemma puts_undo_one:
  assumes "ready cur (map fst ws)" and "puts ws cur = Inr r"
    and "(p, v) \<in> set ws" and "get cur p = Inr u"
  shows "\<exists>r'. put r p u = Inr r' \<and> puts (filter (\<lambda>x. fst x \<noteq> p) ws) cur = Inr r'"
proof -
  from assms(3) obtain xs ys where ws: "ws = xs @ (p, v) # ys" by (meson split_list)
  with assms(1) have "filter (\<lambda>x. fst x \<noteq> p) ws = xs @ ys"
    by (auto simp: ready_def filter_id_conv intro!: arg_cong2 [where f = "(@)"])
  from assms(2) ws obtain c where c: "puts xs cur = Inr c" "puts ((p, v) # ys) c = Inr r"
    by (auto simp: puts_append)
  have t: "ready c (p # map fst ys)"
    and read: "get c p = Inr u"
    using puts_ready [OF c(1), of "p # map fst ys"] assms(1,4) ws by auto
  from puts_move_last [OF t c(2)] obtain c2 where c2: "puts ys c = Inr c2"
    and last: "put c2 p v = Inr r" by (auto simp: puts_append)
  have "ready c (map fst ys @ [p])" using t by (auto simp: ready_def)
  then have "get c2 p = Inr u" using puts_ready(2) [OF c2, of "[p]"] read by simp
  moreover have "safe p" using t by (simp add: ready_def)
  ultimately have "put r p u = Inr c2" using put_back [OF _ last] by blast
  with c2 c(1) \<open>filter _ ws = xs @ ys\<close> show ?thesis by (auto simp: puts_append)
qed

lemma puts_undo:
  assumes "ready cur (map fst ws)" and "puts ws cur = Inr r"
    and "distinct (map fst rs)" and "fst ` set rs = fst ` set ws"
    and "\<And>p u. (p, u) \<in> set rs \<Longrightarrow> get cur p = Inr u"
  shows "puts rs r = Inr cur"
  using assms
proof (induction rs arbitrary: ws r)
  case Nil
  then show ?case by simp
next
  case (Cons x rs)
  obtain p u where x: "x = (p, u)" by (cases x)
  have "p \<in> fst ` set ws" using Cons.prems(4) x by (metis fst_conv image_eqI list.set_intros(1))
  then obtain v where "(p, v) \<in> set ws" by auto
  moreover have "get cur p = Inr u" by (rule Cons.prems(5)) (simp add: x)
  ultimately obtain r' where
    r': "put r p u = Inr r'" "puts (filter (\<lambda>x. fst x \<noteq> p) ws) cur = Inr r'"
    using puts_undo_one [OF Cons.prems(1,2)] by blast
  have t: "ready cur (map fst (filter (\<lambda>x. fst x \<noteq> p) ws))"
    using Cons.prems(1) by (auto simp: ready_def distinct_map_filter)
  have "fst ` set rs = fst ` set (filter (\<lambda>x. fst x \<noteq> p) ws)"
  proof -
    have "fst ` set ws = insert p (fst ` set rs)" using Cons.prems(4) x by simp
    moreover have "p \<notin> fst ` set rs" using Cons.prems(3) x by simp
    moreover have "fst ` set (filter (\<lambda>x. fst x \<noteq> p) ws) = fst ` set ws - {p}" by auto
    ultimately show ?thesis by simp
  qed
  from Cons.IH [OF t r'(2) _ this] Cons.prems(3,5) r'(1) x show ?case by auto
qed

end

lemma write_all_simps [simp]:
  "write_all [] cur = Inr cur"
  "write_all ((p, v) # ws) cur = bindE (set_object_value cur p v) (write_all ws)"
  by (simp_all add: write_all_def [abs_def])

lemma set_object_value_last:
  "set_object_value cur p v = Inr r \<Longrightarrow> p \<noteq> [] \<and> selected_name (last p) = None"
proof (induction p arbitrary: cur r)
  case (Cons s ss)
  from Cons.prems show ?case
    by (cases rule: set_object_value_ConsE) (use Cons.IH in auto)
qed simp

interpretation json_fields: scalar_fields name_safe scalar_value independent object_value_at set_object_value
proof (unfold_locales, goal_cases)
  case (1 s p u q w)
  then show ?case by (rule scalar_paths_independent)
next
  case (2 s p v s' q)
  then show ?case by (rule object_value_at_set_other)
next
  case (3 s q u s1 w s2)
  then show ?case using set_object_value_defined set_object_value_last by blast
next
  case (4 s p v r q w r' u u')
  then show ?case by (rule set_object_value_commute)
next
  case (5 s p u v r)
  then show ?case by (rule set_object_value_back)
qed

lemma write_all_fields: "write_all = json_fields.puts"
  by (simp add: fun_eq_iff write_all_def json_fields.puts_def)

lemma targets_fields: "targets = json_fields.ready"
  by (simp add: fun_eq_iff targets_def json_fields.ready_def)

lemmas targets_step = json_fields.ready_step [folded targets_fields]

lemmas write_all_targets = json_fields.puts_ready [folded write_all_fields targets_fields]

lemmas write_all_undo = json_fields.puts_undo [folded write_all_fields targets_fields]

subsection \<open>Reading and writing respect Python equality\<close>

lemma wf_lookup: "json_wf (JDict d) \<Longrightarrow> map_of d k = Some v \<Longrightarrow> json_wf v"
  by (auto simp: list_all_iff dest!: map_of_SomeD)

lemma wf_item: "json_wf (JList xs) \<Longrightarrow> x \<in> set xs \<Longrightarrow> json_wf x"
  by (auto simp: list_all_iff)

lemma wf_dset:
  assumes "json_wf (JDict d)" and "json_wf v"
  shows "json_wf (JDict (dset d k v))"
proof -
  have "json_wf x" if "(k', x) \<in> set (dset d k v)" for k' x
  proof -
    have "map_of (dset d k v) k' = Some x"
      using assms(1) that by (intro map_of_is_SomeI distinct_dset) auto
    then show ?thesis using assms wf_lookup [OF assms(1), of k' x] by (auto split: if_splits)
  qed
  then show ?thesis using assms(1) by (auto simp: list_all_iff distinct_dset)
qed

lemma set_object_value_wf:
  "set_object_value cur p v = Inr r \<Longrightarrow> json_wf cur \<Longrightarrow> json_wf v \<Longrightarrow> json_wf r"
proof (induction p arbitrary: cur r)
  case (Cons s ss)
  from Cons.prems(1) show ?case
  proof (cases rule: set_object_value_ConsE)
    case (final d)
    with Cons.prems show ?thesis by (metis wf_dset)
  next
    case (key d c c')
    with Cons show ?thesis by (metis wf_dset wf_lookup)
  next
    case (sel d items nm m m')
    have items: "json_wf (JList items)" using sel Cons.prems by (metis wf_lookup)
    have "json_wf m'" using Cons.IH [OF sel(6)] filter_single_prop [OF sel(5)] Cons.prems(3)
      wf_item [OF items] by blast
    with items have "json_wf (JList (replace_if (named_item nm) m' items))"
      by (auto simp: list_all_iff)
    with sel Cons.prems show ?thesis by (metis wf_dset)
  qed
qed simp

lemma lookup_py_eq:
  "py_eq (JDict d) (JDict e) \<Longrightarrow> map_of d k = Some v \<Longrightarrow> \<exists>w. map_of e k = Some w \<and> py_eq v w"
  by (auto simp: py_eq_dict dest: map_of_SomeD)

lemma lookup_py_eq_None:
  assumes "py_eq (JDict d) (JDict e)" "json_wf (JDict d)" "json_wf (JDict e)" "map_of d k = None"
  shows "map_of e k = None"
proof (rule ccontr)
  assume "map_of e k \<noteq> None"
  then show False
    using lookup_py_eq [OF py_eq_sym [OF assms(1-3)]] assms(4) by fastforce
qed

lemma named_item_py_eq:
  assumes "py_eq x y" "json_wf x" "json_wf y"
  shows "named_item nm x \<longleftrightarrow> named_item nm y"
proof -
  have half: "named_item nm b" if "named_item nm a" and eq: "py_eq a b" for a b
  proof -
    from that obtain d where a: "a = JDict d" "map_of d ''name'' = Some (JStr nm)"
      by (auto simp: named_item_iff dget_def split: option.splits)
    with py_eq_dict_left eq obtain e where b: "b = JDict e" by blast
    with lookup_py_eq [of d e] a eq have "map_of e ''name'' = Some (JStr nm)" by fastforce
    with b show ?thesis by (simp add: named_item_iff dget_def)
  qed
  then show ?thesis using assms py_eq_sym by blast
qed

lemma filter_py_eq:
  assumes "list_all2 py_eq xs ys" "json_wf (JList xs)" "json_wf (JList ys)"
  shows "list_all2 py_eq (filter (named_item nm) xs) (filter (named_item nm) ys)"
  using assms by (induction rule: list_all2_induct) (auto simp: named_item_py_eq)

lemma replace_py_eq:
  assumes "list_all2 py_eq xs ys" "json_wf (JList xs)" "json_wf (JList ys)" "py_eq m n"
  shows "list_all2 py_eq (replace_if (named_item nm) m xs) (replace_if (named_item nm) n ys)"
  using assms by (induction rule: list_all2_induct) (auto simp: named_item_py_eq)

lemma length_dset_new: "map_of d k = None \<Longrightarrow> length (dset d k v) = Suc (length d)"
  by (induction d k v rule: dset.induct) (simp_all split: if_splits)

lemma dset_py_eq:
  assumes eq: "py_eq (JDict d) (JDict e)" "py_eq x y" and wf: "json_wf (JDict d)" "json_wf (JDict e)"
  shows "py_eq (JDict (dset d k x)) (JDict (dset e k y))"
proof -
  have "length (dset d k x) = length (dset e k y)"
  proof (cases "map_of d k")
    case None
    then show ?thesis using lookup_py_eq_None [OF eq(1) wf] eq(1)
      by (simp add: length_dset_new py_eq_dict)
  next
    case (Some v)
    then obtain w where "map_of e k = Some w" using lookup_py_eq [OF eq(1)] by blast
    with Some show ?thesis using eq(1) by (simp add: length_dset py_eq_dict)
  qed
  moreover have "\<exists>w. map_of (dset e k y) k' = Some w \<and> py_eq v w"
    if "(k', v) \<in> set (dset d k x)" for k' v
  proof -
    have "map_of (dset d k x) k' = Some v"
      using wf(1) that by (intro map_of_is_SomeI distinct_dset) auto
    then show ?thesis using eq lookup_py_eq [OF eq(1)] by (auto split: if_splits)
  qed
  ultimately show ?thesis by (auto simp: py_eq_dict)
qed

lemma set_object_value_py_eq:
  assumes "set_object_value a p v = Inr r" "py_eq a b" "py_eq v w" "json_wf a" "json_wf b"
  shows "\<exists>r'. set_object_value b p w = Inr r' \<and> py_eq r r'"
  using assms
proof (induction p arbitrary: a b r)
  case (Cons s ss)
  from Cons.prems(1) obtain d where a: "a = JDict d" by (auto elim: set_object_value_ConsE)
  with Cons.prems(2) py_eq_dict_left obtain e where b: "b = JDict e" by blast
  note eq = Cons.prems(2) [unfolded a b] and wf = Cons.prems(4,5) [unfolded a b]
  from Cons.prems(1) show ?case
  proof (cases rule: set_object_value_ConsE)
    case (final d')
    then show ?thesis using a b dset_py_eq [OF eq Cons.prems(3) wf] by simp
  next
    case (key d' c c')
    with a obtain c2 where c2: "map_of e (seg_key s) = Some c2" "py_eq c c2"
      using lookup_py_eq [OF eq] by auto
    from Cons.IH [OF key(5) c2(2) Cons.prems(3)] wf_lookup [OF wf(1)] wf_lookup [OF wf(2) c2(1)] key a
    obtain r' where "set_object_value c2 ss w = Inr r'" "py_eq c' r'" by auto
    then show ?thesis using key a b c2 dset_py_eq [OF eq _ wf]
      by (auto simp: set_object_value_key)
  next
    case (sel d' items nm m m')
    with a obtain jt where jt: "map_of e (seg_key s) = Some jt" "py_eq (JList items) jt"
      using lookup_py_eq [OF eq] by auto
    then obtain items2 where i2: "jt = JList items2" "list_all2 py_eq items items2"
      by (auto simp: py_eq_list_left)
    have wfi: "json_wf (JList items)" "json_wf (JList items2)"
      using wf_lookup [OF wf(1), of "seg_key s" "JList items"] wf_lookup [OF wf(2) jt(1)] sel a i2
      by simp_all
    from filter_py_eq [OF i2(2) wfi, of nm] sel(5) obtain n where
      n: "filter (named_item nm) items2 = [n]" "py_eq m n" by (auto simp: list_all2_Cons1)
    have wfm: "json_wf m" "json_wf n"
      using wf_item [OF wfi(1)] wf_item [OF wfi(2)] filter_single_prop [OF sel(5)]
        filter_single_prop [OF n(1)] by auto
    from Cons.IH [OF sel(6) n(2) Cons.prems(3) wfm] obtain n' where
      n': "set_object_value n ss w = Inr n'" "py_eq m' n'" by blast
    have "py_eq (JList (replace_if (named_item nm) m' items)) (JList (replace_if (named_item nm) n' items2))"
      using replace_py_eq [OF i2(2) wfi n'(2)] by simp
    from dset_py_eq [OF eq this wf] sel a b n' n jt i2 show ?thesis
      by (auto simp: set_object_value_sel)
  qed
qed simp

lemma write_all_py_eq:
  assumes "write_all ws a = Inr r" "py_eq a b" "json_wf a" "json_wf b"
    and "list_all2 (\<lambda>(p, v) (q, w). p = q \<and> py_eq v w \<and> json_wf v \<and> json_wf w) ws vs"
  shows "\<exists>r'. write_all vs b = Inr r' \<and> py_eq r r'"
  using assms(5,1-4)
proof (induction ws vs arbitrary: a b rule: list_all2_induct)
  case (Cons x ws y vs)
  obtain p v w where x: "x = (p, v)" and y: "y = (p, w)" and vw: "py_eq v w" "json_wf v" "json_wf w"
    using Cons.hyps(1) by (cases x; cases y) auto
  from Cons.prems(1) x obtain c where c: "set_object_value a p v = Inr c" "write_all ws c = Inr r"
    by auto
  from set_object_value_py_eq [OF c(1) Cons.prems(2) vw(1) Cons.prems(3,4)] obtain c' where
    c': "set_object_value b p w = Inr c'" "py_eq c c'" by blast
  from Cons.IH [OF c(2) c'(2)] set_object_value_wf [OF c(1) Cons.prems(3) vw(2)]
    set_object_value_wf [OF c'(1) Cons.prems(4) vw(3)] c'(1) y
  show ?case by auto
qed simp

end
