(* ===== verification/Text_Splice.thy ===== *)
theory Text_Splice
  imports Clue_Prelude
begin

section \<open>Replacing spans of a text\<close>

text \<open>
  The end of the three \<^verbatim>\<open>materialize\<close> functions of \<^verbatim>\<open>src/src/domains/gitops/source_patch.py\<close>: the
  collected spans are sorted in descending order and each is cut out of the text and replaced. The
  lemmas relate that loop to a reading of the text from left to right, in which everything outside
  the spans is copied unchanged, and show that applying the inverse spans restores the text.
\<close>

type_synonym span = "nat \<times> nat \<times> string"

definition splice :: "string \<Rightarrow> span \<Rightarrow> string" where
  \<comment> \<open>\<^verbatim>\<open>patched[:start] + encoded + patched[end:]\<close>\<close>
  "splice patched sp = (case sp of (start, end, encoded) \<Rightarrow> take start patched @ encoded @ drop end patched)"

definition span_range :: "span \<Rightarrow> nat \<times> nat" where
  "span_range sp = (fst sp, fst (snd sp))"

definition apply_spans :: "string \<Rightarrow> span list \<Rightarrow> string" where
  "apply_spans source spans = foldl splice source (rev (sort spans))"

fun copy_except :: "nat \<Rightarrow> string \<Rightarrow> span list \<Rightarrow> string" where
  \<comment> \<open>the text from a position on, with the spans, in ascending order, replaced\<close>
  "copy_except pos source [] = drop pos source"
| "copy_except pos source ((start, end, encoded) # spans) =
     take (start - pos) (drop pos source) @ encoded @ copy_except end source spans"

fun in_order :: "nat \<Rightarrow> nat \<Rightarrow> span list \<Rightarrow> bool" where
  "in_order n pos [] \<longleftrightarrow> pos \<le> n"
| "in_order n pos ((start, end, _) # spans) \<longleftrightarrow> pos \<le> start \<and> start \<le> end \<and> in_order n end spans"

definition disjoint_spans :: "string \<Rightarrow> span list \<Rightarrow> bool" where
  "disjoint_spans source spans \<longleftrightarrow> in_order (length source) 0 (sort spans)"

fun inverse_spans :: "string \<Rightarrow> nat \<Rightarrow> nat \<Rightarrow> span list \<Rightarrow> span list" where
  \<comment> \<open>where the replacements end up in the patched text, with the original text of each\<close>
  "inverse_spans source pos out [] = []"
| "inverse_spans source pos out ((start, end, encoded) # spans) =
     (out + (start - pos), out + (start - pos) + length encoded, take (end - start) (drop start source))
     # inverse_spans source end (out + (start - pos) + length encoded) spans"

lemma in_order_bound: "in_order n pos spans \<Longrightarrow> pos \<le> n"
  by (induction n pos spans rule: in_order.induct) auto

lemma foldr_splice:
  "in_order (length source) pos spans \<Longrightarrow>
   foldr (\<lambda>sp p. splice p sp) spans source = take pos source @ copy_except pos source spans"
proof (induction pos source spans rule: copy_except.induct)
  case (2 pos source start "end" encoded spans)
  then have le: "pos \<le> start" "start \<le> end" "end \<le> length source"
    using in_order_bound by auto
  have "take start source = take pos source @ take (start - pos) (drop pos source)"
    using le(1) by (metis le_add_diff_inverse take_add)
  with 2 le show ?case by (simp add: splice_def min_def)
qed simp

lemma apply_spans_copy:
  "disjoint_spans source spans \<Longrightarrow> apply_spans source spans = copy_except 0 source (sort spans)"
  by (simp add: apply_spans_def disjoint_spans_def foldl_conv_foldr foldr_splice)

lemma drop_split: "a \<le> b \<Longrightarrow> drop a s = take (b - a) (drop a s) @ drop b s"
  using append_take_drop_id [of "b - a" "drop a s"] by simp

lemma count_take_drop: "a \<le> b \<Longrightarrow>
  count_list (drop a s) c = count_list (take (b - a) (drop a s)) c + count_list (drop b s) c"
  using drop_split [of a b s] by (metis count_list_append)

lemma copy_except_count:
  assumes "in_order (length source) pos spans"
    and "\<forall>(start, end, encoded) \<in> set spans.
      count_list encoded c = count_list (take (end - start) (drop start source)) c"
  shows "count_list (copy_except pos source spans) c = count_list (drop pos source) c"
  using assms
proof (induction pos source spans rule: copy_except.induct)
  case (2 pos source start "end" encoded spans)
  then have le: "pos \<le> start" "start \<le> end" "end \<le> length source"
    using in_order_bound by auto
  from 2 have "count_list (copy_except end source spans) c = count_list (drop end source) c"
    and enc: "count_list encoded c = count_list (take (end - start) (drop start source)) c" by auto
  then show ?case
    using count_take_drop [of pos start source c] count_take_drop [of start "end" source c] le by simp
qed simp

lemma copy_except_inverse:
  assumes "in_order (length source) pos spans" and "length pre = out"
  shows "copy_except out (pre @ copy_except pos source spans) (inverse_spans source pos out spans) = drop pos source
    \<and> in_order (length (pre @ copy_except pos source spans)) out (inverse_spans source pos out spans)"
  using assms
proof (induction source pos out spans arbitrary: pre rule: inverse_spans.induct)
  case (2 source pos out start "end" encoded spans)
  then have le: "pos \<le> start" "start \<le> end" "end \<le> length source"
    using in_order_bound by auto
  obtain k where k: "start = pos + k" using le(1) by (auto simp: le_iff_add)
  define gap where "gap = take k (drop pos source)"
  have len: "length gap = k" using le k by (simp add: gap_def)
  have whole: "drop pos source = gap @ take (end - start) (drop start source) @ drop end source"
    using drop_split [OF le(1), of source] drop_split [OF le(2), of source] by (simp add: gap_def k)
  have "copy_except (out + k + length encoded) (pre @ gap @ encoded @ copy_except end source spans)
      (inverse_spans source end (out + k + length encoded) spans) = drop end source
    \<and> in_order (length (pre @ gap @ encoded @ copy_except end source spans)) (out + k + length encoded)
        (inverse_spans source end (out + k + length encoded) spans)"
    using 2(1) [of "pre @ gap @ encoded"] 2(2,3) len k by simp
  then show ?case using 2(3) whole len by (simp add: k gap_def [symmetric])
qed auto

lemma inverse_spans_from: "sp \<in> set (inverse_spans source pos out spans) \<Longrightarrow> out \<le> fst sp"
  by (induction source pos out spans rule: inverse_spans.induct) fastforce+

lemma sorted_inverse_spans:
  "\<forall>(_, _, encoded) \<in> set spans. encoded \<noteq> [] \<Longrightarrow> sorted (inverse_spans source pos out spans)"
proof (induction source pos out spans rule: inverse_spans.induct)
  case (2 source pos out start "end" encoded spans)
  then obtain c cs where "encoded = c # cs" by (cases encoded) auto
  then have "\<forall>sp \<in> set (inverse_spans source end (out + (start - pos) + length encoded) spans).
      out + (start - pos) < fst sp" by (auto dest!: inverse_spans_from)
  moreover have "(a, r) \<le> sp" if "a < fst sp" for a r and sp :: span
    using that by (cases sp) simp
  ultimately show ?case using 2 by auto
qed simp

text \<open>
  Applying spans and then their inverses restores the text character by character.
\<close>

lemma apply_spans_inverse:
  assumes "disjoint_spans source spans" and "\<forall>(_, _, encoded) \<in> set spans. encoded \<noteq> []"
  shows "apply_spans (apply_spans source spans) (inverse_spans source 0 0 (sort spans)) = source"
proof -
  let ?inv = "inverse_spans source 0 0 (sort spans)"
  have "sort ?inv = ?inv" using assms(2) by (intro sorted_sort_id sorted_inverse_spans) simp
  with copy_except_inverse [of source 0 "sort spans" "[]"] assms(1)
  show ?thesis using apply_spans_copy [of "apply_spans source spans" ?inv]
    by (simp add: apply_spans_copy disjoint_spans_def)
qed

text \<open>
  Cutting the spans out of the text from right to left gives the same text as copying it once from
  left to right: for disjoint spans every character outside them is kept in place and each span is
  replaced by its encoding; applying the inverse spans restores the text character by character.
\<close>

theorem spans_copy_and_restore:
  assumes "disjoint_spans source spans" and "\<forall>(_, _, encoded) \<in> set spans. encoded \<noteq> []"
  shows "apply_spans source spans = copy_except 0 source (sort spans)
    \<and> apply_spans (apply_spans source spans) (inverse_spans source 0 0 (sort spans)) = source"
  using apply_spans_copy [OF assms(1)] apply_spans_inverse [OF assms] by blast

theorem spans_copy_and_restore_witness:
  "apply_spans ''a: 1, b: 2'' [(9, 10, ''20''), (3, 4, ''10'')] = copy_except 0 ''a: 1, b: 2'' [(3, 4, ''10''), (9, 10, ''20'')]"
proof -
  have "disjoint_spans ''a: 1, b: 2'' [(9, 10, ''20''), (3, 4, ''10'')]" by code_simp
  moreover have "sort [(9, 10, ''20''), (3, 4, ''10'')] = [(3 :: nat, 4 :: nat, ''10''), (9, 10, ''20'')]" by simp
  ultimately show ?thesis using spans_copy_and_restore [of "''a: 1, b: 2''" "[(9, 10, ''20''), (3, 4, ''10'')]"] by simp
qed

text \<open>
  A patch whose replaced texts have as many line breaks as the texts they replace leaves the number
  of lines of the source unchanged.
\<close>

theorem spans_keep_line_count:
  assumes "disjoint_spans source spans"
    and "\<forall>(start, end, encoded) \<in> set spans.
      count_list encoded CHR 0x0A = count_list (take (end - start) (drop start source)) CHR 0x0A"
  shows "count_list (apply_spans source spans) CHR 0x0A = count_list source CHR 0x0A"
  using copy_except_count [of source 0 "sort spans" "CHR 0x0A"] assms
  by (simp add: apply_spans_copy disjoint_spans_def)

theorem spans_keep_line_count_witness:
  "count_list (apply_spans ''a: 1'' [(3, 4, ''10'')]) CHR 0x0A = count_list ''a: 1'' CHR 0x0A"
  by (rule spans_keep_line_count) code_simp+

end
