(* ===== verification/Yaml_Library.thy ===== *)
theory Yaml_Library
  imports Field_Paths
begin

section \<open>The parsers and the hash the sources call\<close>

text \<open>
  PyYAML is not part of the repository: the definitions that call it take a record of its entry
  points as an argument, and nothing is assumed of them except where a theorem names it. \<open>None\<close>
  stands for the \<^verbatim>\<open>YAMLError\<close> (or \<^verbatim>\<open>JSONDecodeError\<close>) of the call. \<open>yaml_scan\<close> is a generator: the
  tokens it yields, each as whether it is an anchor or alias, and whether it then raises. The
  sources either stop at the first such token (\<open>scan_any\<close>) or exhaust it first (\<open>scan_list\<close>). The SHA-256 hex digest and the JSON reader are arguments as well,
  so that every statement holds for whatever they compute. Path splitting is that of
  \<^verbatim>\<open>pathlib.PurePosixPath\<close>.
\<close>

record text_lib =
  yaml_scan :: "string \<Rightarrow> bool list \<times> bool"
  yaml_compose_all :: "string \<Rightarrow> node list option"
  yaml_safe_load_all :: "string \<Rightarrow> json list option"
  yaml_safe_load :: "string \<Rightarrow> json option"
  yaml_safe_dump :: "json \<Rightarrow> string"
  json_loads :: "string \<Rightarrow> json option"
  sha256_hex :: "string \<Rightarrow> string"

definition scan_any :: "text_lib \<Rightarrow> string \<Rightarrow> bool option" where
  \<comment> \<open>\<^verbatim>\<open>any(isinstance(token, AnchorToken | AliasToken) for token in yaml.scan(s))\<close>\<close>
  "scan_any Y s =
     (case yaml_scan Y s of (tokens, failed) \<Rightarrow>
        if list_ex id tokens then Some True else if failed then None else Some False)"

definition scan_list :: "text_lib \<Rightarrow> string \<Rightarrow> bool option" where
  \<comment> \<open>\<^verbatim>\<open>tokens = list(yaml.scan(s))\<close>, then the same test on \<^verbatim>\<open>tokens\<close>\<close>
  "scan_list Y s =
     (case yaml_scan Y s of (tokens, failed) \<Rightarrow> if failed then None else Some (list_ex id tokens))"

definition alias_free :: "text_lib \<Rightarrow> string \<Rightarrow> bool" where
  "alias_free Y s \<longleftrightarrow> (\<exists>n. yaml_scan Y s = (replicate n False, False))"

definition posix_parts :: "string \<Rightarrow> string list" where
  \<comment> \<open>\<^verbatim>\<open>PurePosixPath(v).parts\<close>: empty and single-dot components vanish\<close>
  "posix_parts v =
     (if prefix ''/'' v then [''/''] else []) @
     filter (\<lambda>w. w \<noteq> [] \<and> w \<noteq> ''.'') (py_split CHR ''/'' v)"

fun resolve :: "string list \<Rightarrow> string list \<Rightarrow> string list option" where
  \<comment> \<open>walk the components from a directory; \<open>None\<close> when the walk leaves the root\<close>
  "resolve dir [] = Some dir"
| "resolve dir (w # ws) =
     (if w = ''..'' then (if dir = [] then None else resolve (butlast dir) ws)
      else resolve (dir @ [w]) ws)"

lemma tokens_plain: "\<not> list_ex id ts \<Longrightarrow> ts = replicate (length ts) False"
  by (induction ts) auto

lemma alias_free_iff:
  "scan_any Y s = Some False \<longleftrightarrow> alias_free Y s" "scan_list Y s = Some False \<longleftrightarrow> alias_free Y s"
  using tokens_plain
  by (auto simp: scan_any_def scan_list_def alias_free_def list_ex_iff split: prod.splits)

lemma resolve_plain: "''..'' \<notin> set ws \<Longrightarrow> resolve dir ws = Some (dir @ ws)"
  by (induction ws arbitrary: dir) auto

end
