(* ===== verification/Remediation_Source.thy ===== *)
theory Remediation_Source
  imports Yaml_Library
begin

section \<open>The repository-owned contract for remediation sources\<close>

text \<open>
  \<^verbatim>\<open>src/src/packages/contracts/remediation_source.py\<close>: the strict parser of \<^verbatim>\<open>.remediation.yaml\<close>, which
  says for every manifest which file and which fields of it a remediation may patch. Errors of the
  parser are \<open>RemediationSourceContractError\<close>; an exception of the language that escapes is
  \<open>ContractPyError\<close>.
\<close>

datatype contract_error =
    RemediationSourceContractError string
  | ContractPyError py_exn

definition REMEDIATION_SOURCE_API_VERSION :: string where
  "REMEDIATION_SOURCE_API_VERSION = ''remediation.kyro.dev/v1alpha1''"

definition REMEDIATION_SOURCE_KIND :: string where
  "REMEDIATION_SOURCE_KIND = ''RemediationSource''"

definition REMEDIATION_SOURCE_CONTRACT_PATH :: string where
  "REMEDIATION_SOURCE_CONTRACT_PATH = ''.remediation.yaml''"

definition MAX_CONTRACT_BYTES :: int where
  "MAX_CONTRACT_BYTES = 64 * 1024"

definition SOURCE_TYPES :: "string list" where
  "SOURCE_TYPES = [''raw-yaml'', ''helm-values'', ''kustomize'']"

definition PROBE_FIELD_SUFFIXES :: "string list" where
  "PROBE_FIELD_SUFFIXES =
     [''readinessProbe.httpGet.path'', ''readinessProbe.httpGet.port'',
      ''readinessProbe.timeoutSeconds'', ''livenessProbe.httpGet.path'',
      ''livenessProbe.httpGet.port'', ''livenessProbe.timeoutSeconds'']"

record source_declaration =
  rs_manifest_path :: string
  rs_source_type :: string
  rs_source_path :: string
  rs_image_path :: "string option"
  rs_image_tag_path :: "string option"
  rs_image_names :: "string list"
  rs_replica_path :: "string option"
  rs_probe_paths :: "(string \<times> string) list"

type_synonym source_contract = "source_declaration list"

definition probe_path :: "source_declaration \<Rightarrow> string \<Rightarrow> string option" where
  "probe_path source semantic_field = map_of (rev (rs_probe_paths source)) semantic_field"

definition source_for_manifest :: "source_contract \<Rightarrow> string \<Rightarrow> source_declaration option" where
  "source_for_manifest sources path =
     (case filter (\<lambda>s. rs_manifest_path s = path) sources of [s] \<Rightarrow> Some s | _ \<Rightarrow> None)"

subsection \<open>Field paths, image names and repository paths\<close>

definition contract_segment :: "string \<Rightarrow> bool" where
  \<comment> \<open>\<^verbatim>\<open>FIELD_SEGMENT_PATTERN.fullmatch\<close>\<close>
  "contract_segment raw =
     (let k = takeWhile key_char raw; rest = dropWhile key_char raw; nm = butlast (drop 6 rest)
      in k \<noteq> [] \<and>
         (rest = [] \<or>
          rest = ''[name='' @ nm @ '']'' \<and> nm \<noteq> [] \<and> CHR ''['' \<notin> set nm \<and> CHR '']'' \<notin> set nm))"

definition valid_field_path :: "string \<Rightarrow> bool" where
  "valid_field_path value \<longleftrightarrow> value \<noteq> [] \<and> list_all contract_segment (py_split CHR ''.'' value)"

definition optional_field_path :: "json \<Rightarrow> string \<Rightarrow> contract_error + string option" where
  "optional_field_path value field =
     (case value of
        JNull \<Rightarrow> Inr None
      | JStr s \<Rightarrow>
          (if valid_field_path s then Inr (Some s)
           else Inl (RemediationSourceContractError (''remediation source '' @ field @ '' is invalid'')))
      | _ \<Rightarrow> Inl (RemediationSourceContractError (''remediation source '' @ field @ '' is invalid'')))"

definition image_name_char :: "char \<Rightarrow> bool" where
  "image_name_char c \<longleftrightarrow> is_alnum c \<or> c \<in> set ''._/:+-''"

definition image_name_ok :: "string \<Rightarrow> bool" where
  \<comment> \<open>\<^verbatim>\<open>IMAGE_NAME_PATTERN.fullmatch\<close>\<close>
  "image_name_ok s \<longleftrightarrow> 2 \<le> length s \<and> is_alnum (hd s) \<and> is_alnum (last s) \<and> list_all image_name_char s"

definition repo_path_char :: "char \<Rightarrow> bool" where
  "repo_path_char c \<longleftrightarrow> is_alnum c \<or> c \<in> set ''._/-''"

definition safe_repo_path :: "json \<Rightarrow> string \<Rightarrow> contract_error + string" where
  "safe_repo_path value field =
     (case value of
        JStr v \<Rightarrow>
          (if v = [] \<or> py_strip v \<noteq> v \<or> prefix ''/'' v \<or> suffix ''/'' v \<or> prefix ''./'' v
              \<or> sublist ''//'' v \<or> CHR 0x5C \<in> set v \<or> CHR 0x00 \<in> set v
              \<or> \<not> list_all repo_path_char v
              \<or> ''..'' \<in> set (posix_parts v)
              \<or> list_ex (\<lambda>part. part = [] \<or> part = ''.'') (posix_parts v)
           then Inl (RemediationSourceContractError (''remediation source '' @ field @ '' is unsafe''))
           else Inr v)
      | _ \<Rightarrow> Inl (RemediationSourceContractError
                (''remediation source '' @ field @ '' must be text'')))"

definition parse_probe_path :: "string \<times> json \<Rightarrow> contract_error + (string \<times> string)" where
  "parse_probe_path kv =
     (case kv of (semantic_field, path) \<Rightarrow>
        (case as_str path of
           None \<Rightarrow> Inl (RemediationSourceContractError
                     ''remediation source probe field is unsupported'')
         | Some p \<Rightarrow>
             (if \<not> valid_field_path semantic_field
                 \<or> \<not> list_ex (\<lambda>suf. suffix suf semantic_field) PROBE_FIELD_SUFFIXES
              then Inl (RemediationSourceContractError
                     ''remediation source probe field is unsupported'')
              else if \<not> valid_field_path p
              then Inl (RemediationSourceContractError ''remediation source probePaths is invalid'')
              else Inr (semantic_field, p))))"

definition parse_probe_paths :: "json \<Rightarrow> contract_error + (string \<times> string) list" where
  "parse_probe_paths value =
     (if value = JNull then Inr []
      else case as_dict value of
        None \<Rightarrow> Inl (RemediationSourceContractError ''remediation source probePaths is invalid'')
      | Some d \<Rightarrow>
          (if d = [] then
             Inl (RemediationSourceContractError ''remediation source probePaths is invalid'')
           else mapE parse_probe_path d))"

definition parse_image_name :: "json \<Rightarrow> contract_error + string" where
  "parse_image_name item =
     (case as_dict item of
        None \<Rightarrow> Inl (RemediationSourceContractError ''remediation source image entry is invalid'')
      | Some d \<Rightarrow>
          (if \<not> keys_are d [''name''] then
             Inl (RemediationSourceContractError ''remediation source image entry is invalid'')
           else case as_str (dget d ''name'') of
             None \<Rightarrow> Inl (RemediationSourceContractError ''remediation source image name is invalid'')
           | Some name \<Rightarrow>
               (if CHR ''@'' \<in> set name \<or> \<not> image_name_ok name then
                  Inl (RemediationSourceContractError ''remediation source image name is invalid'')
                else Inr name)))"

definition parse_image_names :: "json \<Rightarrow> contract_error + string list" where
  "parse_image_names value =
     (if value = JNull then Inr []
      else case as_list value of
        None \<Rightarrow> Inl (RemediationSourceContractError ''remediation source images are invalid'')
      | Some items \<Rightarrow>
          (if items = [] then
             Inl (RemediationSourceContractError ''remediation source images are invalid'')
           else bindE (mapE parse_image_name items) (\<lambda>names.
             if \<not> distinct names then
               Inl (RemediationSourceContractError ''remediation source image name is duplicated'')
             else Inr names)))"

subsection \<open>Entries and the whole document\<close>

definition source_type_text :: "json \<Rightarrow> contract_error + string" where
  \<comment> \<open>\<^verbatim>\<open>source_type not in SOURCE_TYPES\<close> hashes its operand, which raises on a list or mapping\<close>
  "source_type_text v =
     (case v of
        JList _ \<Rightarrow> Inl (ContractPyError TypeError)
      | JDict _ \<Rightarrow> Inl (ContractPyError TypeError)
      | JStr s \<Rightarrow>
          (if s \<in> set SOURCE_TYPES then Inr s
           else Inl (RemediationSourceContractError ''remediation source type is unsupported''))
      | _ \<Rightarrow> Inl (RemediationSourceContractError ''remediation source type is unsupported''))"

definition common_keys :: "string list" where
  "common_keys = [''manifestPath'', ''sourceType'', ''path'']"

definition allowed_by_type :: "string \<Rightarrow> string list" where
  "allowed_by_type source_type =
     (if source_type = ''raw-yaml'' then common_keys @ [''imagePath'', ''replicaPath'', ''probePaths'']
      else if source_type = ''helm-values''
      then common_keys @ [''imageTagPath'', ''replicaPath'', ''probePaths'']
      else common_keys @ [''images''])"

definition declared_paths :: "source_declaration \<Rightarrow> string list" where
  "declared_paths s =
     List.map_filter id [rs_image_path s, rs_image_tag_path s, rs_replica_path s] @ map snd (rs_probe_paths s)"

definition check_declaration :: "source_declaration \<Rightarrow> contract_error + source_declaration" where
  \<comment> \<open>the checks of \<^verbatim>\<open>_parse_source\<close> after its fields are read\<close>
  "check_declaration s =
     (if \<not> distinct (declared_paths s) then
        Inl (RemediationSourceContractError ''remediation source field path is duplicated'')
      else if rs_source_type s = ''raw-yaml'' \<and> rs_image_path s = None \<and> rs_replica_path s = None
              \<and> rs_probe_paths s = [] then
        Inl (RemediationSourceContractError ''raw remediation source declares no fields'')
      else if rs_source_type s = ''helm-values'' \<and> rs_image_tag_path s = None
              \<and> rs_replica_path s = None \<and> rs_probe_paths s = [] then
        Inl (RemediationSourceContractError ''Helm remediation source declares no fields'')
      else if rs_source_type s = ''kustomize'' \<and> rs_image_names s = [] then
        Inl (RemediationSourceContractError ''Kustomize remediation source declares no images'')
      else Inr s)"

definition parse_source :: "json \<Rightarrow> contract_error + source_declaration" where
  "parse_source value =
     (case as_dict value of
        None \<Rightarrow> Inl (RemediationSourceContractError ''remediation source entry is invalid'')
      | Some d \<Rightarrow>
          bindE (source_type_text (dget d ''sourceType'')) (\<lambda>source_type.
          if \<not> list_all (dhas d) common_keys
             \<or> \<not> list_all (\<lambda>k. k \<in> set (allowed_by_type source_type)) (map fst d) then
            Inl (RemediationSourceContractError ''remediation source entry keys are invalid'')
          else
          bindE (safe_repo_path (dget d ''manifestPath'') ''manifestPath'') (\<lambda>manifest_path.
          bindE (safe_repo_path (dget d ''path'') ''path'') (\<lambda>source_path.
          if source_path = REMEDIATION_SOURCE_CONTRACT_PATH then
            Inl (RemediationSourceContractError ''remediation source contract cannot patch itself'')
          else
          bindE (optional_field_path (dget d ''imagePath'') ''imagePath'') (\<lambda>image_path.
          bindE (optional_field_path (dget d ''imageTagPath'') ''imageTagPath'') (\<lambda>image_tag_path.
          bindE (optional_field_path (dget d ''replicaPath'') ''replicaPath'') (\<lambda>replica_path.
          bindE (parse_probe_paths (dget d ''probePaths'')) (\<lambda>probe_paths.
          bindE (parse_image_names (dget d ''images'')) (\<lambda>image_names.
          check_declaration
            \<lparr>rs_manifest_path = manifest_path, rs_source_type = source_type,
             rs_source_path = source_path, rs_image_path = image_path,
             rs_image_tag_path = image_tag_path, rs_image_names = image_names,
             rs_replica_path = replica_path, rs_probe_paths = probe_paths\<rparr>)))))))))"

definition duplicate_key_error :: contract_error where
  "duplicate_key_error =
     RemediationSourceContractError ''remediation source contract mapping key is duplicated or invalid''"

fun reject_duplicate_mapping_keys :: "node \<Rightarrow> contract_error + unit"
and reject_duplicate_pairs :: "string list \<Rightarrow> (node \<times> node) list \<Rightarrow> contract_error + unit"
and reject_duplicate_items :: "node list \<Rightarrow> contract_error + unit" where
  "reject_duplicate_mapping_keys (MappingNode kvs) = reject_duplicate_pairs [] kvs"
| "reject_duplicate_mapping_keys (SequenceNode items) = reject_duplicate_items items"
| "reject_duplicate_mapping_keys (ScalarNode _ _ _ _) = Inr ()"
| "reject_duplicate_pairs ks [] = Inr ()"
| "reject_duplicate_pairs ks ((key_node, value_node) # rest) =
     (case key_node of
        ScalarNode k _ _ _ \<Rightarrow>
          (if k \<in> set ks then Inl duplicate_key_error
           else bindE (reject_duplicate_mapping_keys value_node)
                  (\<lambda>_. reject_duplicate_pairs (k # ks) rest))
      | _ \<Rightarrow> Inl duplicate_key_error)"
| "reject_duplicate_items [] = Inr ()"
| "reject_duplicate_items (item # rest) =
     bindE (reject_duplicate_mapping_keys item) (\<lambda>_. reject_duplicate_items rest)"

definition contract_payload :: "text_lib \<Rightarrow> string \<Rightarrow> contract_error + json" where
  \<comment> \<open>the \<^verbatim>\<open>try\<close> block of \<^verbatim>\<open>parse_remediation_source_contract\<close>\<close>
  "contract_payload Y content =
     (case scan_any Y content of
        None \<Rightarrow> Inl (RemediationSourceContractError ''remediation source contract is invalid YAML'')
      | Some True \<Rightarrow> Inl (RemediationSourceContractError
                     ''remediation source contract anchors and aliases are unsupported'')
      | Some False \<Rightarrow>
     (case yaml_compose_all Y content of
        None \<Rightarrow> Inl (RemediationSourceContractError ''remediation source contract is invalid YAML'')
      | Some [MappingNode kvs] \<Rightarrow>
          bindE (reject_duplicate_mapping_keys (MappingNode kvs)) (\<lambda>_.
            case yaml_safe_load Y content of
              None \<Rightarrow> Inl (RemediationSourceContractError
                        ''remediation source contract is invalid YAML'')
            | Some payload \<Rightarrow> Inr payload)
      | Some _ \<Rightarrow> Inl (RemediationSourceContractError
                     ''remediation source contract must contain one mapping'')))"

definition parse_sources :: "json \<Rightarrow> contract_error + source_contract" where
  "parse_sources payload =
     (case as_dict payload of
        None \<Rightarrow> Inl (RemediationSourceContractError ''remediation source contract root is invalid'')
      | Some doc \<Rightarrow>
      if \<not> keys_are doc [''apiVersion'', ''kind'', ''spec''] then
        Inl (RemediationSourceContractError ''remediation source contract root is invalid'')
      else if \<not> py_eq (dget doc ''apiVersion'') (JStr REMEDIATION_SOURCE_API_VERSION)
              \<or> \<not> py_eq (dget doc ''kind'') (JStr REMEDIATION_SOURCE_KIND) then
        Inl (RemediationSourceContractError ''remediation source contract version is unsupported'')
      else case as_dict (dget doc ''spec'') of
        None \<Rightarrow> Inl (RemediationSourceContractError ''remediation source contract spec is invalid'')
      | Some spec \<Rightarrow>
      if \<not> keys_are spec [''sources''] then
        Inl (RemediationSourceContractError ''remediation source contract spec is invalid'')
      else case as_list (dget spec ''sources'') of
        None \<Rightarrow> Inl (RemediationSourceContractError
                  ''remediation source contract sources are missing'')
      | Some raw_sources \<Rightarrow>
      if raw_sources = [] then
        Inl (RemediationSourceContractError ''remediation source contract sources are missing'')
      else bindE (mapE parse_source raw_sources) (\<lambda>sources.
        if \<not> distinct (map rs_manifest_path sources) then
          Inl (RemediationSourceContractError ''remediation source manifestPath is duplicated'')
        else Inr sources))"

definition parse_remediation_source_contract ::
  "text_lib \<Rightarrow> string \<Rightarrow> contract_error + source_contract" where
  "parse_remediation_source_contract Y content =
     (if content = [] \<or> MAX_CONTRACT_BYTES < utf8_length content then
        Inl (RemediationSourceContractError ''remediation source contract size is invalid'')
      else bindE (contract_payload Y content) parse_sources)"

subsection \<open>What an accepted contract guarantees\<close>

definition confined :: "string \<Rightarrow> bool" where
  \<comment> \<open>a non-empty relative path whose components never leave the directory they start in\<close>
  "confined p \<longleftrightarrow> p \<noteq> [] \<and> hd p \<noteq> CHR ''/'' \<and> (\<forall>dir. resolve dir (posix_parts p) = Some (dir @ posix_parts p))"

definition declaration_ok :: "source_declaration \<Rightarrow> bool" where
  "declaration_ok s \<longleftrightarrow>
     confined (rs_manifest_path s) \<and> confined (rs_source_path s)
     \<and> rs_source_path s \<noteq> REMEDIATION_SOURCE_CONTRACT_PATH
     \<and> rs_source_type s \<in> set SOURCE_TYPES
     \<and> distinct (declared_paths s) \<and> list_all valid_field_path (declared_paths s)
     \<and> distinct (rs_image_names s) \<and> list_all image_name_ok (rs_image_names s)
     \<and> (declared_paths s \<noteq> [] \<or> rs_image_names s \<noteq> [])
     \<and> (rs_source_type s = ''kustomize'' \<longleftrightarrow> rs_image_names s \<noteq> [])
     \<and> (rs_image_path s \<noteq> None \<longrightarrow> rs_source_type s = ''raw-yaml'')
     \<and> (rs_image_tag_path s \<noteq> None \<longrightarrow> rs_source_type s = ''helm-values'')"

lemma prefix_single: "prefix [c] v \<longleftrightarrow> v \<noteq> [] \<and> hd v = c"
  by (cases v) auto

lemma posix_parts_confined:
  "v \<noteq> [] \<Longrightarrow> \<not> prefix ''/'' v \<Longrightarrow> ''..'' \<notin> set (posix_parts v) \<Longrightarrow> confined v"
  by (auto simp: confined_def prefix_single resolve_plain)

lemma safe_repo_path_Inr:
  "safe_repo_path value field = Inr v \<Longrightarrow> value = JStr v \<and> confined v"
  by (auto simp: safe_repo_path_def split: json.splits if_splits intro: posix_parts_confined)

lemma optional_field_path_Inr:
  "optional_field_path value field = Inr r \<Longrightarrow>
   (case r of None \<Rightarrow> value = JNull | Some v \<Rightarrow> value = JStr v \<and> valid_field_path v)"
  by (auto simp: optional_field_path_def split: json.splits if_splits)

lemma parse_probe_path_Inr:
  "parse_probe_path kv = Inr r \<Longrightarrow> r = (fst kv, snd r) \<and> snd kv = JStr (snd r) \<and> valid_field_path (snd r)"
  by (auto simp: parse_probe_path_def as_str_def split: prod.splits option.splits if_splits json.splits)

lemma parse_probe_paths_Inr:
  assumes "parse_probe_paths value = Inr ps"
  shows "list_all valid_field_path (map snd ps)" and "ps = [] \<longleftrightarrow> value = JNull"
proof -
  show "list_all valid_field_path (map snd ps)"
    using assms
    by (auto simp: parse_probe_paths_def mapE_Inr_iff list_all2_conv_all_nth list_all_length
        dest!: parse_probe_path_Inr split: if_splits option.splits)
  show "ps = [] \<longleftrightarrow> value = JNull"
    using assms by (auto simp: parse_probe_paths_def dest: mapE_Inr_length split: if_splits option.splits)
qed

lemma parse_image_name_Inr: "parse_image_name item = Inr name \<Longrightarrow> image_name_ok name"
  by (auto simp: parse_image_name_def split: option.splits if_splits)

lemma parse_image_names_Inr:
  assumes "parse_image_names value = Inr names"
  shows "distinct names" and "list_all image_name_ok names" and "names = [] \<longleftrightarrow> value = JNull"
proof -
  show "distinct names"
    using assms by (auto simp: parse_image_names_def bindE_eq_Inr split: if_splits option.splits)
  show "list_all image_name_ok names"
    using assms
    by (auto simp: parse_image_names_def bindE_eq_Inr mapE_Inr_iff list_all2_conv_all_nth
        list_all_length dest!: parse_image_name_Inr split: if_splits option.splits)
  show "names = [] \<longleftrightarrow> value = JNull"
    using assms
    by (auto simp: parse_image_names_def bindE_eq_Inr dest: mapE_Inr_length split: if_splits option.splits)
qed

lemma dget_outside: "list_all (\<lambda>k. k \<in> set ks) (map fst d) \<Longrightarrow> k \<notin> set ks \<Longrightarrow> dget d k = JNull"
  by (force simp: dget_def list_all_iff dest: map_of_SomeD split: option.split)

lemma source_type_text_Inr: "source_type_text v = Inr s \<Longrightarrow> v = JStr s \<and> s \<in> set SOURCE_TYPES"
  by (auto simp: source_type_text_def split: json.splits if_splits)

lemma declared_paths_valid:
  assumes "\<And>v. rs_image_path s = Some v \<Longrightarrow> valid_field_path v"
    and "\<And>v. rs_image_tag_path s = Some v \<Longrightarrow> valid_field_path v"
    and "\<And>v. rs_replica_path s = Some v \<Longrightarrow> valid_field_path v"
    and "list_all valid_field_path (map snd (rs_probe_paths s))"
  shows "list_all valid_field_path (declared_paths s)"
  using assms by (auto simp: declared_paths_def list_all_iff List.map_filter_def)

lemma check_declaration_Inr:
  "check_declaration s = Inr r \<Longrightarrow> rs_source_type s \<in> set SOURCE_TYPES \<Longrightarrow>
   r = s \<and> distinct (declared_paths s)
   \<and> (rs_source_type s = ''kustomize'' \<longrightarrow> rs_image_names s \<noteq> [])
   \<and> (rs_source_type s \<noteq> ''kustomize'' \<longrightarrow> declared_paths s \<noteq> [])"
  by (auto simp: check_declaration_def declared_paths_def SOURCE_TYPES_def List.map_filter_def
      split: if_splits)

lemma allowed_keys:
  "t \<noteq> ''raw-yaml'' \<Longrightarrow> ''imagePath'' \<notin> set (allowed_by_type t)"
  "t \<noteq> ''helm-values'' \<Longrightarrow> ''imageTagPath'' \<notin> set (allowed_by_type t)"
  "t \<in> set SOURCE_TYPES \<Longrightarrow> t \<noteq> ''kustomize'' \<Longrightarrow> ''images'' \<notin> set (allowed_by_type t)"
  by (simp_all add: allowed_by_type_def common_keys_def SOURCE_TYPES_def) blast

lemma parse_source_ok:
  assumes "parse_source value = Inr s"
  shows "declaration_ok s"
proof -
  obtain d source_type manifest_path source_path image_path image_tag_path replica_path
    probe_paths image_names where
    st: "source_type_text (dget d ''sourceType'') = Inr source_type"
    and ks: "list_all (\<lambda>k. k \<in> set (allowed_by_type source_type)) (map fst d)"
    and mp: "safe_repo_path (dget d ''manifestPath'') ''manifestPath'' = Inr manifest_path"
    and sp: "safe_repo_path (dget d ''path'') ''path'' = Inr source_path"
    and self: "source_path \<noteq> REMEDIATION_SOURCE_CONTRACT_PATH"
    and ip: "optional_field_path (dget d ''imagePath'') ''imagePath'' = Inr image_path"
    and it: "optional_field_path (dget d ''imageTagPath'') ''imageTagPath'' = Inr image_tag_path"
    and rp: "optional_field_path (dget d ''replicaPath'') ''replicaPath'' = Inr replica_path"
    and pp: "parse_probe_paths (dget d ''probePaths'') = Inr probe_paths"
    and nm: "parse_image_names (dget d ''images'') = Inr image_names"
    and chk: "check_declaration
            \<lparr>rs_manifest_path = manifest_path, rs_source_type = source_type,
             rs_source_path = source_path, rs_image_path = image_path,
             rs_image_tag_path = image_tag_path, rs_image_names = image_names,
             rs_replica_path = replica_path, rs_probe_paths = probe_paths\<rparr> = Inr s"
    (is "check_declaration ?s = _")
    using assms by (auto simp: parse_source_def bindE_eq_Inr split: option.splits if_splits)
  have types: "source_type \<in> set SOURCE_TYPES" using source_type_text_Inr [OF st] by simp
  note opts = optional_field_path_Inr [OF ip] optional_field_path_Inr [OF it] optional_field_path_Inr [OF rp]
  have s: "s = ?s" using check_declaration_Inr [OF chk] types by simp
  have paths: "list_all valid_field_path (declared_paths s)"
    by (rule declared_paths_valid) (use s opts parse_probe_paths_Inr [OF pp] in auto)
  have only: "image_path \<noteq> None \<longrightarrow> source_type = ''raw-yaml''"
    "image_tag_path \<noteq> None \<longrightarrow> source_type = ''helm-values''"
    "image_names \<noteq> [] \<longrightarrow> source_type = ''kustomize''"
  proof -
    show "image_path \<noteq> None \<longrightarrow> source_type = ''raw-yaml''"
      using opts(1) dget_outside [OF ks allowed_keys(1)] by (auto split: option.splits)
    show "image_tag_path \<noteq> None \<longrightarrow> source_type = ''helm-values''"
      using opts(2) dget_outside [OF ks allowed_keys(2)] by (auto split: option.splits)
    show "image_names \<noteq> [] \<longrightarrow> source_type = ''kustomize''"
      using parse_image_names_Inr(3) [OF nm] dget_outside [OF ks allowed_keys(3) [OF types]] by auto
  qed
  show ?thesis
    using check_declaration_Inr [OF chk] types s paths only safe_repo_path_Inr [OF mp]
      safe_repo_path_Inr [OF sp] self parse_image_names_Inr [OF nm]
    by (auto simp: declaration_ok_def)
qed

lemma source_for_manifest_distinct:
  assumes "distinct (map rs_manifest_path cs)" and "s \<in> set cs"
  shows "source_for_manifest cs (rs_manifest_path s) = Some s"
proof -
  have "filter (\<lambda>t. rs_manifest_path t = rs_manifest_path s) cs = [s]"
    using assms by (induction cs) (auto simp: filter_empty_conv rev_image_eqI)
  then show ?thesis by (simp add: source_for_manifest_def)
qed

lemma source_for_manifest_Some:
  "source_for_manifest cs path = Some s \<Longrightarrow> s \<in> set cs \<and> rs_manifest_path s = path"
  by (auto simp: source_for_manifest_def filter_eq_Cons_iff split: list.splits)

lemma parse_sources_ok:
  assumes "parse_sources payload = Inr cs"
  shows "cs \<noteq> []" and "distinct (map rs_manifest_path cs)" and "\<And>s. s \<in> set cs \<Longrightarrow> declaration_ok s"
proof -
  from assms obtain raw where raw: "mapE parse_source raw = Inr cs" "raw \<noteq> []"
    and dist: "distinct (map rs_manifest_path cs)"
    by (auto simp: parse_sources_def bindE_eq_Inr split: option.splits if_splits)
  show "distinct (map rs_manifest_path cs)" by (rule dist)
  show "cs \<noteq> []" using mapE_Inr_length [OF raw(1)] raw(2) by auto
  show "declaration_ok s" if "s \<in> set cs" for s
    using raw(1) that
    by (auto simp: mapE_Inr_iff list_all2_conv_all_nth in_set_conv_nth intro: parse_source_ok)
qed

text \<open>
  Unique keys at every level: a document accepted by the duplicate-key check is a tree in which no
  mapping binds a key twice.
\<close>

fun node_keys :: "(node \<times> node) list \<Rightarrow> string option list" where
  "node_keys [] = []"
| "node_keys ((k, _) # kvs) = (case k of ScalarNode v _ _ _ \<Rightarrow> Some v | _ \<Rightarrow> None) # node_keys kvs"

fun unique_keys :: "node \<Rightarrow> bool"
and unique_keys_pairs :: "(node \<times> node) list \<Rightarrow> bool" where
  "unique_keys (ScalarNode _ _ _ _) = True"
| "unique_keys (SequenceNode items) = list_all unique_keys items"
| "unique_keys (MappingNode kvs) =
     (None \<notin> set (node_keys kvs) \<and> distinct (node_keys kvs) \<and> unique_keys_pairs kvs)"
| "unique_keys_pairs [] = True"
| "unique_keys_pairs ((_, v) # kvs) = (unique_keys v \<and> unique_keys_pairs kvs)"

lemma reject_duplicates_iff:
  "reject_duplicate_mapping_keys n = Inr () \<longleftrightarrow> unique_keys n"
  "reject_duplicate_pairs ks kvs = Inr () \<longleftrightarrow>
     None \<notin> set (node_keys kvs) \<and> distinct (node_keys kvs)
     \<and> set (node_keys kvs) \<inter> Some ` set ks = {} \<and> unique_keys_pairs kvs"
  "reject_duplicate_items ns = Inr () \<longleftrightarrow> list_all unique_keys ns"
proof (induction n and ks kvs and ns
    rule: reject_duplicate_mapping_keys_reject_duplicate_pairs_reject_duplicate_items.induct)
  case (5 ks key_node value_node rest)
  show ?case
  proof (cases key_node)
    case (ScalarNode k st a b)
    have *: "(bindE (reject_duplicate_mapping_keys value_node)
        (\<lambda>_. reject_duplicate_pairs (k # ks) rest) = Inr ()) \<longleftrightarrow>
      reject_duplicate_mapping_keys value_node = Inr () \<and> reject_duplicate_pairs (k # ks) rest = Inr ()"
      by (auto simp: bindE_eq_Inr)
    show ?thesis
    proof (cases "k \<in> set ks")
      case True
      then show ?thesis by (simp add: ScalarNode)
    next
      case False
      with 5 [OF ScalarNode False] show ?thesis by (auto simp: ScalarNode *)
    qed
  qed auto
qed (auto simp: bindE_eq_Inr)

subsection \<open>Properties\<close>

lemma contract_payload_Inr:
  assumes "contract_payload Y content = Inr payload"
  shows "alias_free Y content"
    and "\<exists>kvs. yaml_compose_all Y content = Some [MappingNode kvs] \<and> unique_keys (MappingNode kvs)"
    and "yaml_safe_load Y content = Some payload"
  using assms
  by (auto simp: contract_payload_def bindE_eq_Inr reject_duplicates_iff alias_free_iff
      split: option.splits bool.splits list.splits node.splits)

definition sample_source :: json where
  "sample_source =
     JDict [(''manifestPath'', JStr ''apps/web.yaml''), (''sourceType'', JStr ''raw-yaml''),
            (''path'', JStr ''apps/web.yaml''), (''replicaPath'', JStr ''spec.replicas'')]"

definition sample_contract :: json where
  "sample_contract =
     JDict [(''apiVersion'', JStr ''remediation.kyro.dev/v1alpha1''),
            (''kind'', JStr ''RemediationSource''),
            (''spec'', JDict [(''sources'', JList [sample_source])])]"

definition sample_lib :: "json \<Rightarrow> text_lib" where
  "sample_lib v =
     \<lparr>yaml_scan = (\<lambda>_. ([False], False)),
      yaml_compose_all = (\<lambda>_. Some [MappingNode [(ScalarNode ''kind'' None 0 4, ScalarNode ''x'' None 6 7)]]),
      yaml_safe_load_all = (\<lambda>_. Some [v]), yaml_safe_load = (\<lambda>_. Some v),
      yaml_safe_dump = (\<lambda>_. ''kind: x''), json_loads = (\<lambda>_. None), sha256_hex = id\<rparr>"

text \<open>
  C8. A repository contract that parses is safe to act on: it is one alias-free mapping without a
  duplicated key at any depth and within the size limit, every declaration names confined paths
  (relative, never leaving the repository directory), a supported source type and distinct
  well-formed target fields that fit that type, no declaration targets the contract file itself, and
  the lookup by manifest path returns exactly the declaration of that path.
\<close>

theorem parsed_contract_is_safe:
  assumes "parse_remediation_source_contract Y content = Inr contract"
  shows "utf8_length content \<le> MAX_CONTRACT_BYTES \<and> alias_free Y content
    \<and> (\<exists>kvs. yaml_compose_all Y content = Some [MappingNode kvs] \<and> unique_keys (MappingNode kvs))
    \<and> contract \<noteq> []
    \<and> (\<forall>s \<in> set contract.
         declaration_ok s \<and> source_for_manifest contract (rs_manifest_path s) = Some s)"
proof -
  from assms obtain payload where size: "utf8_length content \<le> MAX_CONTRACT_BYTES"
    and payload: "contract_payload Y content = Inr payload" and sources: "parse_sources payload = Inr contract"
    by (auto simp: parse_remediation_source_contract_def bindE_eq_Inr split: if_splits)
  note ok = parse_sources_ok [OF sources]
  show ?thesis
    using size contract_payload_Inr [OF payload] ok(1,3) source_for_manifest_distinct [OF ok(2)] by blast
qed

lemma sample_contract_parses:
  "parse_remediation_source_contract (sample_lib sample_contract) ''kind: x'' =
     Inr [\<lparr>rs_manifest_path = ''apps/web.yaml'', rs_source_type = ''raw-yaml'',
           rs_source_path = ''apps/web.yaml'', rs_image_path = None, rs_image_tag_path = None,
           rs_image_names = [], rs_replica_path = Some ''spec.replicas'', rs_probe_paths = []\<rparr>]"
  by code_simp

theorem parsed_contract_is_safe_witness:
  "utf8_length ''kind: x'' \<le> MAX_CONTRACT_BYTES \<and>
   declaration_ok \<lparr>rs_manifest_path = ''apps/web.yaml'', rs_source_type = ''raw-yaml'',
           rs_source_path = ''apps/web.yaml'', rs_image_path = None, rs_image_tag_path = None,
           rs_image_names = [], rs_replica_path = Some ''spec.replicas'', rs_probe_paths = []\<rparr>"
  using parsed_contract_is_safe [OF sample_contract_parses] by simp

text \<open>
  Two observations on the parser. A \<^verbatim>\<open>sourceType\<close> given as a YAML list escapes as the language's
  \<^verbatim>\<open>TypeError\<close>, not as the parser's own error. And the test for single-dot components can never
  fire, because path parts never contain them: a path that reaches the contract file itself through
  a dot component is accepted.
\<close>

lemma source_type_list_escapes:
  "dget d ''sourceType'' = JList xs \<Longrightarrow> parse_source (JDict d) = Inl (ContractPyError TypeError)"
  by (simp add: parse_source_def source_type_text_def as_dict_def)

lemma dot_component_never_rejected: "\<not> list_ex (\<lambda>part. part = [] \<or> part = ''.'') (posix_parts v)"
  by (auto simp: posix_parts_def list_ex_iff)

lemma dot_path_reaches_contract:
  "safe_repo_path (JStr ''.remediation.yaml/.'') ''path'' = Inr ''.remediation.yaml/.''
   \<and> posix_parts ''.remediation.yaml/.'' = [REMEDIATION_SOURCE_CONTRACT_PATH]"
  by code_simp

end
