(* ===== verification/Manifest_Validation.thy ===== *)
theory Manifest_Validation
  imports Yaml_Library "HOL-Library.AList"
begin

section \<open>Validation of manifest edits\<close>

text \<open>
  \<^verbatim>\<open>src/src/domains/manifest_editor/validation.py\<close>: the fail-closed check of an edit made in the
  browser. Parsing, secret detection, resource identities and server-owned fields are the functions
  of the source; a Python set is a list read through \<^const>\<open>set\<close>, the resource map is an association
  list with the last binding kept. The text of the unified diff comes from \<^verbatim>\<open>difflib\<close> and is an
  argument.
\<close>

definition MAX_MANIFEST_BYTES :: int where
  "MAX_MANIFEST_BYTES = 1048576"

definition MAX_DOCUMENTS :: nat where
  "MAX_DOCUMENTS = 100"

definition SERVER_OWNED_METADATA :: "string list" where
  "SERVER_OWNED_METADATA =
     [''creationTimestamp'', ''deletionGracePeriodSeconds'', ''deletionTimestamp'', ''generation'',
      ''managedFields'', ''resourceVersion'', ''selfLink'', ''uid'']"

definition SAFE_REFERENCE_KEYS :: "string list" where
  "SAFE_REFERENCE_KEYS = [''secretname'', ''secretkeyref'', ''configmapkeyref'', ''valuefrom'']"

definition SENSITIVE_GATE_PREFIXES :: "string list" where
  "SENSITIVE_GATE_PREFIXES =
     [''allow_'', ''disable_'', ''enable_'', ''require_'', ''use_'', ''validate_'', ''verify_'']"

definition BOOLEAN_GATE_LITERALS :: "string list" where
  "BOOLEAN_GATE_LITERALS = [''0'', ''1'', ''false'', ''no'', ''off'', ''on'', ''true'', ''yes'']"

record manifest_id =
  api_version :: string
  id_kind :: string
  id_namespace :: "string option"
  id_name :: string

subsection \<open>Names that look like credentials\<close>

definition ascii_lower :: "char \<Rightarrow> char" where
  "ascii_lower c = (if chr_in CHR ''A'' CHR ''Z'' c then char_of ((of_char c :: int) + 32) else c)"

definition optional_sep :: "string \<Rightarrow> string \<Rightarrow> string list" where
  \<comment> \<open>\<^verbatim>\<open>a[_-]?b\<close>\<close>
  "optional_sep a b = [a @ b, a @ ''_'' @ b, a @ ''-'' @ b]"

definition sensitive_words :: "string list" where
  "sensitive_words =
     [''password'', ''passwd'', ''token''] @ optional_sep ''api'' ''key'' @ optional_sep ''access'' ''key''
     @ [''secret''] @ optional_sep ''private'' ''key'' @ optional_sep ''client'' ''secret''"

definition is_sep :: "char \<Rightarrow> bool" where
  "is_sep c \<longleftrightarrow> c = CHR ''_'' \<or> c = CHR ''-''"

fun after_sep :: "string \<Rightarrow> string list" where
  "after_sep [] = []"
| "after_sep (c # cs) = (if is_sep c then [cs] else []) @ after_sep cs"

definition word_ends :: "string \<Rightarrow> bool" where
  \<comment> \<open>\<^verbatim>\<open>(?:$|[_-])\<close>; the dollar also matches before a final newline\<close>
  "word_ends rest \<longleftrightarrow> rest = [] \<or> rest = [CHR 0x0A] \<or> is_sep (hd rest)"

definition sensitive_name :: "string \<Rightarrow> bool" where
  \<comment> \<open>\<^verbatim>\<open>SENSITIVE_NAME.search\<close>\<close>
  "sensitive_name name =
     (let s = map ascii_lower name
      in list_ex (\<lambda>t. list_ex (\<lambda>w. prefix w t \<and> word_ends (drop (length w) t)) sensitive_words)
           (s # after_sep s))"

definition sensitive_suffixes :: "string list" where
  "sensitive_suffixes =
     [''password'', ''passwd'', ''token'', ''apikey'', ''accesskey'', ''secretkey'', ''privatekey'',
      ''clientsecret'']"

definition normalized_key :: "string \<Rightarrow> string" where
  "normalized_key key = filter (\<lambda>c. chr_in CHR ''a'' CHR ''z'' c \<or> is_digit c) (py_casefold key)"

definition sensitive_key :: "string \<Rightarrow> bool" where
  "sensitive_key key \<longleftrightarrow>
     normalized_key key \<notin> set SAFE_REFERENCE_KEYS
     \<and> list_ex (\<lambda>w. suffix w (normalized_key key)) sensitive_suffixes"

definition is_sensitive_gate_flag :: "string \<Rightarrow> json \<Rightarrow> bool" where
  "is_sensitive_gate_flag name value =
     (let normalized_name = map (\<lambda>c. if c = CHR ''-'' then CHR ''_'' else c) (py_casefold (py_strip name))
      in if \<not> list_ex (\<lambda>p. prefix p normalized_name) SENSITIVE_GATE_PREFIXES then False
         else case value of
           JBool _ \<Rightarrow> True
         | JInt i \<Rightarrow> i = 0 \<or> i = 1
         | JStr s \<Rightarrow> py_casefold (py_strip s) \<in> set BOOLEAN_GATE_LITERALS
         | _ \<Rightarrow> False)"

definition blank :: "json \<Rightarrow> bool" where
  \<comment> \<open>\<^verbatim>\<open>v in (None, "")\<close>\<close>
  "blank v \<longleftrightarrow> v = JNull \<or> v = JStr []"

definition is_container :: "json \<Rightarrow> bool" where
  \<comment> \<open>\<^verbatim>\<open>isinstance(child, Mapping | list)\<close>\<close>
  "is_container v = (case v of JDict _ \<Rightarrow> True | JList _ \<Rightarrow> True | _ \<Rightarrow> False)"

definition sensitive_env :: "jdict \<Rightarrow> bool" where
  "sensitive_env d =
     (case dget d ''name'' of
        JStr env_name \<Rightarrow>
          sensitive_name env_name \<and> dhas d ''value'' \<and> \<not> blank (dget d ''value'')
          \<and> \<not> is_sensitive_gate_flag env_name (dget d ''value'')
      | _ \<Rightarrow> False)"

fun contains_sensitive_literal :: "json \<Rightarrow> bool"
and contains_sensitive_pair :: "jdict \<Rightarrow> bool"
and contains_sensitive_item :: "json list \<Rightarrow> bool" where
  "contains_sensitive_literal (JDict d) = (sensitive_env d \<or> contains_sensitive_pair d)"
| "contains_sensitive_literal (JList items) = contains_sensitive_item items"
| "contains_sensitive_literal _ = False"
| "contains_sensitive_pair [] = False"
| "contains_sensitive_pair ((raw_key, child) # rest) =
     ((sensitive_key raw_key \<and> \<not> blank child \<and> \<not> is_container child)
      \<or> contains_sensitive_literal child \<or> contains_sensitive_pair rest)"
| "contains_sensitive_item [] = False"
| "contains_sensitive_item (item # rest) =
     (contains_sensitive_literal item \<or> contains_sensitive_item rest)"

subsection \<open>Resources of a document and their identities\<close>

definition kind_text :: "jdict \<Rightarrow> string" where
  \<comment> \<open>\<^verbatim>\<open>str(d.get("kind") or "")\<close>\<close>
  "kind_text d = py_str (py_or (dget d ''kind'') (JStr []))"

definition flattened_resources :: "json \<Rightarrow> jdict list" where
  "flattened_resources document =
     (case document of
        JDict d \<Rightarrow>
          (if kind_text d \<noteq> ''List'' then [d]
           else case dget d ''items'' of JList items \<Rightarrow> List.map_filter as_dict items | _ \<Rightarrow> [])
      | _ \<Rightarrow> [])"

definition all_resources :: "json list \<Rightarrow> jdict list" where
  \<comment> \<open>the iteration order of the two nested loops over documents and resources\<close>
  "all_resources documents = concat (map flattened_resources documents)"

definition manifest_identity :: "jdict \<Rightarrow> manifest_id option" where
  "manifest_identity resource =
     (case dget resource ''metadata'' of
        JDict metadata \<Rightarrow>
          (case (as_str (dget resource ''apiVersion''), as_str (dget resource ''kind''),
                 as_str (dget metadata ''name'')) of
             (Some av, Some k, Some nm) \<Rightarrow>
               (if py_strip av = [] \<or> py_strip k = [] \<or> py_strip nm = [] then None
                else case dget metadata ''namespace'' of
                  JNull \<Rightarrow> Some \<lparr>api_version = av, id_kind = k, id_namespace = None, id_name = nm\<rparr>
                | JStr ns \<Rightarrow> Some \<lparr>api_version = av, id_kind = k, id_namespace = Some ns, id_name = nm\<rparr>
                | _ \<Rightarrow> None)
           | _ \<Rightarrow> None)
      | _ \<Rightarrow> None)"

definition manifest_identities :: "json list \<Rightarrow> manifest_id list \<times> string list" where
  "manifest_identities documents =
     (let resources = all_resources documents;
          identities = List.map_filter manifest_identity resources;
          errors = map (\<lambda>_. ''every YAML document must be a named Kubernetes resource'')
                     (filter (\<lambda>r. manifest_identity r = None) resources)
      in (identities,
          errors @ (if distinct identities then []
                    else [''manifest contains duplicate Kubernetes resource identities''])))"

definition selected_identity_present :: "manifest_id \<Rightarrow> manifest_id list \<Rightarrow> bool" where
  "selected_identity_present selected identities =
     list_ex (\<lambda>i. api_version i = api_version selected
                \<and> py_casefold (id_kind i) = py_casefold (id_kind selected)
                \<and> id_name i = id_name selected
                \<and> (id_namespace i = id_namespace selected \<or> id_namespace i = None)) identities"

fun first_secret_error :: "jdict list \<Rightarrow> string list" where
  "first_secret_error [] = []"
| "first_secret_error (r # rs) =
     (if py_casefold (kind_text r) = ''secret'' then [''Secret resources cannot be displayed or edited'']
      else if contains_sensitive_literal (JDict r)
      then [''manifest contains a secret-like literal and cannot be displayed or edited'']
      else first_secret_error rs)"

definition secret_safety_errors :: "json list \<Rightarrow> string list" where
  "secret_safety_errors documents = first_secret_error (all_resources documents)"

definition resource_map :: "json list \<Rightarrow> (manifest_id \<times> jdict) list" where
  "resource_map documents =
     foldl (\<lambda>m r. case manifest_identity r of None \<Rightarrow> m | Some i \<Rightarrow> AList.update i r m) []
       (all_resources documents)"

definition server_owned_change :: "jdict \<Rightarrow> jdict \<Rightarrow> string option" where
  \<comment> \<open>the body of the loop for one pair of resources: the error it returns, if any\<close>
  "server_owned_change source_resource desired_resource =
     (if \<not> py_eq (dget source_resource ''status'') (dget desired_resource ''status'')
      then Some ''status is server-owned and cannot be changed through GitOps''
      else case (as_dict (dget source_resource ''metadata''), as_dict (dget desired_resource ''metadata'')) of
        (Some sm, Some dm) \<Rightarrow>
          (if list_ex (\<lambda>f. \<not> py_eq (dget sm f) (dget dm f)) SERVER_OWNED_METADATA
           then Some ''server-owned metadata cannot be changed through GitOps''
           else None)
      | _ \<Rightarrow> None)"

fun server_owned_loop :: "(manifest_id \<times> jdict) list \<Rightarrow> (manifest_id \<times> jdict) list \<Rightarrow> string list" where
  "server_owned_loop [] desired = []"
| "server_owned_loop ((identity, source_resource) # rest) desired =
     (case map_of desired identity of
        None \<Rightarrow> server_owned_loop rest desired
      | Some desired_resource \<Rightarrow>
          (case server_owned_change source_resource desired_resource of
             Some e \<Rightarrow> [e]
           | None \<Rightarrow> server_owned_loop rest desired))"

definition server_owned_field_errors :: "json list \<Rightarrow> json list \<Rightarrow> string list" where
  "server_owned_field_errors source desired =
     server_owned_loop (resource_map source) (resource_map desired)"

subsection \<open>The two entry points\<close>

definition parse_documents :: "text_lib \<Rightarrow> string \<Rightarrow> string \<Rightarrow> string list \<times> json list option" where
  "parse_documents Y content label =
     (if MAX_MANIFEST_BYTES < utf8_length content then
        ([label @ '' manifest exceeds the 1 MiB editor limit''], None)
      else if CHR 0x00 \<in> set content then
        ([label @ '' manifest contains an invalid NUL byte''], None)
      else case scan_list Y content of
        None \<Rightarrow> ([label @ '' manifest is not valid YAML''], None)
      | Some True \<Rightarrow>
          ([label @ '' manifest anchors and aliases are not supported by the safe editor''], None)
      | Some False \<Rightarrow>
     (case yaml_safe_load_all Y content of
        None \<Rightarrow> ([label @ '' manifest is not valid YAML''], None)
      | Some documents \<Rightarrow>
          (let nonempty = filter (\<lambda>d. d \<noteq> JNull) documents
           in if nonempty = [] then ([label @ '' manifest contains no Kubernetes resources''], None)
              else if MAX_DOCUMENTS < length nonempty then
                ([label @ '' manifest exceeds the document limit''], None)
              else ([], Some nonempty))))"

definition validate_manifest_source :: "text_lib \<Rightarrow> string \<Rightarrow> manifest_id \<Rightarrow> string list" where
  "validate_manifest_source Y source selected =
     (case parse_documents Y source ''source'' of
        (errors, None) \<Rightarrow> errors
      | (errors, Some documents) \<Rightarrow>
          (if errors \<noteq> [] then errors
           else let (identities, identity_errors) = manifest_identities documents
                in secret_safety_errors documents @ identity_errors @
                   (if selected_identity_present selected identities then []
                    else [''selected live resource is not declared by this manifest source''])))"

record edit_validation =
  edit_valid :: bool
  edit_changed :: bool
  source_sha256 :: string
  desired_sha256 :: string
  edit_diff :: string
  edit_errors :: "string list"

definition manifest_sha256 :: "text_lib \<Rightarrow> string \<Rightarrow> string" where
  "manifest_sha256 Y content = ''sha256:'' @ sha256_hex Y content"

definition edit_document_errors :: "manifest_id \<Rightarrow> json list \<Rightarrow> json list \<Rightarrow> string list" where
  \<comment> \<open>the checks made once both sides parse and hold no secret\<close>
  "edit_document_errors selected source_documents desired_documents =
     (let (source_identities, source_identity_errors) = manifest_identities source_documents;
          (desired_identities, desired_identity_errors) = manifest_identities desired_documents
      in source_identity_errors @ desired_identity_errors @
         (if set source_identities \<noteq> set desired_identities
          then [''resource identities cannot be added, removed, or renamed''] else []) @
         (if selected_identity_present selected source_identities then []
          else [''selected live resource is not declared by this manifest source'']) @
         server_owned_field_errors source_documents desired_documents)"

definition option_errors :: "json list option \<Rightarrow> string list" where
  "option_errors documents = (case documents of None \<Rightarrow> [] | Some ds \<Rightarrow> secret_safety_errors ds)"

definition validate_manifest_edit ::
  "text_lib \<Rightarrow> (string \<Rightarrow> string \<Rightarrow> string) \<Rightarrow> string \<Rightarrow> string \<Rightarrow> manifest_id \<Rightarrow> edit_validation" where
  "validate_manifest_edit Y unified_diff source desired selected =
     (let (source_errors, source_documents) = parse_documents Y source ''source'';
          (desired_errors, desired_documents) = parse_documents Y desired ''edited'';
          errors = source_errors @ desired_errors
                   @ option_errors source_documents @ option_errors desired_documents;
          errors = (case (source_documents, desired_documents) of
                      (Some sd, Some dd) \<Rightarrow>
                        if errors = [] then edit_document_errors selected sd dd else errors
                    | _ \<Rightarrow> errors);
          changed = (source \<noteq> desired);
          errors = errors @ (if changed then [] else [''manifest has no changes'']);
          safe_to_render = (\<not> list_ex (\<lambda>e. sublist ''secret'' (py_casefold e)) errors);
          rendered_diff = (if safe_to_render \<and> changed then unified_diff source desired else [])
      in \<lparr>edit_valid = (errors = []), edit_changed = changed,
          source_sha256 = manifest_sha256 Y source, desired_sha256 = manifest_sha256 Y desired,
          edit_diff = (if errors = [] then rendered_diff else []),
          edit_errors = py_dedup errors\<rparr>)"

subsection \<open>Secrets\<close>

fun submappings :: "json \<Rightarrow> jdict list"
and submappings_pairs :: "jdict \<Rightarrow> jdict list"
and submappings_items :: "json list \<Rightarrow> jdict list" where
  \<comment> \<open>all mappings inside a value, at every depth\<close>
  "submappings (JDict d) = d # submappings_pairs d"
| "submappings (JList items) = submappings_items items"
| "submappings _ = []"
| "submappings_pairs [] = []"
| "submappings_pairs ((_, child) # rest) = submappings child @ submappings_pairs rest"
| "submappings_items [] = []"
| "submappings_items (item # rest) = submappings item @ submappings_items rest"

definition exposes_secret :: "jdict \<Rightarrow> bool" where
  \<comment> \<open>a mapping that pairs a credential name with a literal, in either of the two notations\<close>
  "exposes_secret d \<longleftrightarrow>
     sensitive_env d \<or> (\<exists>(k, v) \<in> set d. sensitive_key k \<and> \<not> blank v \<and> \<not> is_container v)"

lemma contains_sensitive_literal_iff:
  "contains_sensitive_literal v \<longleftrightarrow> (\<exists>d \<in> set (submappings v). exposes_secret d)"
  "contains_sensitive_pair d \<longleftrightarrow>
     (\<exists>(k, v) \<in> set d. sensitive_key k \<and> \<not> blank v \<and> \<not> is_container v)
     \<or> (\<exists>d' \<in> set (submappings_pairs d). exposes_secret d')"
  "contains_sensitive_item vs \<longleftrightarrow> (\<exists>d \<in> set (submappings_items vs). exposes_secret d)"
proof (induction v and d and vs
    rule: contains_sensitive_literal_contains_sensitive_pair_contains_sensitive_item.induct)
  case (1 d)
  then show ?case by (simp add: exposes_secret_def [of d])
next
  case (5 raw_key child rest)
  then show ?case by (simp add: bex_Un) blast
qed (simp_all add: bex_Un)

definition resource_safe :: "jdict \<Rightarrow> bool" where
  "resource_safe r \<longleftrightarrow>
     py_casefold (kind_text r) \<noteq> ''secret'' \<and> (\<forall>d \<in> set (submappings (JDict r)). \<not> exposes_secret d)"

lemma first_secret_error_empty: "first_secret_error rs = [] \<longleftrightarrow> (\<forall>r \<in> set rs. resource_safe r)"
  by (induction rs) (auto simp: resource_safe_def contains_sensitive_literal_iff simp del: submappings.simps)

lemma secret_safety_errors_empty:
  "secret_safety_errors ds = [] \<longleftrightarrow> (\<forall>r \<in> set (all_resources ds). resource_safe r)"
  by (simp add: secret_safety_errors_def first_secret_error_empty)

subsection \<open>Identities and server-owned fields\<close>

lemma manifest_identities_ok:
  assumes "manifest_identities ds = (ids, [])"
  shows "ids = map (\<lambda>r. the (manifest_identity r)) (all_resources ds)"
    and "\<forall>r \<in> set (all_resources ds). manifest_identity r \<noteq> None" and "distinct ids"
  using assms
  by (auto simp: manifest_identities_def Let_def filter_empty_conv List.map_filter_def o_def
      filter_id_conv split: if_splits)

lemma map_of_resource_fold:
  assumes "distinct (map manifest_identity rs)" and "r \<in> set rs" and "manifest_identity r = Some i"
  shows "map_of (foldl (\<lambda>m r. case manifest_identity r of None \<Rightarrow> m | Some i \<Rightarrow> AList.update i r m) acc rs) i
    = Some r"
  using assms
proof (induction rs arbitrary: acc rule: rev_induct)
  case (snoc x rs)
  then show ?case by (cases "x = r") (auto simp: update_conv' rev_image_eqI split: option.splits)
qed simp

lemma distinct_identities:
  assumes "manifest_identities ds = (ids, [])"
  shows "distinct (map manifest_identity (all_resources ds))"
proof -
  note ok = manifest_identities_ok [OF assms]
  then have "map manifest_identity (all_resources ds) = map Some ids" by auto
  with ok(3) show ?thesis by (simp add: distinct_map)
qed

lemma resource_map_lookup:
  assumes "manifest_identities ds = (ids, [])" and "r \<in> set (all_resources ds)"
    and "manifest_identity r = Some i"
  shows "map_of (resource_map ds) i = Some r"
  using map_of_resource_fold [OF distinct_identities [OF assms(1)] assms(2,3)]
  by (simp add: resource_map_def)

definition server_fields_kept :: "jdict \<Rightarrow> jdict \<Rightarrow> bool" where
  "server_fields_kept r r' \<longleftrightarrow>
     py_eq (dget r ''status'') (dget r' ''status'')
     \<and> (\<forall>m m'. dget r ''metadata'' = JDict m \<longrightarrow> dget r' ''metadata'' = JDict m' \<longrightarrow>
           (\<forall>f \<in> set SERVER_OWNED_METADATA. py_eq (dget m f) (dget m' f)))"

lemma server_owned_change_None: "server_owned_change r r' = None \<longleftrightarrow> server_fields_kept r r'"
proof -
  have "as_dict v = Some d \<longleftrightarrow> v = JDict d" "as_dict v = None \<longleftrightarrow> (\<forall>d. v \<noteq> JDict d)" for v d
    by (cases v; simp add: as_dict_def)+
  then show ?thesis
    unfolding server_owned_change_def server_fields_kept_def list_ex_iff
    by (simp split: option.split)
qed

lemma server_owned_loop_empty:
  "server_owned_loop sm dm = [] \<Longrightarrow> map_of sm i = Some r \<Longrightarrow> map_of dm i = Some r' \<Longrightarrow>
   server_fields_kept r r'"
  by (induction sm dm rule: server_owned_loop.induct)
    (auto simp: server_owned_change_None split: option.splits if_splits)

subsection \<open>What a valid edit guarantees\<close>

definition edit_is_safe :: "manifest_id \<Rightarrow> json list \<Rightarrow> json list \<Rightarrow> bool" where
  "edit_is_safe selected sd dd \<longleftrightarrow>
     (\<forall>r \<in> set (all_resources sd) \<union> set (all_resources dd).
        resource_safe r \<and> manifest_identity r \<noteq> None)
     \<and> distinct (map manifest_identity (all_resources sd))
     \<and> distinct (map manifest_identity (all_resources dd))
     \<and> manifest_identity ` set (all_resources sd) = manifest_identity ` set (all_resources dd)
     \<and> selected_identity_present selected (map (\<lambda>r. the (manifest_identity r)) (all_resources sd))
     \<and> (\<forall>r \<in> set (all_resources sd). \<forall>r' \<in> set (all_resources dd).
          manifest_identity r = manifest_identity r' \<longrightarrow> server_fields_kept r r')"

lemma edit_document_errors_empty:
  assumes "edit_document_errors selected sd dd = []"
    and "secret_safety_errors sd = []" and "secret_safety_errors dd = []"
  shows "edit_is_safe selected sd dd"
proof -
  obtain si di where si: "manifest_identities sd = (si, [])" and di: "manifest_identities dd = (di, [])"
    and eq: "set si = set di" and sel: "selected_identity_present selected si"
    and server: "server_owned_field_errors sd dd = []"
    using assms(1) by (auto simp: edit_document_errors_def split: prod.splits if_splits)
  note s = manifest_identities_ok [OF si] and d = manifest_identities_ok [OF di]
  have img: "manifest_identity ` set (all_resources ds) = Some ` set ids"
    if "manifest_identities ds = (ids, [])" for ds ids
    using manifest_identities_ok [OF that] by (force simp: image_image)
  have kept: "server_fields_kept r r'"
    if r: "r \<in> set (all_resources sd)" "r' \<in> set (all_resources dd)" "manifest_identity r = manifest_identity r'" for r r'
  proof -
    obtain i where "manifest_identity r = Some i" using s(2) r(1) by auto
    then show ?thesis
      using server_owned_loop_empty resource_map_lookup [OF si r(1)] resource_map_lookup [OF di r(2)] r(3) server
      unfolding server_owned_field_errors_def by metis
  qed
  show ?thesis
    unfolding edit_is_safe_def
    using s(2) d(2) distinct_identities [OF si] distinct_identities [OF di] img [OF si] img [OF di] eq sel
      kept assms(2,3) by (auto simp: secret_safety_errors_empty s(1))
qed

lemma parse_documents_Some:
  assumes "parse_documents Y content label = (es, Some ds)"
  shows "es = []" and "utf8_length content \<le> MAX_MANIFEST_BYTES" and "alias_free Y content"
    and "\<exists>all. yaml_safe_load_all Y content = Some all \<and> ds = filter (\<lambda>d. d \<noteq> JNull) all"
    and "ds \<noteq> []" and "length ds \<le> MAX_DOCUMENTS"
  using assms
  by (auto simp: parse_documents_def Let_def alias_free_iff split: if_splits option.splits bool.splits)

lemma parse_documents_None: "parse_documents Y content label = (es, None) \<Longrightarrow> es \<noteq> []"
  by (auto simp: parse_documents_def Let_def split: if_splits option.splits bool.splits)

lemma edit_valid_documents:
  assumes "edit_valid (validate_manifest_edit Y ud source desired selected)"
  shows "\<exists>sd dd. parse_documents Y source ''source'' = ([], Some sd)
    \<and> parse_documents Y desired ''edited'' = ([], Some dd)
    \<and> secret_safety_errors sd = [] \<and> secret_safety_errors dd = []
    \<and> edit_document_errors selected sd dd = [] \<and> source \<noteq> desired"
proof -
  obtain es sd ed dd where ps: "parse_documents Y source ''source'' = (es, sd)"
    and pd: "parse_documents Y desired ''edited'' = (ed, dd)" by fastforce
  show ?thesis
    using assms parse_documents_None [of Y source "''source''"] parse_documents_None [of Y desired "''edited''"]
    by (cases sd; cases dd)
      (auto simp: validate_manifest_edit_def ps pd Let_def option_errors_def split: if_splits)
qed


definition sample_deployment :: "int \<Rightarrow> json" where
  "sample_deployment replicas =
     JDict [(''apiVersion'', JStr ''apps/v1''), (''kind'', JStr ''Deployment''),
            (''metadata'', JDict [(''name'', JStr ''web''), (''uid'', JStr ''u1'')]),
            (''spec'', JDict [(''replicas'', JInt replicas)])]"

definition editor_lib :: text_lib where
  \<comment> \<open>a parser for two one-letter texts\<close>
  "editor_lib =
     \<lparr>yaml_scan = (\<lambda>_. ([False], False)), yaml_compose_all = (\<lambda>_. None),
      yaml_safe_load_all = (\<lambda>t. Some [sample_deployment (if t = ''a'' then 2 else 3)]),
      yaml_safe_load = (\<lambda>_. None), yaml_safe_dump = (\<lambda>_. []), json_loads = (\<lambda>_. None), sha256_hex = id\<rparr>"

definition sample_id :: manifest_id where
  "sample_id = \<lparr>api_version = ''apps/v1'', id_kind = ''deployment'', id_namespace = Some ''shop'', id_name = ''web''\<rparr>"

lemma sample_edit_valid: "edit_valid (validate_manifest_edit editor_lib (@) ''a'' ''b'' sample_id)"
  by code_simp




text \<open>
  Only one level of \<^verbatim>\<open>List\<close> is opened: a Secret inside a list inside a list is not recognised.
\<close>

lemma nested_list_hides_secret:
  "secret_safety_errors
     [JDict [(''kind'', JStr ''List''), (''items'', JList
        [JDict [(''kind'', JStr ''List''), (''items'', JList
           [JDict [(''kind'', JStr ''Secret''), (''data'', JDict [(''cert'', JStr ''c2VjcmV0'')])]])]])]] = []"
  by code_simp

end
