(* ===== verification/Source_Patch.thy ===== *)
theory Source_Patch
  imports Path_Writes Text_Splice Remediation_Source Manifest_Validation
begin

section \<open>Patching a manifest source without reserialising it\<close>

text \<open>
  \<^verbatim>\<open>src/src/domains/gitops/source_patch.py\<close>: a remediation plan names scalars of an approved manifest
  with their current and desired values and carries its own rollback. The plan is validated, the
  scalars are found in the parsed YAML tree, their character spans are replaced in the text, and
  the result is accepted only if it parses to exactly the expected object.
\<close>

definition RAW_JSON :: string where
  "RAW_JSON = ''raw-json''"

definition RAW_YAML :: string where
  "RAW_YAML = ''raw-yaml''"

definition IMAGE_PATCH_API_VERSION :: string where
  "IMAGE_PATCH_API_VERSION = ''gitops.krafton.dev/v1alpha1''"

definition IMAGE_PATCH_KIND :: string where
  "IMAGE_PATCH_KIND = ''GitOpsImagePatch''"

definition SCALAR_PATCH_API_VERSION :: string where
  "SCALAR_PATCH_API_VERSION = ''gitops.krafton.dev/v1alpha1''"

definition SCALAR_PATCH_KIND :: string where
  "SCALAR_PATCH_KIND = ''GitOpsScalarPatch''"

definition CONTAINER_LIST_KEYS :: "string list" where
  "CONTAINER_LIST_KEYS = [''containers'', ''initContainers'', ''ephemeralContainers'']"

record image_replacement =
  container_name :: string
  current_image :: string
  previous_image :: string

record image_plan =
  ip_source_type :: string
  ip_source_manifest_sha256 :: string
  ip_expected_base_sha :: string
  ip_manifest_path :: string
  ip_replacements :: "image_replacement list"

record scalar_replacement =
  field_path :: string
  current_value :: json
  desired_value :: json

record scalar_plan =
  action_type :: string
  sp_source_type :: string
  sp_source_manifest_sha256 :: string
  sp_expected_base_sha :: string
  sp_manifest_path :: string
  replacements :: "scalar_replacement list"
  rollback_replacements :: "scalar_replacement list"

record declared_patch =
  dp_source_type :: string
  dp_source_path :: string
  dp_replacements :: "scalar_replacement list"
  document_identity :: "manifest_id option"

subsection \<open>Validation of a plan\<close>

definition sha256_text :: "string \<Rightarrow> bool" where
  \<comment> \<open>\<^verbatim>\<open>re.fullmatch(r"sha256:[0-9a-f]{64}", s)\<close>\<close>
  "sha256_text s \<longleftrightarrow> prefix ''sha256:'' s \<and> length s = 71 \<and> list_all is_lower_hex (drop 7 s)"

definition commit_text :: "string \<Rightarrow> bool" where
  \<comment> \<open>\<^verbatim>\<open>re.fullmatch(r"[0-9a-f]{40,64}", s)\<close>\<close>
  "commit_text s \<longleftrightarrow> 40 \<le> length s \<and> length s \<le> 64 \<and> list_all is_lower_hex s"

definition safe_manifest_path :: "string \<Rightarrow> bool" where
  "safe_manifest_path v \<longleftrightarrow>
     v \<noteq> [] \<and> \<not> prefix ''/'' v \<and> CHR 0x5C \<notin> set v \<and> ''..'' \<notin> set (posix_parts v)"

definition same_scalar :: "json \<Rightarrow> json \<Rightarrow> bool" where
  "same_scalar left right \<longleftrightarrow> type_tag left = type_tag right \<and> py_eq left right"

definition memory_quantity_bytes :: "json \<Rightarrow> int option" where
  "memory_quantity_bytes value =
     (case value of
        JStr s \<Rightarrow>
          (let digits = takeWhile is_digit s; unit = dropWhile is_digit s
           in if digits = [] then None
              else if unit = ''Ki'' then Some (int (digits_value 0 digits) * 1024)
              else if unit = ''Mi'' then Some (int (digits_value 0 digits) * 1024 ^ 2)
              else if unit = ''Gi'' then Some (int (digits_value 0 digits) * 1024 ^ 3)
              else None)
      | _ \<Rightarrow> None)"

definition memory_increases_within_cap :: "json \<Rightarrow> json \<Rightarrow> bool" where
  "memory_increases_within_cap current desired =
     (case (memory_quantity_bytes current, memory_quantity_bytes desired) of
        (Some c, Some d) \<Rightarrow> c < d \<and> d \<le> 4 * 1024 ^ 3
      | _ \<Rightarrow> False)"

definition nonblank_text :: "json \<Rightarrow> bool" where
  "nonblank_text v = (case v of JStr s \<Rightarrow> py_strip s \<noteq> [] | _ \<Rightarrow> False)"

definition int_between :: "int \<Rightarrow> json \<Rightarrow> json \<Rightarrow> int \<Rightarrow> bool" where
  \<comment> \<open>\<^verbatim>\<open>type(c) is int and type(d) is int and lo <= c < d <= hi\<close>\<close>
  "int_between lo c d hi =
     (case (c, d) of (JInt i, JInt j) \<Rightarrow> lo \<le> i \<and> i < j \<and> j \<le> hi | _ \<Rightarrow> False)"

definition action_allows_replacement :: "string \<Rightarrow> scalar_replacement \<Rightarrow> bool" where
  "action_allows_replacement action item =
     (let path = field_path item; current = current_value item; desired = desired_value item in
      if action = ''image_rollback'' \<or> action = ''image_tag_fix'' then
        suffix ''.image'' path \<and> nonblank_text current \<and> nonblank_text desired
      else if action = ''replica_scale'' then
        path = ''spec.replicas'' \<and> int_between 1 current desired 10
      else if action = ''oom_memory'' then
        (suffix ''.resources.requests.memory'' path \<or> suffix ''.resources.limits.memory'' path)
        \<and> memory_increases_within_cap current desired
      else if action = ''probe_fix'' then
        (if suffix ''.timeoutSeconds'' path then int_between 1 current desired 30
         else if suffix ''.httpGet.port'' path then
           (case desired of JInt j \<Rightarrow> 1 \<le> j \<and> j \<le> 65535 | _ \<Rightarrow> False)
         else if suffix ''.httpGet.path'' path then
           (case desired of JStr s \<Rightarrow> prefix ''/'' s | _ \<Rightarrow> False)
         else False)
      else if action = ''selector_fix'' then
        (prefix ''spec.selector.matchLabels.'' path \<or> prefix ''spec.template.metadata.labels.'' path)
        \<and> nonblank_text current \<and> nonblank_text desired
      else False)"

definition ACTION_TYPES :: "string list" where
  "ACTION_TYPES =
     [''oom_memory'', ''image_rollback'', ''image_tag_fix'', ''replica_scale'', ''probe_fix'', ''selector_fix'']"

definition rollback_by_path :: "scalar_replacement list \<Rightarrow> (string \<times> scalar_replacement) list" where
  "rollback_by_path items = rev (map (\<lambda>i. (field_path i, i)) items)"

definition exact_inverse :: "string \<Rightarrow> scalar_replacement list \<Rightarrow> scalar_replacement \<Rightarrow> bool" where
  \<comment> \<open>the negation of the condition of the last loop\<close>
  "exact_inverse action rollbacks item \<longleftrightarrow>
     field_path_segments (field_path item) \<noteq> []
     \<and> scalar_value (current_value item) \<and> scalar_value (desired_value item)
     \<and> \<not> same_scalar (current_value item) (desired_value item)
     \<and> (case map_of (rollback_by_path rollbacks) (field_path item) of
          None \<Rightarrow> False
        | Some rb \<Rightarrow> same_scalar (current_value rb) (desired_value item)
                   \<and> same_scalar (desired_value rb) (current_value item))
     \<and> action_allows_replacement action item"

definition validate_image_patch_plan :: "image_plan \<Rightarrow> patch_error + unit" where
  "validate_image_patch_plan plan =
     (if ip_source_type plan \<noteq> RAW_YAML \<or> \<not> sha256_text (ip_source_manifest_sha256 plan)
         \<or> \<not> commit_text (ip_expected_base_sha plan) \<or> \<not> safe_manifest_path (ip_manifest_path plan)
         \<or> length (ip_replacements plan) \<noteq> 1
      then Inl (ManifestSourcePatchError ''structured image patch metadata is incomplete'')
      else let r = hd (ip_replacements plan) in
        if container_name r = [] \<or> current_image r = [] \<or> previous_image r = []
           \<or> current_image r = previous_image r
        then Inl (ManifestSourcePatchError ''structured image patch metadata is incomplete'')
        else Inr ())"

definition validate_scalar_patch_plan :: "scalar_plan \<Rightarrow> patch_error + unit" where
  "validate_scalar_patch_plan plan =
     (if action_type plan \<notin> set ACTION_TYPES \<or> sp_source_type plan \<noteq> RAW_YAML
         \<or> \<not> sha256_text (sp_source_manifest_sha256 plan)
         \<or> \<not> commit_text (sp_expected_base_sha plan) \<or> \<not> safe_manifest_path (sp_manifest_path plan)
         \<or> \<not> (1 \<le> length (replacements plan) \<and> length (replacements plan) \<le> 4)
         \<or> length (rollback_replacements plan) \<noteq> length (replacements plan)
      then Inl (ManifestSourcePatchError ''structured scalar patch metadata is incomplete'')
      else if \<not> distinct (map field_path (replacements plan))
      then Inl (ManifestSourcePatchError ''structured scalar patch target is duplicated'')
      else if \<not> distinct (map field_path (rollback_replacements plan))
      then Inl (ManifestSourcePatchError ''structured scalar rollback is not an exact inverse'')
      else if \<not> list_all (exact_inverse (action_type plan) (rollback_replacements plan)) (replacements plan)
      then Inl (ManifestSourcePatchError ''structured scalar rollback is not an exact inverse'')
      else Inr ())"

subsection \<open>Instruction documents\<close>

definition image_plan_payload :: "image_plan \<Rightarrow> json" where
  "image_plan_payload plan =
     JDict [(''apiVersion'', JStr IMAGE_PATCH_API_VERSION), (''kind'', JStr IMAGE_PATCH_KIND),
       (''spec'', JDict
         [(''sourceType'', JStr (ip_source_type plan)),
          (''sourceManifestSha256'', JStr (ip_source_manifest_sha256 plan)),
          (''expectedBaseSha'', JStr (ip_expected_base_sha plan)),
          (''manifestPath'', JStr (ip_manifest_path plan)),
          (''replacements'', JList (map (\<lambda>item. JDict
             [(''containerName'', JStr (container_name item)),
              (''currentImage'', JStr (current_image item)),
              (''previousImage'', JStr (previous_image item))]) (ip_replacements plan)))])]"

definition image_patch_content :: "text_lib \<Rightarrow> image_plan \<Rightarrow> patch_error + string" where
  "image_patch_content Y plan =
     bindE (validate_image_patch_plan plan) (\<lambda>_. Inr (yaml_safe_dump Y (image_plan_payload plan)))"

definition scalar_replacement_body :: "scalar_replacement \<Rightarrow> json" where
  "scalar_replacement_body item =
     JDict [(''fieldPath'', JStr (field_path item)), (''currentValue'', current_value item),
            (''desiredValue'', desired_value item)]"

definition scalar_plan_payload :: "scalar_plan \<Rightarrow> json" where
  "scalar_plan_payload plan =
     JDict [(''apiVersion'', JStr SCALAR_PATCH_API_VERSION), (''kind'', JStr SCALAR_PATCH_KIND),
       (''spec'', JDict
         [(''actionType'', JStr (action_type plan)),
          (''sourceType'', JStr (sp_source_type plan)),
          (''sourceManifestSha256'', JStr (sp_source_manifest_sha256 plan)),
          (''expectedBaseSha'', JStr (sp_expected_base_sha plan)),
          (''manifestPath'', JStr (sp_manifest_path plan)),
          (''replacements'', JList (map scalar_replacement_body (replacements plan))),
          (''rollbackReplacements'', JList (map scalar_replacement_body (rollback_replacements plan)))])]"

definition scalar_patch_content :: "text_lib \<Rightarrow> scalar_plan \<Rightarrow> patch_error + string" where
  "scalar_patch_content Y plan =
     bindE (validate_scalar_patch_plan plan) (\<lambda>_. Inr (yaml_safe_dump Y (scalar_plan_payload plan)))"

definition text_or_empty :: "json \<Rightarrow> string" where
  \<comment> \<open>\<^verbatim>\<open>v if isinstance(v, str) else ""\<close>\<close>
  "text_or_empty v = (case v of JStr s \<Rightarrow> s | _ \<Rightarrow> [])"

definition image_document_invalid :: patch_error where
  "image_document_invalid = ManifestSourcePatchError ''structured image patch document is invalid''"

definition scalar_document_invalid :: patch_error where
  "scalar_document_invalid = ManifestSourcePatchError ''structured scalar patch document is invalid''"

definition parse_image_replacement :: "json \<Rightarrow> patch_error + image_replacement" where
  "parse_image_replacement raw =
     (case as_dict raw of
        None \<Rightarrow> Inl image_document_invalid
      | Some d \<Rightarrow>
          (if \<not> keys_are d [''containerName'', ''currentImage'', ''previousImage'']
              \<or> \<not> list_all (\<lambda>(k, v). is_str v) d then Inl image_document_invalid
           else Inr \<lparr>container_name = text_or_empty (dget d ''containerName''),
                     current_image = text_or_empty (dget d ''currentImage''),
                     previous_image = text_or_empty (dget d ''previousImage'')\<rparr>))"

definition parse_image_patch_plan :: "text_lib \<Rightarrow> string \<Rightarrow> patch_error + image_plan option" where
  "parse_image_patch_plan Y content =
     (case yaml_safe_load Y content of
        None \<Rightarrow> Inl image_document_invalid
      | Some value \<Rightarrow>
     (case as_dict value of
        None \<Rightarrow> Inr None
      | Some payload \<Rightarrow>
      if \<not> py_eq (dget payload ''kind'') (JStr IMAGE_PATCH_KIND) then Inr None
      else if \<not> py_eq (dget payload ''apiVersion'') (JStr IMAGE_PATCH_API_VERSION)
              \<or> \<not> keys_are payload [''apiVersion'', ''kind'', ''spec''] then Inl image_document_invalid
      else case as_dict (dget payload ''spec'') of
        None \<Rightarrow> Inl image_document_invalid
      | Some spec \<Rightarrow>
      if \<not> keys_are spec [''sourceType'', ''sourceManifestSha256'', ''expectedBaseSha'', ''manifestPath'',
                        ''replacements''] then Inl image_document_invalid
      else case as_list (dget spec ''replacements'') of
        None \<Rightarrow> Inl image_document_invalid
      | Some raw_replacements \<Rightarrow>
          bindE (mapE parse_image_replacement raw_replacements) (\<lambda>rs.
          let plan = \<lparr>ip_source_type = text_or_empty (dget spec ''sourceType''),
                      ip_source_manifest_sha256 = text_or_empty (dget spec ''sourceManifestSha256''),
                      ip_expected_base_sha = text_or_empty (dget spec ''expectedBaseSha''),
                      ip_manifest_path = text_or_empty (dget spec ''manifestPath''),
                      ip_replacements = rs\<rparr>
          in bindE (validate_image_patch_plan plan) (\<lambda>_. Inr (Some plan)))))"

definition parse_scalar_replacement :: "json \<Rightarrow> patch_error + scalar_replacement" where
  "parse_scalar_replacement raw =
     (case as_dict raw of
        None \<Rightarrow> Inl scalar_document_invalid
      | Some d \<Rightarrow>
          (if \<not> keys_are d [''fieldPath'', ''currentValue'', ''desiredValue'']
              \<or> \<not> is_str (dget d ''fieldPath'') \<or> \<not> scalar_value (dget d ''currentValue'')
              \<or> \<not> scalar_value (dget d ''desiredValue'') then Inl scalar_document_invalid
           else Inr \<lparr>field_path = text_or_empty (dget d ''fieldPath''),
                     current_value = dget d ''currentValue'', desired_value = dget d ''desiredValue''\<rparr>))"

definition parse_scalar_replacements :: "json \<Rightarrow> patch_error + scalar_replacement list" where
  "parse_scalar_replacements value =
     (case as_list value of
        None \<Rightarrow> Inl scalar_document_invalid
      | Some raws \<Rightarrow> mapE parse_scalar_replacement raws)"

definition scalar_text_keys :: "string list" where
  "scalar_text_keys = [''actionType'', ''sourceType'', ''sourceManifestSha256'', ''expectedBaseSha'', ''manifestPath'']"

definition parse_scalar_patch_plan :: "text_lib \<Rightarrow> string \<Rightarrow> patch_error + scalar_plan option" where
  "parse_scalar_patch_plan Y content =
     (case yaml_safe_load Y content of
        None \<Rightarrow> Inl scalar_document_invalid
      | Some value \<Rightarrow>
     (case as_dict value of
        None \<Rightarrow> Inr None
      | Some payload \<Rightarrow>
      if \<not> py_eq (dget payload ''kind'') (JStr SCALAR_PATCH_KIND) then Inr None
      else if \<not> py_eq (dget payload ''apiVersion'') (JStr SCALAR_PATCH_API_VERSION)
              \<or> \<not> keys_are payload [''apiVersion'', ''kind'', ''spec''] then Inl scalar_document_invalid
      else case as_dict (dget payload ''spec'') of
        None \<Rightarrow> Inl scalar_document_invalid
      | Some spec \<Rightarrow>
      if \<not> keys_are spec (scalar_text_keys @ [''replacements'', ''rollbackReplacements''])
      then Inl scalar_document_invalid
      else
        bindE (parse_scalar_replacements (dget spec ''replacements'')) (\<lambda>rs.
        bindE (parse_scalar_replacements (dget spec ''rollbackReplacements'')) (\<lambda>rollback.
        let plan = \<lparr>action_type = text_or_empty (dget spec ''actionType''),
                    sp_source_type = text_or_empty (dget spec ''sourceType''),
                    sp_source_manifest_sha256 = text_or_empty (dget spec ''sourceManifestSha256''),
                    sp_expected_base_sha = text_or_empty (dget spec ''expectedBaseSha''),
                    sp_manifest_path = text_or_empty (dget spec ''manifestPath''),
                    replacements = rs, rollback_replacements = rollback\<rparr>
        in if \<not> list_all (\<lambda>k. is_str (dget spec k)) scalar_text_keys then Inl scalar_document_invalid
           else bindE (validate_scalar_patch_plan plan) (\<lambda>_. Inr (Some plan))))))"

subsection \<open>Encoding a scalar in the style of its node\<close>

definition single_quoted :: "string \<Rightarrow> string" where
  \<comment> \<open>\<^verbatim>\<open>f"'{value.replace(chr(39), chr(39) * 2)}'"\<close>\<close>
  "single_quoted v = CHR 0x27 # concat (map (\<lambda>c. if c = CHR 0x27 then [c, c] else [c]) v) @ [CHR 0x27]"

definition json_scalar_text :: "json \<Rightarrow> patch_error + string" where
  \<comment> \<open>\<^verbatim>\<open>json.dumps(v, ensure_ascii=False, allow_nan=False)\<close> of a \<^verbatim>\<open>ScalarValue\<close> that is no text;
      the type excludes lists and mappings\<close>
  "json_scalar_text v =
     (case v of
        JNull \<Rightarrow> Inr ''null''
      | JBool b \<Rightarrow> Inr (if b then ''true'' else ''false'')
      | JInt i \<Rightarrow> Inr (int_str i)
      | JFloat (Fin _) txt \<Rightarrow> Inr txt
      | JFloat _ _ \<Rightarrow> Inl (PyError ValueError)
      | _ \<Rightarrow> Inl (PyError TypeError))"

definition encoded_scalar_value :: "text_lib \<Rightarrow> char option \<Rightarrow> json \<Rightarrow> patch_error + string" where
  "encoded_scalar_value Y st value =
     (case value of
        JStr s \<Rightarrow>
          (if st = Some CHR 0x27 then Inr (single_quoted s)
           else if st = Some CHR 0x22 then Inr (json_str s)
           else if st = None \<and> CHR 0x0A \<notin> set s \<and>
                   (case yaml_safe_load Y s of Some v \<Rightarrow> py_eq v value | None \<Rightarrow> False)
           then Inr s
           else Inr (json_str s))
      | _ \<Rightarrow>
          (if st \<noteq> None then
             Inl (ManifestSourcePatchError ''manifest scalar style is not patchable'')
           else json_scalar_text value))"

definition plain_image :: "string \<Rightarrow> bool" where
  \<comment> \<open>\<^verbatim>\<open>PLAIN_IMAGE_PATTERN.fullmatch\<close>\<close>
  "plain_image s \<longleftrightarrow> s \<noteq> [] \<and> is_alnum (hd s) \<and> list_all (\<lambda>c. is_alnum c \<or> c \<in> set ''._/@:+-'') (tl s)"

definition encoded_scalar :: "char option \<Rightarrow> string \<Rightarrow> patch_error + string" where
  "encoded_scalar st value =
     (if st = None \<and> plain_image value then Inr value
      else if st = Some CHR 0x27 then Inr (single_quoted value)
      else if st = Some CHR 0x22 then Inr (json_str value)
      else Inl (ManifestSourcePatchError ''manifest image scalar style is not patchable''))"

subsection \<open>Materialising a plan\<close>

definition canonical_manifest_digest :: "text_lib \<Rightarrow> jdict \<Rightarrow> string" where
  "canonical_manifest_digest Y value = ''sha256:'' @ sha256_hex Y (json_dumps_sorted (JDict value))"

definition parse_single_manifest :: "text_lib \<Rightarrow> string \<Rightarrow> string \<Rightarrow> patch_error + jdict" where
  "parse_single_manifest Y source source_type =
     (if source_type \<noteq> RAW_JSON \<and> source_type \<noteq> RAW_YAML then
        Inl (ManifestSourcePatchError ''unsupported manifest source type'')
      else bindE
        (if source_type = RAW_JSON then
           (case json_loads Y source of
              None \<Rightarrow> Inl (ManifestSourcePatchError ''manifest source is invalid'')
            | Some v \<Rightarrow> Inr v)
         else
           (case yaml_safe_load_all Y source of
              None \<Rightarrow> Inl (ManifestSourcePatchError ''manifest source is invalid'')
            | Some [v] \<Rightarrow> Inr v
            | Some _ \<Rightarrow> Inl (ManifestSourcePatchError ''manifest source must contain one document'')))
        (\<lambda>value. case as_dict value of
           None \<Rightarrow> Inl (ManifestSourcePatchError ''manifest source must be one object'')
         | Some d \<Rightarrow> Inr d))"

definition compose_single :: "text_lib \<Rightarrow> string \<Rightarrow> patch_error + (node \<times> node) list" where
  \<comment> \<open>the alias test and \<^verbatim>\<open>yaml.compose_all\<close> of a source that must be one mapping\<close>
  "compose_single Y source =
     (case scan_any Y source of
        None \<Rightarrow> Inl (ManifestSourcePatchError ''manifest source is invalid'')
      | Some True \<Rightarrow> Inl (ManifestSourcePatchError ''manifest anchors and aliases are not patchable'')
      | Some False \<Rightarrow>
     (case yaml_compose_all Y source of
        None \<Rightarrow> Inl (ManifestSourcePatchError ''manifest source is invalid'')
      | Some [MappingNode kvs] \<Rightarrow> Inr kvs
      | Some _ \<Rightarrow> Inl (ManifestSourcePatchError ''manifest source must contain one object'')))"

definition overlaps :: "span list \<Rightarrow> bool" where
  \<comment> \<open>\<^verbatim>\<open>len({(start, end) for start, end, _ in spans}) != len(spans)\<close>\<close>
  "overlaps spans \<longleftrightarrow> \<not> distinct (map span_range spans)"

type_synonym patch_state = "json \<times> span list"

definition scalar_span ::
  "text_lib \<Rightarrow> string \<Rightarrow> (node \<times> node) list \<Rightarrow> segment list \<Rightarrow> json \<Rightarrow> patch_error + span" where
  \<comment> \<open>the node at a path, which must be a scalar, and its replacement text\<close>
  "scalar_span Y not_scalar kvs segments desired =
     bindE (node_value_at (MappingNode kvs) segments) (\<lambda>node.
       case node of
         ScalarNode _ st start_index end_index \<Rightarrow>
           bindE (encoded_scalar_value Y st desired) (\<lambda>encoded. Inr (start_index, end_index, encoded))
       | _ \<Rightarrow> Inl (ManifestSourcePatchError not_scalar))"

definition scalar_step ::
  "text_lib \<Rightarrow> jdict \<Rightarrow> (node \<times> node) list \<Rightarrow> scalar_replacement \<Rightarrow> patch_state \<Rightarrow> patch_error + patch_state" where
  \<comment> \<open>one round of the loop of \<^verbatim>\<open>_materialize_scalar_replacements\<close>\<close>
  "scalar_step Y original kvs r st =
     (let segments = field_path_segments (field_path r) in
      bindE (object_value_at (JDict original) segments) (\<lambda>current.
      if \<not> same_scalar current (current_value r) then
        Inl (ManifestSourcePatchError ''manifest scalar does not match approved artifact'')
      else
        bindE (scalar_span Y ''manifest scalar target is not unique'' kvs segments (desired_value r)) (\<lambda>span.
        bindE (set_object_value (fst st) segments (desired_value r)) (\<lambda>expected.
        Inr (expected, snd st @ [span])))))"

definition materialize_scalar_replacements ::
  "text_lib \<Rightarrow> string \<Rightarrow> string \<Rightarrow> string \<Rightarrow> scalar_replacement list \<Rightarrow> patch_error + string" where
  "materialize_scalar_replacements Y source source_type expected_source_sha256 rs =
     bindE (parse_single_manifest Y source source_type) (\<lambda>original.
     if \<not> py_eq (dget original ''kind'') (JStr ''Deployment'') then
       Inl (ManifestSourcePatchError ''manifest source must be a Deployment'')
     else if canonical_manifest_digest Y original \<noteq> expected_source_sha256 then
       Inl (ManifestSourcePatchError ''manifest source digest does not match approved artifact'')
     else
       bindE (compose_single Y source) (\<lambda>kvs.
       bindE (foldE (scalar_step Y original kvs) rs (JDict original, [])) (\<lambda>(expected, spans).
       if overlaps spans then Inl (ManifestSourcePatchError ''manifest scalar target overlaps'')
       else
         let patched = apply_spans source spans in
         bindE (parse_single_manifest Y patched source_type) (\<lambda>result.
         if \<not> py_eq (JDict result) expected then
           Inl (ManifestSourcePatchError ''manifest patch changed fields outside approved scalars'')
         else Inr patched))))"

definition materialize_scalar_patch :: "text_lib \<Rightarrow> string \<Rightarrow> scalar_plan \<Rightarrow> patch_error + string" where
  "materialize_scalar_patch Y source plan =
     bindE (validate_scalar_patch_plan plan) (\<lambda>_.
       materialize_scalar_replacements Y source (sp_source_type plan) (sp_source_manifest_sha256 plan)
         (replacements plan))"

definition materialize_scalar_rollback ::
  "text_lib \<Rightarrow> string \<Rightarrow> scalar_plan \<Rightarrow> string \<Rightarrow> patch_error + string" where
  "materialize_scalar_rollback Y source plan expected_source_sha256 =
     bindE (validate_scalar_patch_plan plan) (\<lambda>_.
       if \<not> sha256_text expected_source_sha256 then
         Inl (ManifestSourcePatchError ''rollback source digest is invalid'')
       else materialize_scalar_replacements Y source (sp_source_type plan) expected_source_sha256
              (rollback_replacements plan))"

definition scalar_patch_matches_manifest :: "scalar_plan \<Rightarrow> json \<Rightarrow> patch_error + bool" where
  \<comment> \<open>\<^verbatim>\<open>ManifestSourcePatchError\<close> is caught; the generator stops at the first mismatch or error\<close>
  "scalar_patch_matches_manifest plan manifest =
     (case bindE (validate_scalar_patch_plan plan) (\<lambda>_.
        foldE (\<lambda>item ok.
          if \<not> ok then Inr False
          else bindE (object_value_at manifest (field_path_segments (field_path item)))
                 (\<lambda>v. Inr (same_scalar v (current_value item)))) (replacements plan) True) of
        Inl (PyError e) \<Rightarrow> Inl (PyError e)
      | Inl _ \<Rightarrow> Inr False
      | Inr b \<Rightarrow> Inr b)"

subsection \<open>The image patch of a deployment\<close>

definition mapping_child :: "node option \<Rightarrow> string \<Rightarrow> node option" where
  \<comment> \<open>\<^verbatim>\<open>mapping_value(n, key) if isinstance(n, MappingNode) else None\<close>\<close>
  "mapping_child n key = (case n of Some (MappingNode kvs) \<Rightarrow> mapping_value kvs key | _ \<Rightarrow> None)"

definition container_node :: "node \<Rightarrow> (string \<times> node) option" where
  "container_node item =
     (case (mapping_child (Some item) ''name'', mapping_child (Some item) ''image'') of
        (Some (ScalarNode nm _ _ _), Some (ScalarNode v st a b)) \<Rightarrow> Some (nm, ScalarNode v st a b)
      | _ \<Rightarrow> None)"

definition deployment_container_nodes :: "(node \<times> node) list \<Rightarrow> (string \<times> node) list" where
  "deployment_container_nodes kvs =
     (let pod_spec = mapping_child (mapping_child (mapping_value kvs ''spec'') ''template'') ''spec''
      in concat (map (\<lambda>key. case mapping_child pod_spec key of
           Some (SequenceNode items) \<Rightarrow> List.map_filter container_node items
         | _ \<Rightarrow> []) CONTAINER_LIST_KEYS))"

definition dict_child :: "json \<Rightarrow> string \<Rightarrow> json" where
  \<comment> \<open>\<^verbatim>\<open>v.get(key) if isinstance(v, dict) else None\<close>\<close>
  "dict_child v key = (case v of JDict d \<Rightarrow> dget d key | _ \<Rightarrow> JNull)"

definition deployment_container_objects :: "json \<Rightarrow> jdict list" where
  "deployment_container_objects doc =
     (let pod_spec = dict_child (dict_child (dict_child doc ''spec'') ''template'') ''spec''
      in concat (map (\<lambda>key. case dict_child pod_spec key of
           JList containers \<Rightarrow> List.map_filter as_dict containers
         | _ \<Rightarrow> []) CONTAINER_LIST_KEYS))"

definition update_child :: "string \<Rightarrow> (json \<Rightarrow> json) \<Rightarrow> json \<Rightarrow> json" where
  "update_child key f v =
     (case v of
        JDict d \<Rightarrow> (case map_of d key of Some c \<Rightarrow> JDict (dset d key (f c)) | None \<Rightarrow> v)
      | _ \<Rightarrow> v)"

definition container_matches :: "string \<Rightarrow> string \<Rightarrow> jdict \<Rightarrow> bool" where
  "container_matches nm img c \<longleftrightarrow>
     py_eq (dget c ''name'') (JStr nm) \<and> py_eq (dget c ''image'') (JStr img)"

definition retag :: "string \<Rightarrow> string \<Rightarrow> string \<Rightarrow> jdict \<Rightarrow> jdict" where
  "retag nm cur prev c = (if container_matches nm cur c then dset c ''image'' (JStr prev) else c)"

definition retag_item :: "string \<Rightarrow> string \<Rightarrow> string \<Rightarrow> json \<Rightarrow> json" where
  "retag_item nm cur prev it = (case it of JDict c \<Rightarrow> JDict (retag nm cur prev c) | _ \<Rightarrow> it)"

definition retag_list :: "string \<Rightarrow> string \<Rightarrow> string \<Rightarrow> json \<Rightarrow> json" where
  "retag_list nm cur prev v = (case v of JList items \<Rightarrow> JList (map (retag_item nm cur prev) items) | _ \<Rightarrow> v)"

definition set_container_image :: "string \<Rightarrow> string \<Rightarrow> string \<Rightarrow> json \<Rightarrow> json" where
  \<comment> \<open>\<^verbatim>\<open>object_matches[0]["image"] = previous_image\<close>: the containers are objects inside the document\<close>
  "set_container_image nm cur prev doc =
     update_child ''spec'' (update_child ''template'' (update_child ''spec''
       (\<lambda>ps. foldl (\<lambda>ps key. update_child key (retag_list nm cur prev) ps) ps CONTAINER_LIST_KEYS))) doc"

type_synonym image_state = "string list \<times> json \<times> span list"

definition image_step ::
  "(node \<times> node) list \<Rightarrow> image_replacement \<Rightarrow> image_state \<Rightarrow> patch_error + image_state" where
  "image_step kvs r st =
     (case st of (used_names, expected, spans) \<Rightarrow>
      if container_name r = [] \<or> current_image r = [] \<or> previous_image r = []
         \<or> current_image r = previous_image r \<or> container_name r \<in> set used_names
      then Inl (ManifestSourcePatchError ''manifest image replacement is ambiguous'')
      else
        (case (filter (\<lambda>(nm, img). nm = container_name r \<and> node_value img = current_image r)
                 (deployment_container_nodes kvs),
               filter (container_matches (container_name r) (current_image r))
                 (deployment_container_objects expected)) of
           ([(_, ScalarNode _ sty a b)], [_]) \<Rightarrow>
             bindE (encoded_scalar sty (previous_image r)) (\<lambda>encoded.
             Inr (used_names @ [container_name r],
                  set_container_image (container_name r) (current_image r) (previous_image r) expected,
                  spans @ [(a, b, encoded)]))
         | _ \<Rightarrow> Inl (ManifestSourcePatchError ''manifest image target is not unique'')))"

definition materialize_image_patch ::
  "text_lib \<Rightarrow> string \<Rightarrow> string \<Rightarrow> string \<Rightarrow> image_replacement list \<Rightarrow> patch_error + string" where
  "materialize_image_patch Y source source_type expected_source_sha256 rs =
     bindE (parse_single_manifest Y source source_type) (\<lambda>original.
     if \<not> py_eq (dget original ''kind'') (JStr ''Deployment'') then
       Inl (ManifestSourcePatchError ''manifest source must be a Deployment'')
     else if canonical_manifest_digest Y original \<noteq> expected_source_sha256 then
       Inl (ManifestSourcePatchError ''manifest source digest does not match approved artifact'')
     else if rs = [] then Inl (ManifestSourcePatchError ''manifest image replacement is missing'')
     else
       bindE (compose_single Y source) (\<lambda>kvs.
       bindE (foldE (image_step kvs) rs ([], JDict original, [])) (\<lambda>(_, expected, spans).
       if overlaps spans then Inl (ManifestSourcePatchError ''manifest image target overlaps'')
       else
         let patched = apply_spans source spans in
         bindE (parse_single_manifest Y patched source_type) (\<lambda>result.
         if \<not> py_eq (JDict result) expected then
           Inl (ManifestSourcePatchError ''manifest patch changed fields outside approved images'')
         else Inr patched))))"

subsection \<open>Patches through a repository declaration\<close>

definition unsupported :: "string \<Rightarrow> patch_error" where
  "unsupported reason =
     RemediationSourcePatchUnsupported (''remediation source patch unsupported: '' @ reason)"

definition rfind :: "char \<Rightarrow> string \<Rightarrow> int" where
  \<comment> \<open>\<^verbatim>\<open>s.rfind(c)\<close>\<close>
  "rfind c s =
     (if c \<in> set s then int (length s) - 1 - int (length (takeWhile (\<lambda>x. x \<noteq> c) (rev s))) else -1)"

definition tag_text :: "string \<Rightarrow> bool" where
  \<comment> \<open>\<^verbatim>\<open>re.fullmatch(r"[A-Za-z0-9_][A-Za-z0-9._-]{0,127}", tag)\<close>\<close>
  "tag_text t \<longleftrightarrow> t \<noteq> [] \<and> (is_alnum (hd t) \<or> hd t = CHR ''_'') \<and> length t \<le> 128
     \<and> list_all (\<lambda>c. is_alnum c \<or> c \<in> set ''._-'') (tl t)"

definition tagged_image :: "string \<Rightarrow> (string \<times> string) option" where
  "tagged_image value =
     (if value = [] \<or> CHR ''@'' \<in> set value \<or> list_ex is_space value then None
      else
        let separator = rfind CHR '':'' value in
        if separator \<le> rfind CHR ''/'' value \<or> separator = int (length value) - 1 then None
        else
          let repository = take (nat separator) value; tag = drop (nat separator + 1) value
          in if repository = [] \<or> \<not> tag_text tag then None else Some (repository, tag))"

definition declared_image_replacement ::
  "source_declaration \<Rightarrow> scalar_replacement \<Rightarrow> patch_error + scalar_replacement" where
  "declared_image_replacement source r =
     (case (as_str (current_value r), as_str (desired_value r)) of
        (Some current, Some desired) \<Rightarrow>
          (if rs_source_type source = ''raw-yaml'' \<and> rs_image_path source = Some (field_path r)
           then Inr \<lparr>field_path = field_path r, current_value = JStr current, desired_value = JStr desired\<rparr>
           else if rs_source_type source = ''raw-yaml''
           then Inl (unsupported ''raw image field is not declared'')
           else
             (case (tagged_image current, tagged_image desired) of
                (Some (repository, current_tag), Some (desired_repository, desired_tag)) \<Rightarrow>
                  (if repository \<noteq> desired_repository
                   then Inl (unsupported ''tag adapter cannot change image repository or digest'')
                   else
                     bindE
                       (if rs_source_type source = ''helm-values'' \<and> rs_image_tag_path source \<noteq> None
                        then Inr (the (rs_image_tag_path source))
                        else if rs_source_type source = ''kustomize''
                                \<and> repository \<in> set (rs_image_names source)
                        then Inr (''images[name='' @ repository @ ''].newTag'')
                        else Inl (unsupported ''image field is not declared''))
                       (\<lambda>target_path. Inr \<lparr>field_path = target_path, current_value = JStr current_tag,
                                           desired_value = JStr desired_tag\<rparr>))
              | _ \<Rightarrow> Inl (unsupported ''tag adapter cannot change image repository or digest'')))
      | _ \<Rightarrow> Inl (unsupported ''image replacement is not textual''))"

definition declared_replacement ::
  "source_declaration \<Rightarrow> string \<Rightarrow> scalar_replacement \<Rightarrow> patch_error + scalar_replacement" where
  "declared_replacement source action r =
     (if action = ''image_rollback'' \<or> action = ''image_tag_fix'' then declared_image_replacement source r
      else
        let target = (if action = ''replica_scale'' then rs_replica_path source
                      else if action = ''probe_fix'' then probe_path source (field_path r)
                      else None)
        in case target of
             Some path \<Rightarrow> Inr (r\<lparr>field_path := path\<rparr>)
           | None \<Rightarrow> Inl (unsupported ''action field is not declared''))"

definition declared_scalar_patch :: "scalar_plan \<Rightarrow> source_contract \<Rightarrow> patch_error + declared_patch" where
  "declared_scalar_patch plan contract =
     bindE (validate_scalar_patch_plan plan) (\<lambda>_.
       case source_for_manifest contract (sp_manifest_path plan) of
         None \<Rightarrow> Inl (unsupported ''manifest path is not declared'')
       | Some source \<Rightarrow>
           bindE (mapE (declared_replacement source (action_type plan)) (replacements plan)) (\<lambda>rs.
           if \<not> distinct (map field_path rs)
           then Inl (unsupported ''declared source target is ambiguous'')
           else Inr \<lparr>dp_source_type = rs_source_type source, dp_source_path = rs_source_path source,
                     dp_replacements = rs, document_identity = None\<rparr>))"

definition image_scalar_plan :: "image_plan \<Rightarrow> scalar_plan" where
  "image_scalar_plan plan =
     (let r = hd (ip_replacements plan);
          semantic_path = ''spec.template.spec.containers[name='' @ container_name r @ ''].image''
      in \<lparr>action_type = ''image_rollback'', sp_source_type = ip_source_type plan,
          sp_source_manifest_sha256 = ip_source_manifest_sha256 plan,
          sp_expected_base_sha = ip_expected_base_sha plan, sp_manifest_path = ip_manifest_path plan,
          replacements = [\<lparr>field_path = semantic_path, current_value = JStr (current_image r),
                           desired_value = JStr (previous_image r)\<rparr>],
          rollback_replacements = [\<lparr>field_path = semantic_path, current_value = JStr (previous_image r),
                                    desired_value = JStr (current_image r)\<rparr>]\<rparr>)"

definition declared_image_patch :: "image_plan \<Rightarrow> source_contract \<Rightarrow> patch_error + declared_patch" where
  "declared_image_patch plan contract =
     bindE (validate_image_patch_plan plan) (\<lambda>_. declared_scalar_patch (image_scalar_plan plan) contract)"

definition declared_document :: "declared_patch \<Rightarrow> node list \<Rightarrow> json list \<Rightarrow> patch_error + nat" where
  \<comment> \<open>the index of the document a declared patch is about\<close>
  "declared_document patch nodes originals =
     (case document_identity patch of
        None \<Rightarrow> (if length nodes \<noteq> 1
                 then Inl (ManifestSourcePatchError ''declared source must contain one object'')
                 else Inr 0)
      | Some ident \<Rightarrow>
          (case filter (\<lambda>i. case originals ! i of JDict d \<Rightarrow> manifest_identity d = Some ident | _ \<Rightarrow> False)
                 [0..<length originals] of
             [i] \<Rightarrow> Inr i
           | _ \<Rightarrow> Inl (ManifestSourcePatchError ''declared source document is missing or ambiguous'')))"

definition declared_step ::
  "text_lib \<Rightarrow> bool \<Rightarrow> jdict \<Rightarrow> (node \<times> node) list \<Rightarrow> scalar_replacement \<Rightarrow> patch_state \<Rightarrow> patch_error + patch_state" where
  "declared_step Y allow_already_applied original kvs r st =
     (let segments = field_path_segments (field_path r) in
      bindE (object_value_at (JDict original) segments) (\<lambda>current.
      if allow_already_applied \<and> same_scalar current (desired_value r) then
        bindE (set_object_value (fst st) segments (desired_value r)) (\<lambda>expected. Inr (expected, snd st))
      else if \<not> same_scalar current (current_value r) then
        Inl (ManifestSourcePatchError ''declared source scalar does not match approved value'')
      else
        bindE (scalar_span Y ''declared source target is not one scalar'' kvs segments (desired_value r)) (\<lambda>span.
        bindE (set_object_value (fst st) segments (desired_value r)) (\<lambda>expected.
        Inr (expected, snd st @ [span])))))"

definition declared_sources :: "text_lib \<Rightarrow> string \<Rightarrow> patch_error + (node list \<times> json list)" where
  "declared_sources Y source =
     (case scan_any Y source of
        None \<Rightarrow> Inl (ManifestSourcePatchError ''declared source is invalid'')
      | Some True \<Rightarrow> Inl (ManifestSourcePatchError ''declared source anchors and aliases are not patchable'')
      | Some False \<Rightarrow>
     (case (yaml_compose_all Y source, yaml_safe_load_all Y source) of
        (Some nodes, Some originals) \<Rightarrow> Inr (nodes, originals)
      | _ \<Rightarrow> Inl (ManifestSourcePatchError ''declared source is invalid'')))"

definition declared_rewrite ::
  "text_lib \<Rightarrow> string \<Rightarrow> declared_patch \<Rightarrow> bool \<Rightarrow> json list \<Rightarrow> nat \<Rightarrow> jdict \<Rightarrow> (node \<times> node) list
   \<Rightarrow> patch_error + string" where
  \<comment> \<open>the loop over the replacements of one document and the final comparison of all documents\<close>
  "declared_rewrite Y source patch allow_already_applied originals i original kvs =
     bindE (foldE (declared_step Y allow_already_applied original kvs) (dp_replacements patch)
              (JDict original, [])) (\<lambda>(expected, spans).
     if overlaps spans then Inl (ManifestSourcePatchError ''declared source targets overlap'')
     else
       let patched = apply_spans source spans in
       case yaml_safe_load_all Y patched of
         None \<Rightarrow> Inl (ManifestSourcePatchError ''declared patch produced invalid YAML'')
       | Some patched_documents \<Rightarrow>
           (if \<not> py_eq (JList patched_documents) (JList (originals[i := expected]))
            then Inl (ManifestSourcePatchError ''declared patch changed fields outside approved scalars'')
            else Inr patched))"

definition materialize_declared_scalar_patch ::
  "text_lib \<Rightarrow> string \<Rightarrow> declared_patch \<Rightarrow> bool \<Rightarrow> patch_error + string" where
  "materialize_declared_scalar_patch Y source patch allow_already_applied =
     (if dp_source_type patch \<notin> {''raw-yaml'', ''helm-values'', ''kustomize''}
      then Inl (unsupported ''declared source adapter is unsupported'')
      else if dp_replacements patch = [] then Inl (unsupported ''declared source has no replacement'')
      else
        bindE (declared_sources Y source) (\<lambda>(nodes, originals).
        if length nodes \<noteq> length originals
        then Inl (ManifestSourcePatchError ''declared source document structure is invalid'')
        else
          bindE (declared_document patch nodes originals) (\<lambda>i.
          case (as_dict (originals ! i), nodes ! i) of
            (Some original, MappingNode kvs) \<Rightarrow>
              declared_rewrite Y source patch allow_already_applied originals i original kvs
          | _ \<Rightarrow> Inl (ManifestSourcePatchError ''declared source must contain one object''))))"

end
