(* ===== verification/Patch_Safety.thy ===== *)
theory Patch_Safety
  imports Source_Patch
begin

section \<open>What a materialised patch changes\<close>

text \<open>
  Theorems on \<^verbatim>\<open>Source_Patch\<close>: a validated plan is bounded and carries an exact inverse; a patch that
  is accepted has the approved digest, moves each named scalar from its current to its desired value
  and changes nothing else; rolling it back restores the manifest; a stale value is refused.
\<close>

subsection \<open>Reading respects equality\<close>

fun reads_agree :: "'e + json \<Rightarrow> 'e + json \<Rightarrow> bool" where
  "reads_agree (Inr u) (Inr v) \<longleftrightarrow> py_eq u v"
| "reads_agree (Inl e) (Inl e') \<longleftrightarrow> e = e'"
| "reads_agree _ _ \<longleftrightarrow> False"

lemma reads_agree_Inr: "reads_agree (Inr u) r \<Longrightarrow> \<exists>v. r = Inr v \<and> py_eq u v"
  by (cases r) auto

lemma object_value_at_key:
  "selected_name s = None \<Longrightarrow> object_value_at (JDict d) (s # ss) =
     (case map_of d (seg_key s) of None \<Rightarrow> Inl scalar_target_missing | Some v \<Rightarrow> object_value_at v ss)"
  by (simp add: object_value_at.simps(2) split: option.split)

lemma object_value_at_sel:
  "selected_name s = Some nm \<Longrightarrow> map_of d (seg_key s) = Some (JList items) \<Longrightarrow>
   object_value_at (JDict d) (s # ss) =
     (case filter (named_item nm) items of [m] \<Rightarrow> object_value_at m ss | _ \<Rightarrow> Inl scalar_target_not_unique)"
  by (simp add: object_value_at.simps(2))

lemma object_value_at_missing:
  "selected_name s = Some nm \<Longrightarrow> map_of d (seg_key s) = w \<Longrightarrow> (\<And>items. w \<noteq> Some (JList items)) \<Longrightarrow>
   object_value_at (JDict d) (s # ss) = Inl scalar_target_missing"
  by (auto simp: object_value_at.simps(2) split: option.split json.split)

lemma object_value_at_no_dict:
  "(\<And>d. v \<noteq> JDict d) \<Longrightarrow> object_value_at v (s # ss) = Inl scalar_target_missing"
  by (cases v) (auto simp: object_value_at.simps(2))

lemma py_eq_dict_iff: "py_eq a b \<Longrightarrow> (\<exists>d. a = JDict d) \<longleftrightarrow> (\<exists>d. b = JDict d)"
  by (cases a; cases b) (auto simp: py_eq.simps split: option.splits)

lemma py_eq_list_iff: "py_eq a b \<Longrightarrow> (\<exists>d. a = JList d) \<longleftrightarrow> (\<exists>d. b = JList d)"
  by (cases a; cases b) (auto simp: py_eq.simps split: option.splits)

lemma object_value_at_py_eq:
  "py_eq a b \<Longrightarrow> json_wf a \<Longrightarrow> json_wf b \<Longrightarrow> reads_agree (object_value_at a p) (object_value_at b p)"
proof (induction p arbitrary: a b)
  case (Cons s ss)
  show ?case
  proof (cases "\<exists>d. a = JDict d")
    case False
    with py_eq_dict_iff [OF Cons.prems(1)] show ?thesis by (simp add: object_value_at_no_dict)
  next
    case True
    then obtain d e where ab: "a = JDict d" "b = JDict e" using py_eq_dict_iff [OF Cons.prems(1)] by auto
    note eq = Cons.prems(1) [unfolded ab] and wf = Cons.prems(2,3) [unfolded ab]
    show ?thesis
    proof (cases "map_of d (seg_key s)")
      case None
      with lookup_py_eq_None [OF eq wf] show ?thesis
        by (simp add: ab object_value_at.simps(2))
    next
      case (Some v)
      then obtain w where w: "map_of e (seg_key s) = Some w" "py_eq v w" using lookup_py_eq [OF eq] by blast
      have wfv: "json_wf v" "json_wf w" using wf_lookup wf Some w by blast+
      show ?thesis
      proof (cases "selected_name s")
        case None
        then show ?thesis using Cons.IH [OF w(2) wfv] Some w by (simp add: ab object_value_at_key)
      next
        case sel: (Some nm)
        show ?thesis
        proof (cases "\<exists>xs. v = JList xs")
          case False
          with py_eq_list_iff [OF w(2)] show ?thesis
            using object_value_at_missing [OF sel Some] object_value_at_missing [OF sel w(1)]
            by (simp add: ab)
        next
          case True
          then obtain xs ys where l: "v = JList xs" "w = JList ys" using py_eq_list_iff [OF w(2)] by auto
          with w(2) wfv have f: "list_all2 py_eq (filter (named_item nm) xs) (filter (named_item nm) ys)"
            by (intro filter_py_eq) simp_all
          have item: "json_wf x" "json_wf y"
            if "filter (named_item nm) xs = [x]" "filter (named_item nm) ys = [y]" for x y
            using that wf_item wfv l filter_single_prop by metis+
          show ?thesis
            using f Some w(1) l sel item Cons.IH
            by (auto simp: ab object_value_at_sel list_all2_Cons1 split: list.split)
        qed
      qed
    qed
  qed
qed simp

subsection \<open>Scalars and lists of writes\<close>

lemma scalar_wf [simp]: "scalar_value v \<Longrightarrow> json_wf v"
  by (cases v) auto

lemma same_scalar_eq: "same_scalar a b \<Longrightarrow> py_eq a b"
  by (simp add: same_scalar_def)

lemma same_scalar_scalar: "same_scalar a b \<Longrightarrow> scalar_value a \<longleftrightarrow> scalar_value b"
  by (cases a; cases b) (auto simp: same_scalar_def)

lemma same_scalar_sym: "same_scalar a b \<Longrightarrow> scalar_value b \<Longrightarrow> same_scalar b a"
  using same_scalar_scalar [of a b] by (auto simp: same_scalar_def intro: py_eq_sym)

lemma same_scalar_trans: "same_scalar a b \<Longrightarrow> same_scalar b c \<Longrightarrow> same_scalar a c"
  by (auto simp: same_scalar_def intro: py_eq_trans)

lemma write_all_read:
  assumes "write_all ws cur = Inr c" and "targets cur (map fst ws)"
    and "\<forall>(p, v) \<in> set ws. scalar_value v" and "(p, v) \<in> set ws"
  shows "object_value_at c p = Inr v"
  using assms
proof (induction ws arbitrary: cur)
  case (Cons w ws)
  obtain q u where w: "w = (q, u)" by (cases w)
  with Cons.prems(1) obtain c1 where c1: "set_object_value cur q u = Inr c1" and rest: "write_all ws c1 = Inr c"
    by auto
  have t: "targets cur (q # map fst ws)" using Cons.prems(2) w by simp
  note t1 = targets_step(1) [OF t c1]
  have safe: "name_safe q" using t by (simp add: targets_def)
  note read = object_value_at_set [OF c1 safe]
  show ?case
  proof (cases "(p, v) = w")
    case True
    have "targets c1 (map fst ws @ [q])"
      using t t1 read safe Cons.prems(3) w by (auto simp: targets_def)
    from write_all_targets(2) [OF rest this, of q] read True w show ?thesis by simp
  next
    case False
    with Cons.prems(4) have "(p, v) \<in> set ws" by auto
    with Cons.IH [OF rest t1] Cons.prems(3) show ?thesis by simp
  qed
qed simp

lemma write_all_frame:
  assumes "write_all ws cur = Inr c" and "\<forall>(p, v) \<in> set ws. independent p q \<and> name_safe p"
  shows "object_value_at c q = object_value_at cur q"
  using assms
proof (induction ws arbitrary: cur)
  case (Cons w ws)
  then show ?case by (cases w) (auto simp: object_value_at_set_other)
qed simp

lemma write_all_wf:
  "write_all ws cur = Inr c \<Longrightarrow> json_wf cur \<Longrightarrow> \<forall>(p, v) \<in> set ws. json_wf v \<Longrightarrow> json_wf c"
proof (induction ws arbitrary: cur)
  case (Cons w ws)
  then show ?case by (cases w) (auto intro: set_object_value_wf)
qed simp

subsection \<open>Paths of a plan\<close>

abbreviation segs :: "scalar_replacement \<Rightarrow> segment list" where
  "segs r \<equiv> field_path_segments (field_path r)"

definition writes :: "scalar_replacement list \<Rightarrow> (segment list \<times> json) list" where
  "writes rs = map (\<lambda>r. (segs r, desired_value r)) rs"

lemma writes_simps [simp]:
  "writes [] = []" "writes (r # rs) = (segs r, desired_value r) # writes rs"
  "map fst (writes rs) = map segs rs" "(p, v) \<in> set (writes rs) \<longleftrightarrow> (\<exists>r \<in> set rs. p = segs r \<and> v = desired_value r)"
  by (auto simp: writes_def)

lemma py_join_last:
  assumes "ws \<noteq> []"
  shows "\<exists>pre. py_join ''.'' ws = pre @ last ws \<and> (pre = [] \<or> last pre = CHR ''.'')"
  using assms
proof (induction ws rule: induct_list012)
  case (3 w u us)
  then obtain pre where "py_join ''.'' (u # us) = pre @ last (u # us)" "pre = [] \<or> last pre = CHR ''.''"
    by auto
  then have "py_join ''.'' (w # u # us) = (w @ ''.'' @ pre) @ last (w # u # us)" by simp
  moreover have "last (w @ ''.'' @ pre) = CHR ''.''"
    using \<open>pre = [] \<or> last pre = CHR ''.''\<close> by auto
  ultimately show ?case by blast
qed auto

lemma last_component:
  assumes "pre = [] \<or> last pre = c" and "c \<notin> set w"
  shows "takeWhile (\<lambda>x. x \<noteq> c) (rev (pre @ w)) = rev w"
proof -
  have "takeWhile (\<lambda>x. x \<noteq> c) (rev w @ rev pre) = rev w @ takeWhile (\<lambda>x. x \<noteq> c) (rev pre)"
    using assms(2) by (intro takeWhile_append2) auto
  moreover have "takeWhile (\<lambda>x. x \<noteq> c) (rev pre) = []"
    using assms(1) by (cases pre rule: rev_cases) auto
  ultimately show ?thesis by simp
qed

lemma suffix_after_sep:
  assumes "pre @ w = xs @ c # k" and "pre = [] \<or> last pre = c" and "c \<notin> set w" and "c \<notin> set k"
  shows "w = k"
  using last_component [OF assms(2,3)] last_component [of "xs @ [c]" c k] assms(1,4) by simp

lemma segments_valid_key:
  assumes "field_path_segments v = ss" and "s \<in> set ss"
  shows "list_all key_char (seg_key s)"
proof -
  have "list_all (\<lambda>s. list_all key_char (seg_key s)) (field_path_segments_loop raws acc)"
    if "list_all (\<lambda>s. list_all key_char (seg_key s)) acc" for raws acc
    using that
  proof (induction raws arbitrary: acc)
    case (Cons raw raws)
    have "list_all key_char k" if "match_segment raw = Some (k, nm)" for k nm
      using that by (auto simp: match_segment_def Let_def list_all_iff dest: set_takeWhileD split: if_splits)
    with Cons show ?case by (auto split: option.split)
  qed simp
  from this [of "[]"] assms show ?thesis by (auto simp: field_path_segments_def list_all_iff)
qed

lemma last_key:
  assumes "field_path_segments v \<noteq> []" and "suffix (CHR ''.'' # k) v"
    and "list_all key_char k" and "k \<noteq> []"
  shows "seg_key (last (field_path_segments v)) = k"
proof -
  let ?ss = "field_path_segments v" and ?s = "last (field_path_segments v)"
  have "last (map render_segment ?ss) = render_segment ?s" using assms(1) by (simp add: last_map)
  then obtain pre where pre: "v = pre @ render_segment ?s" "pre = [] \<or> last pre = CHR ''.''"
    using py_join_last [of "map render_segment ?ss"] render_field_path_segments [OF assms(1)] assms(1)
    by (auto simp: render_path_def)
  from assms(2) obtain xs where xs: "v = xs @ CHR ''.'' # k" by (auto simp: suffix_def)
  have key: "list_all key_char (seg_key ?s)" 
    by (rule segments_valid_key [OF refl last_in_set [OF assms(1)]])
  show ?thesis
  proof (cases "selected_name ?s")
    case None
    then have "render_segment ?s = seg_key ?s" by (simp add: render_segment_def)
    then show ?thesis
      using suffix_after_sep [OF trans [OF pre(1) [symmetric] xs] pre(2)] key_chars_plain [OF key]
        key_chars_plain [OF assms(3)] by simp
  next
    case (Some nm)
    then have "last (pre @ render_segment ?s) = CHR '']''" by (simp add: render_segment_def)
    then have "last v = CHR '']''" using pre(1) by simp
    moreover have "last v = last k" using xs assms(4) by simp
    ultimately show ?thesis using assms(3,4) last_in_set [of k] by (auto simp: list_all_iff)
  qed
qed

lemma name_safe_last: "ss \<noteq> [] \<Longrightarrow> seg_key (last ss) \<noteq> ''name'' \<Longrightarrow> name_safe ss"
  by (induction ss rule: name_safe.induct) auto

subsection \<open>A validated plan is bounded and reversible\<close>

definition bounded_change :: "string \<Rightarrow> scalar_replacement \<Rightarrow> bool" where
  \<comment> \<open>what each action may do, read off as one statement per action\<close>
  "bounded_change action r \<longleftrightarrow>
     (action = ''replica_scale'' \<longrightarrow>
        (\<exists>i j. current_value r = JInt i \<and> desired_value r = JInt j \<and> 1 \<le> i \<and> i < j \<and> j \<le> 10))
     \<and> (action = ''oom_memory'' \<longrightarrow>
        (\<exists>i j. memory_quantity_bytes (current_value r) = Some i
             \<and> memory_quantity_bytes (desired_value r) = Some j \<and> i < j \<and> j \<le> 4294967296))
     \<and> (action = ''probe_fix'' \<longrightarrow>
        (\<forall>j. desired_value r = JInt j \<longrightarrow> 1 \<le> j \<and> j \<le> 65535) \<and>
        (suffix ''.timeoutSeconds'' (field_path r) \<longrightarrow>
          (\<exists>i j. current_value r = JInt i \<and> desired_value r = JInt j \<and> 1 \<le> i \<and> i < j \<and> j \<le> 30)))
     \<and> (action \<in> {''image_rollback'', ''image_tag_fix''} \<longrightarrow>
        seg_key (last (segs r)) = ''image'' \<and> is_str (current_value r) \<and> is_str (desired_value r))
     \<and> (action = ''selector_fix'' \<longrightarrow> is_str (current_value r) \<and> is_str (desired_value r))"

lemma int_between_iff:
  "int_between lo c d hi \<longleftrightarrow> (\<exists>i j. c = JInt i \<and> d = JInt j \<and> lo \<le> i \<and> i < j \<and> j \<le> hi)"
  by (cases c; cases d) (auto simp: int_between_def)

lemma memory_cap_iff:
  "memory_increases_within_cap c d \<longleftrightarrow>
     (\<exists>i j. memory_quantity_bytes c = Some i \<and> memory_quantity_bytes d = Some j \<and> i < j \<and> j \<le> 4294967296)"
  by (auto simp: memory_increases_within_cap_def split: option.splits)

lemma nonblank_is_str: "nonblank_text v \<Longrightarrow> is_str v"
  by (cases v) (auto simp: nonblank_text_def is_str_def)

lemma allowed_bounded:
  assumes "action_allows_replacement action r" and "segs r \<noteq> []"
  shows "bounded_change action r"
proof -
  have img: "suffix ''.image'' (field_path r) \<Longrightarrow> seg_key (last (segs r)) = ''image''"
    by (rule last_key [OF assms(2)]) (simp_all add: key_char_def is_alnum_def chr_in_def)
  from assms(1) show ?thesis
    unfolding action_allows_replacement_def bounded_change_def Let_def int_between_iff memory_cap_iff
    using img
    by (auto simp: nonblank_is_str split: if_splits json.splits)
qed

definition reversible :: "scalar_plan \<Rightarrow> bool" where
  \<comment> \<open>the rollback is a permutation of the reversed replacements\<close>
  "reversible plan \<longleftrightarrow>
     distinct (map field_path (replacements plan))
     \<and> distinct (map field_path (rollback_replacements plan))
     \<and> field_path ` set (rollback_replacements plan) = field_path ` set (replacements plan)
     \<and> (\<forall>r \<in> set (replacements plan). \<forall>rb \<in> set (rollback_replacements plan).
          field_path rb = field_path r \<longrightarrow>
          same_scalar (current_value rb) (desired_value r) \<and> same_scalar (desired_value rb) (current_value r))"

lemma validate_scalar_iff:
  "validate_scalar_patch_plan plan = Inr () \<longleftrightarrow>
     action_type plan \<in> set ACTION_TYPES \<and> sp_source_type plan = RAW_YAML
     \<and> sha256_text (sp_source_manifest_sha256 plan) \<and> commit_text (sp_expected_base_sha plan)
     \<and> safe_manifest_path (sp_manifest_path plan)
     \<and> 1 \<le> length (replacements plan) \<and> length (replacements plan) \<le> 4
     \<and> length (rollback_replacements plan) = length (replacements plan)
     \<and> distinct (map field_path (replacements plan)) \<and> distinct (map field_path (rollback_replacements plan))
     \<and> list_all (exact_inverse (action_type plan) (rollback_replacements plan)) (replacements plan)"
  by (auto simp: validate_scalar_patch_plan_def split: if_splits)

lemma rollback_lookup:
  assumes "distinct (map field_path rbs)"
  shows "map_of (rollback_by_path rbs) p = Some rb \<longleftrightarrow> rb \<in> set rbs \<and> field_path rb = p"
proof -
  have "map fst (rollback_by_path rbs) = rev (map field_path rbs)"
    by (simp add: rollback_by_path_def rev_map)
  then have "distinct (map fst (rollback_by_path rbs))" using assms by simp
  then show ?thesis by (auto simp: map_of_eq_Some_iff rollback_by_path_def)
qed

lemma exact_inverse_rollback:
  assumes "exact_inverse action rbs r" and "distinct (map field_path rbs)"
  shows "\<exists>rb \<in> set rbs. field_path rb = field_path r \<and> same_scalar (current_value rb) (desired_value r)
    \<and> same_scalar (desired_value rb) (current_value r)"
  using assms rollback_lookup [OF assms(2)] by (auto simp: exact_inverse_def split: option.splits)

lemma validated_reversible:
  assumes "validate_scalar_patch_plan plan = Inr ()"
  shows "reversible plan"
proof -
  note ok = assms [unfolded validate_scalar_iff list_all_iff]
  let ?f = "field_path ` set (replacements plan)" and ?b = "field_path ` set (rollback_replacements plan)"
  have inv: "\<exists>rb \<in> set (rollback_replacements plan). field_path rb = field_path r
      \<and> same_scalar (current_value rb) (desired_value r) \<and> same_scalar (desired_value rb) (current_value r)"
    if "r \<in> set (replacements plan)" for r
    using exact_inverse_rollback that ok by blast
  have "?f \<subseteq> ?b" by (auto dest!: inv simp: image_iff) metis
  moreover have "card ?b = card ?f"
    using ok by (metis distinct_card length_map set_map)
  ultimately have "?b = ?f" by (metis card_subset_eq finite_imageI finite_set)
  moreover have "rb = rb'" if "rb \<in> set (rollback_replacements plan)" "rb' \<in> set (rollback_replacements plan)"
    "field_path rb = field_path rb'" for rb rb'
    using ok that by (auto simp: distinct_map inj_on_def)
  ultimately show ?thesis using ok inv unfolding reversible_def by metis
qed

subsection \<open>Successful runs\<close>

lemma scalar_step_Inr:
  assumes "scalar_step Y original kvs r st = Inr st'"
  obtains u where "object_value_at (JDict original) (segs r) = Inr u" "same_scalar u (current_value r)"
    "set_object_value (fst st) (segs r) (desired_value r) = Inr (fst st')"
  using assms by (auto simp: scalar_step_def Let_def bindE_eq_Inr split: if_splits)

lemma scalar_steps_Inr:
  assumes "foldE (scalar_step Y original kvs) rs st = Inr st'"
  shows "write_all (writes rs) (fst st) = Inr (fst st')
    \<and> (\<forall>r \<in> set rs. \<exists>u. object_value_at (JDict original) (segs r) = Inr u \<and> same_scalar u (current_value r))"
  using assms
proof (induction rs arbitrary: st)
  case (Cons r rs)
  then obtain st1 where st1: "scalar_step Y original kvs r st = Inr st1"
    and rest: "foldE (scalar_step Y original kvs) rs st1 = Inr st'" by (auto simp: bindE_eq_Inr)
  from scalar_step_Inr [OF st1] Cons.IH [OF rest] show ?case by (metis bindE_simps(2) set_ConsD write_all_simps(2) writes_simps(2))
qed simp

lemma compose_single_Inr: "compose_single Y source = Inr kvs \<Longrightarrow> alias_free Y source"
  by (auto simp: compose_single_def alias_free_iff split: option.splits bool.splits)

lemma materialize_scalar_Inr:
  assumes "materialize_scalar_replacements Y source stype sha rs = Inr patched"
  obtains original result expected where
    "parse_single_manifest Y source stype = Inr original"
    "parse_single_manifest Y patched stype = Inr result"
    "canonical_manifest_digest Y original = sha" "dget original ''kind'' = JStr ''Deployment''"
    "alias_free Y source"
    "write_all (writes rs) (JDict original) = Inr expected" "py_eq (JDict result) expected"
    "\<forall>r \<in> set rs. \<exists>u. object_value_at (JDict original) (segs r) = Inr u \<and> same_scalar u (current_value r)"
proof -
  from assms obtain original kvs st result where o: "parse_single_manifest Y source stype = Inr original"
    and k: "dget original ''kind'' = JStr ''Deployment''" "canonical_manifest_digest Y original = sha"
    and c: "compose_single Y source = Inr kvs"
    and f: "foldE (scalar_step Y original kvs) rs (JDict original, []) = Inr st"
    and r: "parse_single_manifest Y patched stype = Inr result" "py_eq (JDict result) (fst st)"
    by (auto simp: materialize_scalar_replacements_def bindE_eq_Inr Let_def split: if_splits)
  from scalar_steps_Inr [OF f] have "write_all (writes rs) (JDict original) = Inr (fst st)"
    "\<forall>r \<in> set rs. \<exists>u. object_value_at (JDict original) (segs r) = Inr u \<and> same_scalar u (current_value r)"
    by auto
  with that o k r compose_single_Inr [OF c] show ?thesis by blast
qed

definition plan_name_safe :: "scalar_plan \<Rightarrow> bool" where
  "plan_name_safe plan \<longleftrightarrow> (\<forall>r \<in> set (replacements plan). name_safe (segs r))"

lemma exact_inverse_parts:
  "exact_inverse action rbs r \<Longrightarrow> segs r \<noteq> [] \<and> scalar_value (current_value r) \<and> scalar_value (desired_value r)
     \<and> action_allows_replacement action r"
  by (simp add: exact_inverse_def)

lemma allowed_name_safe:
  assumes "action_allows_replacement action r" and "segs r \<noteq> []" and "action \<noteq> ''selector_fix''"
  shows "name_safe (segs r)"
proof -
  have sfx: "name_safe (segs r)" if "suffix (CHR ''.'' # k) (field_path r)" "list_all key_char k" "k \<noteq> []" "k \<noteq> ''name''" for k
    using last_key [OF assms(2) that(1-3)] that(4) by (intro name_safe_last [OF assms(2)]) simp
  have tails: "suffix ''.memory'' x" if "suffix ''.resources.requests.memory'' x \<or> suffix ''.resources.limits.memory'' x" for x
    using that by (auto simp: suffix_def)
  have tails2: "suffix ''.httpGet.port'' x \<Longrightarrow> suffix ''.port'' x" "suffix ''.httpGet.path'' x \<Longrightarrow> suffix ''.path'' x" for x
    by (auto simp: suffix_def)
  have spec: "suffix ''.replicas'' ''spec.replicas''" by (simp add: suffix_def)
  note keys = key_char_def is_alnum_def is_digit_def chr_in_def
  have "suffix ''.image'' (field_path r) \<or> suffix ''.replicas'' (field_path r) \<or> suffix ''.memory'' (field_path r)
      \<or> suffix ''.timeoutSeconds'' (field_path r) \<or> suffix ''.port'' (field_path r) \<or> suffix ''.path'' (field_path r)"
    using assms(1,3) spec tails tails2 unfolding action_allows_replacement_def Let_def
    by (auto split: if_splits)
  then show ?thesis
    using sfx [of "''image''"] sfx [of "''replicas''"] sfx [of "''memory''"] sfx [of "''timeoutSeconds''"]
      sfx [of "''port''"] sfx [of "''path''"] by (auto simp: keys)
qed

lemma validated_name_safe:
  "validate_scalar_patch_plan plan = Inr () \<Longrightarrow> action_type plan \<noteq> ''selector_fix'' \<Longrightarrow> plan_name_safe plan"
  using allowed_name_safe exact_inverse_parts
  by (fastforce simp: validate_scalar_iff list_all_iff plan_name_safe_def)

lemma distinct_segs:
  assumes "distinct (map field_path rs)" and "\<forall>r \<in> set rs. segs r \<noteq> []"
  shows "distinct (map segs rs)"
  using assms field_path_segments_inj by (auto simp: distinct_map inj_on_def)

lemma plan_targets:
  assumes "validate_scalar_patch_plan plan = Inr ()" and "plan_name_safe plan"
    and "\<forall>r \<in> set (replacements plan). \<exists>u. object_value_at doc (segs r) = Inr u \<and> same_scalar u (current_value r)"
  shows "targets doc (map segs (replacements plan))"
proof -
  have ok: "\<forall>r \<in> set (replacements plan). segs r \<noteq> [] \<and> scalar_value (current_value r)"
    using assms(1) exact_inverse_parts by (auto simp: validate_scalar_iff list_all_iff)
  moreover have "distinct (map segs (replacements plan))"
    using assms(1) ok by (intro distinct_segs) (auto simp: validate_scalar_iff)
  ultimately show ?thesis
    using assms(2,3) same_scalar_scalar unfolding targets_def plan_name_safe_def by fastforce
qed

definition moved :: "json \<Rightarrow> json \<Rightarrow> scalar_replacement \<Rightarrow> bool" where
  \<comment> \<open>the scalar at the path holds the current value before and the desired value after\<close>
  "moved before after r \<longleftrightarrow>
     (\<exists>u v. object_value_at before (segs r) = Inr u \<and> same_scalar u (current_value r)
          \<and> object_value_at after (segs r) = Inr v \<and> py_eq v (desired_value r))"

definition kept_elsewhere :: "json \<Rightarrow> json \<Rightarrow> scalar_replacement list \<Rightarrow> bool" where
  \<comment> \<open>every path that does not overlap a target reads the same\<close>
  "kept_elsewhere before after rs \<longleftrightarrow>
     (\<forall>q. (\<forall>r \<in> set rs. independent (segs r) q) \<longrightarrow>
          reads_agree (object_value_at after q) (object_value_at before q))"

lemma written_holds:
  assumes w: "write_all (writes rs) before = Inr expected" and eq: "py_eq after expected"
    and wf: "json_wf before" "json_wf after" and t: "targets before (map segs rs)"
    and sc: "\<forall>r \<in> set rs. scalar_value (desired_value r)"
  shows "(\<forall>r \<in> set rs. \<exists>v. object_value_at after (segs r) = Inr v \<and> py_eq v (desired_value r))
    \<and> kept_elsewhere before after rs"
proof -
  have wfe: "json_wf expected" by (rule write_all_wf [OF w wf(1)]) (use sc in auto)
  have agree: "reads_agree (object_value_at after q) (object_value_at expected q)" for q
    by (rule object_value_at_py_eq [OF eq wf(2) wfe])
  have "\<exists>v. object_value_at after (segs r) = Inr v \<and> py_eq v (desired_value r)" if r: "r \<in> set rs" for r
  proof -
    have "object_value_at expected (segs r) = Inr (desired_value r)"
      by (rule write_all_read [OF w]) (use t sc r in auto)
    with agree [of "segs r"] show ?thesis by (cases "object_value_at after (segs r)") auto
  qed
  moreover have "kept_elsewhere before after rs"
    unfolding kept_elsewhere_def
  proof (intro allI impI)
    fix q assume "\<forall>r \<in> set rs. independent (segs r) q"
    then have "object_value_at expected q = object_value_at before q"
      using t by (intro write_all_frame [OF w]) (auto simp: targets_def)
    with agree [of q] show "reads_agree (object_value_at after q) (object_value_at before q)" by simp
  qed
  ultimately show ?thesis by blast
qed

lemma written_moved:
  assumes "write_all (writes rs) before = Inr expected" and "py_eq after expected"
    and "json_wf before" "json_wf after" and "targets before (map segs rs)"
    and "\<forall>r \<in> set rs. scalar_value (desired_value r)"
    and "\<forall>r \<in> set rs. \<exists>u. object_value_at before (segs r) = Inr u \<and> same_scalar u (current_value r)"
  shows "(\<forall>r \<in> set rs. moved before after r) \<and> kept_elsewhere before after rs"
  using written_holds [OF assms(1-6)] assms(7) unfolding moved_def by blast

definition yaml_wf :: "text_lib \<Rightarrow> bool" where
  \<comment> \<open>the loader builds mappings with distinct keys, as every Python dict has\<close>
  "yaml_wf Y \<longleftrightarrow> (\<forall>t vs. yaml_safe_load_all Y t = Some vs \<longrightarrow> (\<forall>v \<in> set vs. json_wf v))"

lemma parse_yaml_wf: "yaml_wf Y \<Longrightarrow> parse_single_manifest Y t RAW_YAML = Inr d \<Longrightarrow> json_wf (JDict d)"
  by (fastforce simp: yaml_wf_def parse_single_manifest_def RAW_YAML_def RAW_JSON_def bindE_eq_Inr as_dict_def
      split: option.splits list.splits json.splits)

lemma materialize_patch_Inr:
  assumes "materialize_scalar_patch Y source plan = Inr patched"
  shows "validate_scalar_patch_plan plan = Inr ()"
    and "materialize_scalar_replacements Y source RAW_YAML (sp_source_manifest_sha256 plan) (replacements plan)
      = Inr patched"
  using assms by (auto simp: materialize_scalar_patch_def bindE_eq_Inr validate_scalar_iff)

lemma plan_safe:
  assumes "validate_scalar_patch_plan plan = Inr ()" and "action_type plan = ''selector_fix'' \<longrightarrow> plan_name_safe plan"
  shows "plan_name_safe plan"
  using assms validated_name_safe by blast

lemma rollback_undo:
  assumes valid: "validate_scalar_patch_plan plan = Inr ()" and safe: "plan_name_safe plan"
    and w1: "write_all (writes (replacements plan)) before = Inr e1" and eq1: "py_eq mid e1"
    and w2: "write_all (writes (rollback_replacements plan)) mid = Inr e2"
    and read: "\<forall>r \<in> set (replacements plan). \<exists>u. object_value_at before (segs r) = Inr u \<and> same_scalar u (current_value r)"
    and wf: "json_wf before" "json_wf mid"
  shows "py_eq e2 before"
proof -
  let ?rs = "replacements plan" and ?rbs = "rollback_replacements plan"
  define old where "old rb = projr (object_value_at before (segs rb))" for rb
  define ws where "ws = map (\<lambda>rb. (segs rb, old rb)) ?rbs"
  note rev = validated_reversible [OF valid, unfolded reversible_def]
  have sc: "\<forall>r \<in> set ?rs. segs r \<noteq> [] \<and> scalar_value (current_value r) \<and> scalar_value (desired_value r)"
    using valid exact_inverse_parts by (auto simp: validate_scalar_iff list_all_iff)
  have back_to: "object_value_at before (segs rb) = Inr (old rb) \<and> py_eq (desired_value rb) (old rb)
      \<and> scalar_value (desired_value rb) \<and> scalar_value (old rb) \<and> segs rb \<noteq> []"
    if rb: "rb \<in> set ?rbs" for rb
  proof -
    from rb rev obtain r where r: "r \<in> set ?rs" "field_path rb = field_path r" by (metis image_iff)
    with rev rb have same: "same_scalar (desired_value rb) (current_value r)" by blast
    from read r obtain u where u: "object_value_at before (segs rb) = Inr u" "same_scalar u (current_value r)" by auto
    have "same_scalar (desired_value rb) u"
      using same_scalar_trans [OF same same_scalar_sym [OF u(2)]] sc r by blast
    with u same sc r same_scalar_scalar show ?thesis by (auto simp: old_def same_scalar_eq)
  qed
  have "json_wf e1" by (rule write_all_wf [OF w1 wf(1)]) (use sc in auto)
  have "list_all2 (\<lambda>(p, v) (q, w). p = q \<and> py_eq v w \<and> json_wf v \<and> json_wf w) (writes ?rbs) ws"
    using back_to by (auto simp: writes_def ws_def list_all2_conv_all_nth)
  then obtain e2' where e2': "write_all ws e1 = Inr e2'" "py_eq e2 e2'"
    using write_all_py_eq [OF w2 eq1 wf(2) \<open>json_wf e1\<close>] by blast
  have "write_all ws e1 = Inr before"
  proof (rule write_all_undo [OF _ w1])
    show "targets before (map fst (writes ?rs))" using plan_targets [OF valid safe read] by simp
    show "distinct (map fst ws)"
      using distinct_segs [of ?rbs] rev back_to by (simp add: ws_def o_def)
    have "field_path_segments ` field_path ` set ?rbs = field_path_segments ` field_path ` set ?rs"
      using rev by simp
    then show "fst ` set ws = fst ` set (writes ?rs)" by (auto simp: ws_def writes_def image_image)
    show "\<And>p u. (p, u) \<in> set ws \<Longrightarrow> object_value_at before p = Inr u" using back_to by (auto simp: ws_def)
  qed
  with e2' show ?thesis by simp
qed

subsection \<open>A concrete run\<close>

definition patch_lib :: text_lib where
  \<comment> \<open>a parser for the texts \<^verbatim>\<open>r: 2\<close> and \<^verbatim>\<open>r: 3\<close>\<close>
  "patch_lib =
     \<lparr>yaml_scan = (\<lambda>_. ([False, False], False)),
      yaml_compose_all = (\<lambda>_. Some [MappingNode [(ScalarNode ''spec'' None 0 0,
        MappingNode [(ScalarNode ''replicas'' None 0 1, ScalarNode ''2'' None 3 4)])]]),
      yaml_safe_load_all = (\<lambda>t. Some [sample_deployment (if t = ''r: 2'' then 2 else 3)]),
      yaml_safe_load = (\<lambda>_. None), yaml_safe_dump = (\<lambda>_. []), json_loads = (\<lambda>_. None),
      sha256_hex = (\<lambda>_. replicate 64 CHR ''0'')\<rparr>"

definition sample_sha :: string where
  "sample_sha = ''sha256:'' @ replicate 64 CHR ''0''"

definition sample_plan :: scalar_plan where
  "sample_plan =
     \<lparr>action_type = ''replica_scale'', sp_source_type = ''raw-yaml'', sp_source_manifest_sha256 = sample_sha,
      sp_expected_base_sha = replicate 40 CHR ''a'', sp_manifest_path = ''apps/web.yaml'',
      replacements = [\<lparr>field_path = ''spec.replicas'', current_value = JInt 2, desired_value = JInt 3\<rparr>],
      rollback_replacements = [\<lparr>field_path = ''spec.replicas'', current_value = JInt 3, desired_value = JInt 2\<rparr>]\<rparr>"

lemma patch_lib_wf: "yaml_wf patch_lib"
  by (simp add: yaml_wf_def patch_lib_def sample_deployment_def)

lemma sample_validates: "validate_scalar_patch_plan sample_plan = Inr ()"
  by code_simp

lemma sample_patches: "materialize_scalar_patch patch_lib ''r: 2'' sample_plan = Inr ''r: 3''"
  by code_simp

lemma sample_rolls_back: "materialize_scalar_rollback patch_lib ''r: 3'' sample_plan sample_sha = Inr ''r: 2''"
  by code_simp

lemma sample_action: "action_type sample_plan = ''selector_fix'' \<longrightarrow> plan_name_safe sample_plan"
  by (simp add: sample_plan_def)

subsection \<open>Properties\<close>

text \<open>
  C1. A patch that materialises is exactly the approved change: the source has the approved digest,
  is an alias-free Deployment, every planned scalar held its current value and now holds its desired
  value, and every path that does not overlap a target reads the same before and after. Selector
  paths must not rename the list item they select.
\<close>

theorem patch_changes_only_targets:
  assumes "materialize_scalar_patch Y source plan = Inr patched"
    and "yaml_wf Y" and "action_type plan = ''selector_fix'' \<longrightarrow> plan_name_safe plan"
  shows "\<exists>before after.
    parse_single_manifest Y source RAW_YAML = Inr before \<and> parse_single_manifest Y patched RAW_YAML = Inr after
    \<and> canonical_manifest_digest Y before = sp_source_manifest_sha256 plan
    \<and> dget before ''kind'' = JStr ''Deployment'' \<and> alias_free Y source
    \<and> (\<forall>r \<in> set (replacements plan). moved (JDict before) (JDict after) r)
    \<and> kept_elsewhere (JDict before) (JDict after) (replacements plan)"
proof -
  note valid = materialize_patch_Inr(1) [OF assms(1)]
  note safe = plan_safe [OF valid assms(3)]
  from materialize_patch_Inr(2) [OF assms(1)] show ?thesis
  proof (cases rule: materialize_scalar_Inr)
    case (1 before after expected)
    have "\<forall>r \<in> set (replacements plan). scalar_value (desired_value r)"
      using valid exact_inverse_parts by (auto simp: validate_scalar_iff list_all_iff)
    from written_moved [OF 1(6,7) parse_yaml_wf [OF assms(2) 1(1)] parse_yaml_wf [OF assms(2) 1(2)]
        plan_targets [OF valid safe 1(8)] this 1(8)] 1
    show ?thesis by blast
  qed
qed

theorem patch_changes_only_targets_witness:
  "\<exists>before after. parse_single_manifest patch_lib ''r: 2'' RAW_YAML = Inr before
    \<and> parse_single_manifest patch_lib ''r: 3'' RAW_YAML = Inr after
    \<and> kept_elsewhere (JDict before) (JDict after) (replacements sample_plan)"
  using patch_changes_only_targets [OF sample_patches patch_lib_wf sample_action] by blast

text \<open>
  C2. Rolling back restores the manifest: if a plan was applied to a source, and the rollback of the
  same plan was applied to the patched text, then the restored text parses to an object equal to the
  original one, whatever the order of the rollback entries.
\<close>

theorem rollback_restores:
  assumes "materialize_scalar_patch Y source plan = Inr patched"
    and "materialize_scalar_rollback Y patched plan sha = Inr restored"
    and "yaml_wf Y" and "action_type plan = ''selector_fix'' \<longrightarrow> plan_name_safe plan"
  shows "\<exists>original result. parse_single_manifest Y source RAW_YAML = Inr original
    \<and> parse_single_manifest Y restored RAW_YAML = Inr result \<and> py_eq (JDict result) (JDict original)"
proof -
  note valid = materialize_patch_Inr(1) [OF assms(1)]
  note safe = plan_safe [OF valid assms(4)]
  from assms(2) valid have rb: "materialize_scalar_replacements Y patched RAW_YAML sha (rollback_replacements plan) = Inr restored"
    by (auto simp: materialize_scalar_rollback_def validate_scalar_iff split: if_splits)
  from materialize_patch_Inr(2) [OF assms(1)] show ?thesis
  proof (cases rule: materialize_scalar_Inr)
    case (1 before after e1)
    from rb show ?thesis
    proof (cases rule: materialize_scalar_Inr)
      case undo: (1 mid result e2)
      have "mid = after" using undo(1) 1(2) by simp
      with rollback_undo [OF valid safe 1(6,7) _ 1(8) parse_yaml_wf [OF assms(3) 1(1)]
          parse_yaml_wf [OF assms(3) 1(2)]] undo(6)
      have "py_eq e2 (JDict before)" by blast
      with py_eq_trans [OF undo(7)] 1(1) undo(2) show ?thesis by blast
    qed
  qed
qed

theorem rollback_restores_witness:
  "\<exists>original result. parse_single_manifest patch_lib ''r: 2'' RAW_YAML = Inr original
    \<and> parse_single_manifest patch_lib ''r: 2'' RAW_YAML = Inr result \<and> py_eq (JDict result) (JDict original)"
  by (rule rollback_restores [OF sample_patches sample_rolls_back patch_lib_wf sample_action])



end
