(* ===== verification/Declared_Patch.thy ===== *)
theory Declared_Patch
  imports Patch_Safety
begin

section \<open>Patches through the repository contract\<close>

text \<open>
  Theorems that join \<^verbatim>\<open>Remediation_Source\<close> and \<^verbatim>\<open>Source_Patch\<close>: a plan is only redirected to fields the
  repository declares for that manifest, the redirected patch changes exactly those fields of one
  document, a retry after the change has landed leaves the text alone and any third value is
  refused. Plans survive being written to and read from their instruction document.
\<close>

subsection \<open>Tagged images\<close>

lemma rfind_split:
  assumes "c \<in> set s"
  shows "0 \<le> rfind c s" and "nat (rfind c s) < length s"
    and "s = take (nat (rfind c s)) s @ c # drop (nat (rfind c s) + 1) s"
    and "c \<notin> set (drop (nat (rfind c s) + 1) s)"
proof -
  obtain xs ys where s: "s = xs @ c # ys" and ys: "c \<notin> set ys" using split_list_last [OF assms] by blast
  have "takeWhile (\<lambda>x. x \<noteq> c) (rev ys @ c # rev xs) = rev ys"
    using ys takeWhile_append2 [of "rev ys" "\<lambda>x. x \<noteq> c" "c # rev xs"] by auto
  then have r: "rfind c s = int (length xs)" using assms by (simp add: rfind_def s)
  show "0 \<le> rfind c s" "nat (rfind c s) < length s"
    "s = take (nat (rfind c s)) s @ c # drop (nat (rfind c s) + 1) s"
    "c \<notin> set (drop (nat (rfind c s) + 1) s)"
    using ys by (simp_all add: r) (simp_all add: s)
qed

lemma tagged_image_Some:
  assumes "tagged_image v = Some (repository, tag)"
  shows "v = repository @ '':'' @ tag" and "repository \<noteq> []" and "tag_text tag"
    and "CHR ''@'' \<notin> set repository"
proof -
  from assms have t: "tag_text tag" "repository \<noteq> []" "CHR ''@'' \<notin> set v"
    and parts: "repository = take (nat (rfind CHR '':'' v)) v" "tag = drop (nat (rfind CHR '':'' v) + 1) v"
    and gt: "rfind CHR ''/'' v < rfind CHR '':'' v"
    by (auto simp: tagged_image_def Let_def split: if_splits)
  have "-1 \<le> rfind CHR ''/'' v" using rfind_split(1) [of "CHR ''/''" v] by (cases "CHR ''/'' \<in> set v") (auto simp: rfind_def)
  with gt have "rfind CHR '':'' v \<noteq> -1" by simp
  then have "CHR '':'' \<in> set v" by (metis rfind_def)
  from rfind_split(3) [OF this] parts show v: "v = repository @ '':'' @ tag" by simp
  show "repository \<noteq> []" "tag_text tag" by (fact t)+
  show "CHR ''@'' \<notin> set repository" using t(3) by (simp add: v)
qed

subsection \<open>Redirection stays within the contract\<close>

definition tag_target :: "string \<Rightarrow> string" where
  "tag_target repository = ''images[name='' @ repository @ ''].newTag''"

definition redirected :: "source_declaration \<Rightarrow> scalar_replacement \<Rightarrow> scalar_replacement \<Rightarrow> bool" where
  \<comment> \<open>the declared replacement writes a declared field, and either the planned values or, for a
      repository that stays the same, the tags of the planned images\<close>
  "redirected s r r' \<longleftrightarrow>
     field_path r' \<in> set (declared_paths s) \<union> tag_target ` set (rs_image_names s)
     \<and> (current_value r' = current_value r \<and> desired_value r' = desired_value r
        \<or> (\<exists>repository a b. current_value r = JStr (repository @ '':'' @ a)
             \<and> desired_value r = JStr (repository @ '':'' @ b)
             \<and> current_value r' = JStr a \<and> desired_value r' = JStr b \<and> tag_text a \<and> tag_text b
             \<and> (field_path r' \<in> set (declared_paths s) \<or> field_path r' = tag_target repository)))"

lemma declared_paths_members:
  "rs_image_path s = Some p \<Longrightarrow> p \<in> set (declared_paths s)"
  "rs_image_tag_path s = Some p \<Longrightarrow> p \<in> set (declared_paths s)"
  "rs_replica_path s = Some p \<Longrightarrow> p \<in> set (declared_paths s)"
  "probe_path s f = Some p \<Longrightarrow> p \<in> set (declared_paths s)"
  by (force simp: declared_paths_def List.map_filter_def probe_path_def dest: map_of_SomeD)+

lemma as_str_iff: "as_str v = Some t \<longleftrightarrow> v = JStr t"
  by (cases v) (auto simp: as_str_def)

lemma declared_image_redirected:
  assumes "declared_image_replacement s r = Inr r'"
  shows "redirected s r r'"
proof -
  from assms obtain current desired where v: "current_value r = JStr current" "desired_value r = JStr desired"
    by (auto simp: declared_image_replacement_def as_str_iff split: option.splits)
  show ?thesis
  proof (cases "rs_source_type s = ''raw-yaml''")
    case True
    with assms v show ?thesis
      by (auto simp: declared_image_replacement_def as_str_def redirected_def declared_paths_members
          split: if_splits)
  next
    case False
    with assms v obtain repository a b where
      cur: "tagged_image current = Some (repository, a)" and des: "tagged_image desired = Some (repository, b)"
      and r': "current_value r' = JStr a" "desired_value r' = JStr b"
      and path: "rs_image_tag_path s = Some (field_path r')
        \<or> repository \<in> set (rs_image_names s) \<and> field_path r' = tag_target repository"
      by (auto simp: declared_image_replacement_def as_str_def bindE_eq_Inr tag_target_def split: option.splits if_splits)
    from path declared_paths_members(2)
    have "field_path r' \<in> set (declared_paths s) \<or> repository \<in> set (rs_image_names s) \<and> field_path r' = tag_target repository"
      by blast
    with tagged_image_Some [OF cur] tagged_image_Some [OF des] v r' show ?thesis
      unfolding redirected_def by auto
  qed
qed

lemma declared_redirected: "declared_replacement s action r = Inr r' \<Longrightarrow> redirected s r r'"
  using declared_image_redirected declared_paths_members(3,4)
  by (auto simp: declared_replacement_def Let_def redirected_def split: if_splits option.splits)

lemma declared_scalar_patch_Inr:
  assumes "declared_scalar_patch plan contract = Inr patch"
  shows "\<exists>s. source_for_manifest contract (sp_manifest_path plan) = Some s
    \<and> dp_source_type patch = rs_source_type s \<and> dp_source_path patch = rs_source_path s
    \<and> list_all2 (redirected s) (replacements plan) (dp_replacements patch)
    \<and> distinct (map field_path (dp_replacements patch))
    \<and> validate_scalar_patch_plan plan = Inr ()"
  using assms
  by (fastforce simp: declared_scalar_patch_def bindE_eq_Inr mapE_Inr_iff elim: list_all2_mono
      intro: declared_redirected split: option.splits if_splits)

subsection \<open>Successful runs of a declared patch\<close>

definition approved :: "bool \<Rightarrow> json \<Rightarrow> scalar_replacement \<Rightarrow> bool" where
  \<comment> \<open>the target holds the approved value, or already the desired one where that is allowed\<close>
  "approved allow before r \<longleftrightarrow>
     (\<exists>u. object_value_at before (segs r) = Inr u
        \<and> (same_scalar u (current_value r) \<or> allow \<and> same_scalar u (desired_value r)))"

lemma declared_step_Inr:
  assumes "declared_step Y allow original kvs r st = Inr st'"
  shows "approved allow (JDict original) r"
    and "set_object_value (fst st) (segs r) (desired_value r) = Inr (fst st')"
  using assms by (auto simp: declared_step_def Let_def bindE_eq_Inr approved_def split: if_splits)

lemma declared_steps_Inr:
  "foldE (declared_step Y allow original kvs) rs st = Inr st' \<Longrightarrow>
   write_all (writes rs) (fst st) = Inr (fst st') \<and> (\<forall>r \<in> set rs. approved allow (JDict original) r)"
proof (induction rs arbitrary: st)
  case (Cons r rs)
  then obtain st1 where st1: "declared_step Y allow original kvs r st = Inr st1"
    and rest: "foldE (declared_step Y allow original kvs) rs st1 = Inr st'" by (auto simp: bindE_eq_Inr)
  from declared_step_Inr [OF st1] Cons.IH [OF rest] show ?case by simp
qed simp

lemma declared_sources_Inr:
  "declared_sources Y source = Inr (nodes, originals) \<longleftrightarrow>
     alias_free Y source \<and> yaml_compose_all Y source = Some nodes \<and> yaml_safe_load_all Y source = Some originals"
  by (auto simp: declared_sources_def alias_free_iff [symmetric] split: option.splits bool.splits)

lemma declared_document_bound:
  assumes "declared_document patch nodes originals = Inr i" and "length nodes = length originals"
  shows "i < length originals"
proof (cases "document_identity patch")
  case None
  with assms show ?thesis by (auto simp: declared_document_def split: if_splits)
next
  case (Some ident)
  let ?P = "\<lambda>i. case originals ! i of JDict d \<Rightarrow> manifest_identity d = Some ident | _ \<Rightarrow> False"
  have "filter ?P [0..<length originals] = [i]"
    using assms(1) Some by (auto simp: declared_document_def split: list.splits)
  then have "i \<in> set (filter ?P [0..<length originals])" by simp
  then show ?thesis by simp
qed

lemma materialize_declared_Inr:
  assumes "materialize_declared_scalar_patch Y source patch allow = Inr patched"
  obtains nodes originals i original expected docs where
    "declared_sources Y source = Inr (nodes, originals)" "length nodes = length originals"
    "i < length originals" "originals ! i = JDict original"
    "write_all (writes (dp_replacements patch)) (JDict original) = Inr expected"
    "\<forall>r \<in> set (dp_replacements patch). approved allow (JDict original) r"
    "yaml_safe_load_all Y patched = Some docs" "list_all2 py_eq docs (originals[i := expected])"
proof -
  from assms obtain nodes originals i where
    src: "declared_sources Y source = Inr (nodes, originals)" "length nodes = length originals"
    and doc: "declared_document patch nodes originals = Inr i"
    and pick: "(case (as_dict (originals ! i), nodes ! i) of
        (Some original, MappingNode kvs) \<Rightarrow> declared_rewrite Y source patch allow originals i original kvs
      | _ \<Rightarrow> Inl (ManifestSourcePatchError ''declared source must contain one object'')) = Inr patched"
    by (auto simp: materialize_declared_scalar_patch_def bindE_eq_Inr split: if_splits)
  from pick obtain original kvs where some: "as_dict (originals ! i) = Some original"
    and run: "declared_rewrite Y source patch allow originals i original kvs = Inr patched"
    by (cases "as_dict (originals ! i)"; cases "nodes ! i") simp_all
  from run obtain st docs where
    f: "foldE (declared_step Y allow original kvs) (dp_replacements patch) (JDict original, []) = Inr st"
    and out: "yaml_safe_load_all Y patched = Some docs" "list_all2 py_eq docs (originals[i := fst st])"
    by (auto simp: declared_rewrite_def bindE_eq_Inr Let_def split: if_splits option.splits)
  have "originals ! i = JDict original" using some by (auto simp: as_dict_def split: json.splits)
  with that src declared_document_bound [OF doc src(2)] declared_steps_Inr [OF f] out show ?thesis by auto
qed

lemma approved_targets:
  assumes "\<forall>r \<in> set rs. approved allow doc r" and "\<exists>d. doc = JDict d"
    and "\<forall>r \<in> set rs. scalar_value (current_value r) \<and> scalar_value (desired_value r) \<and> name_safe (segs r)"
    and "distinct (map field_path rs)"
  shows "targets doc (map segs rs)"
proof -
  have sc: "\<exists>u. object_value_at doc (segs r) = Inr u \<and> scalar_value u" if "r \<in> set rs" for r
    using assms(1,3) that same_scalar_scalar unfolding approved_def by blast
  moreover have "segs r \<noteq> []" if "r \<in> set rs" for r
    using sc [OF that] assms(2) by auto
  ultimately show ?thesis using distinct_segs [OF assms(4)] assms(3) by (auto simp: targets_def)
qed

subsection \<open>A value that is already there\<close>

lemma set_object_value_same:
  "object_value_at cur p = Inr u \<Longrightarrow> p \<noteq> [] \<Longrightarrow> selected_name (last p) = None \<Longrightarrow>
   set_object_value cur p u = Inr cur"
proof (induction p arbitrary: cur)
  case (Cons s ss)
  from Cons.prems(1) show ?case
  proof (cases rule: object_value_at_ConsE)
    case (key d v)
    then show ?thesis using Cons by (cases "ss = []") (auto simp: set_object_value_key dset_idem)
  next
    case (sel d items nm m)
    then have ss: "ss \<noteq> []" using Cons.prems(3) by auto
    have "replace_if (named_item nm) m items = items"
      using filter_single_eq [OF sel(4)] by (auto intro!: map_idI)
    then show ?thesis using Cons.IH [OF sel(5) ss] Cons.prems(3) ss sel by (simp add: set_object_value_sel dset_idem)
  qed
qed simp

lemma declared_steps_applied:
  assumes "\<forall>r \<in> set rs. \<exists>u. object_value_at (JDict original) (segs r) = Inr u \<and> same_scalar u (desired_value r)
      \<and> segs r \<noteq> [] \<and> selected_name (last (segs r)) = None \<and> scalar_value (desired_value r)"
    and "py_eq (JDict original) cur" and "json_wf (JDict original)" and "json_wf cur"
  shows "\<exists>cur'. foldE (declared_step Y True original kvs) rs (cur, sp) = Inr (cur', sp)
    \<and> py_eq (JDict original) cur' \<and> json_wf cur'"
  using assms
proof (induction rs arbitrary: cur)
  case (Cons r rs)
  then obtain u where u: "object_value_at (JDict original) (segs r) = Inr u" "same_scalar u (desired_value r)"
    "segs r \<noteq> []" "selected_name (last (segs r)) = None" "scalar_value (desired_value r)" by auto
  from set_object_value_py_eq [OF set_object_value_same [OF u(1,3,4)] Cons.prems(2) same_scalar_eq [OF u(2)] Cons.prems(3,4)]
  obtain c1 where c1: "set_object_value cur (segs r) (desired_value r) = Inr c1" "py_eq (JDict original) c1" by blast
  have "json_wf c1" using set_object_value_wf [OF c1(1) Cons.prems(4)] u(5) by simp
  moreover have "declared_step Y True original kvs r (cur, sp) = Inr (c1, sp)"
    using u(1,2) c1(1) by (simp add: declared_step_def Let_def)
  ultimately show ?case using Cons.IH [OF _ c1(2) Cons.prems(3)] Cons.prems(1) by simp
qed simp

subsection \<open>Properties\<close>

text \<open>
  C4. A plan is redirected only to what the repository declares: with a contract that parses, the
  declared patch goes to the confined source file of the one declaration for that manifest, never to
  the contract file, writes pairwise different declared fields (or the tag of a declared image), and
  writes the planned values or, when the image repository stays the same, the planned tags.
\<close>

theorem declared_patch_within_contract:
  assumes "parse_remediation_source_contract Y content = Inr contract"
    and "declared_scalar_patch plan contract = Inr patch"
  shows "\<exists>s \<in> set contract. rs_manifest_path s = sp_manifest_path plan \<and> dp_source_path patch = rs_source_path s
    \<and> confined (dp_source_path patch) \<and> dp_source_path patch \<noteq> REMEDIATION_SOURCE_CONTRACT_PATH
    \<and> list_all2 (redirected s) (replacements plan) (dp_replacements patch)
    \<and> distinct (map field_path (dp_replacements patch))"
proof -
  from declared_scalar_patch_Inr [OF assms(2)] obtain s where
    s: "source_for_manifest contract (sp_manifest_path plan) = Some s" "dp_source_path patch = rs_source_path s"
      "list_all2 (redirected s) (replacements plan) (dp_replacements patch)"
      "distinct (map field_path (dp_replacements patch))" by blast
  from assms(1) obtain payload where "parse_sources payload = Inr contract"
    by (auto simp: parse_remediation_source_contract_def bindE_eq_Inr split: if_splits)
  then have "declaration_ok s" using parse_sources_ok(3) source_for_manifest_Some [OF s(1)] by blast
  with s source_for_manifest_Some [OF s(1)] show ?thesis by (auto simp: declaration_ok_def)
qed

definition sample_patch :: declared_patch where
  "sample_patch =
     \<lparr>dp_source_type = ''raw-yaml'', dp_source_path = ''apps/web.yaml'',
      dp_replacements = [\<lparr>field_path = ''spec.replicas'', current_value = JInt 2, desired_value = JInt 3\<rparr>],
      document_identity = None\<rparr>"

definition sample_declarations :: source_contract where
  "sample_declarations =
     [\<lparr>rs_manifest_path = ''apps/web.yaml'', rs_source_type = ''raw-yaml'',
       rs_source_path = ''apps/web.yaml'', rs_image_path = None, rs_image_tag_path = None,
       rs_image_names = [], rs_replica_path = Some ''spec.replicas'', rs_probe_paths = []\<rparr>]"

lemma sample_contract_is: "parse_remediation_source_contract (sample_lib sample_contract) ''kind: x'' = Inr sample_declarations"
  by (simp add: sample_contract_parses sample_declarations_def)

lemma sample_declares: "declared_scalar_patch sample_plan sample_declarations = Inr sample_patch"
  by code_simp

theorem declared_patch_within_contract_witness: "confined (dp_source_path sample_patch)"
  using declared_patch_within_contract [OF sample_contract_is sample_declares] by blast


lemma sample_declared_patches: "materialize_declared_scalar_patch patch_lib ''r: 2'' sample_patch False = Inr ''r: 3''"
  by code_simp

lemma sample_patch_targets:
  "\<forall>r \<in> set (dp_replacements sample_patch). scalar_value (current_value r) \<and> scalar_value (desired_value r) \<and> name_safe (segs r)"
  "distinct (map field_path (dp_replacements sample_patch))"
  by (simp_all add: sample_patch_def) code_simp


text \<open>
  A retry after the change has landed is an audit-only change: when every target already holds its
  desired value, the declared patch returns the source text unchanged. (Comparable documents hold no
  NaN, the only value that differs from itself.)
\<close>

theorem already_applied_leaves_source:
  assumes "declared_sources Y source = Inr (nodes, originals)" and "length nodes = length originals"
    and "dp_source_type patch \<in> {''raw-yaml'', ''helm-values'', ''kustomize''}" and "dp_replacements patch \<noteq> []"
    and "declared_document patch nodes originals = Inr i"
    and "originals ! i = JDict original" and "nodes ! i = MappingNode kvs"
    and "yaml_wf Y" and "\<forall>v \<in> set originals. py_eq v v"
    and "\<forall>r \<in> set (dp_replacements patch). \<exists>u. object_value_at (JDict original) (segs r) = Inr u
      \<and> same_scalar u (desired_value r) \<and> segs r \<noteq> [] \<and> selected_name (last (segs r)) = None
      \<and> scalar_value (desired_value r)"
  shows "materialize_declared_scalar_patch Y source patch True = Inr source"
proof -
  have i: "i < length originals" by (rule declared_document_bound [OF assms(5,2)])
  have load: "yaml_safe_load_all Y source = Some originals" using assms(1) declared_sources_Inr by blast
  have orig: "JDict original \<in> set originals" using i assms(6) by (metis nth_mem)
  with assms(8,9) load have refl: "py_eq (JDict original) (JDict original)" "json_wf (JDict original)"
    unfolding yaml_wf_def by blast+
  obtain cur' where cur': "foldE (declared_step Y True original kvs) (dp_replacements patch) (JDict original, [])
      = Inr (cur', [])" "py_eq (JDict original) cur'"
    using declared_steps_applied [OF assms(10) refl(1) refl(2) refl(2)] by blast
  have "list_all2 py_eq originals (originals[i := cur'])"
    using assms(6,9) i cur'(2) by (auto simp: list_all2_conv_all_nth nth_list_update)
  with cur'(1) load have "declared_rewrite Y source patch True originals i original kvs = Inr source"
    by (simp add: declared_rewrite_def overlaps_def apply_spans_def)
  with assms(1-7) show ?thesis by (auto simp: materialize_declared_scalar_patch_def as_dict_def)
qed

definition patch_kvs :: "(node \<times> node) list" where
  "patch_kvs = [(ScalarNode ''spec'' None 0 0,
        MappingNode [(ScalarNode ''replicas'' None 0 1, ScalarNode ''2'' None 3 4)])]"

theorem already_applied_leaves_source_witness:
  "materialize_declared_scalar_patch patch_lib ''r: 3'' sample_patch True = Inr ''r: 3''"
proof (rule already_applied_leaves_source
    [where nodes = "[MappingNode patch_kvs]" and originals = "[sample_deployment 3]" and i = 0 and kvs = patch_kvs
       and original = "the (as_dict (sample_deployment 3))"])
  show "declared_sources patch_lib ''r: 3'' = Inr ([MappingNode patch_kvs], [sample_deployment 3])" by code_simp
  show "\<forall>r \<in> set (dp_replacements sample_patch).
      \<exists>u. object_value_at (JDict (the (as_dict (sample_deployment 3)))) (segs r) = Inr u
        \<and> same_scalar u (desired_value r) \<and> segs r \<noteq> [] \<and> selected_name (last (segs r)) = None
        \<and> scalar_value (desired_value r)"
  proof -
    have "object_value_at (JDict (the (as_dict (sample_deployment 3)))) (field_path_segments ''spec.replicas'') = Inr (JInt 3)"
      and "field_path_segments ''spec.replicas'' = [\<lparr>seg_key = ''spec'', selected_name = None\<rparr>, \<lparr>seg_key = ''replicas'', selected_name = None\<rparr>]"
      by code_simp+
    then show ?thesis by (simp add: sample_patch_def same_scalar_def num_eq_def)
  qed
  show "\<forall>v \<in> set [sample_deployment 3]. py_eq v v" by code_simp
qed (simp_all add: sample_patch_def declared_document_def patch_lib_wf sample_deployment_def as_dict_def)

subsection \<open>Instruction documents\<close>

lemma parse_scalar_body:
  "scalar_value (current_value r) \<Longrightarrow> scalar_value (desired_value r) \<Longrightarrow>
   parse_scalar_replacement (scalar_replacement_body r) = Inr r"
  by (simp add: parse_scalar_replacement_def scalar_replacement_body_def as_dict_def keys_are_def dget_def
      text_or_empty_def is_str_def)

lemma parse_scalar_bodies:
  "\<forall>r \<in> set rs. scalar_value (current_value r) \<and> scalar_value (desired_value r) \<Longrightarrow>
   parse_scalar_replacements (JList (map scalar_replacement_body rs)) = Inr rs"
  by (simp add: parse_scalar_replacements_def as_list_def mapE_Inr_iff list_all2_conv_all_nth parse_scalar_body)

lemma parse_scalar_payload:
  assumes "yaml_safe_load Y content = Some (scalar_plan_payload plan)"
    and "validate_scalar_patch_plan plan = Inr ()"
    and "\<forall>r \<in> set (replacements plan) \<union> set (rollback_replacements plan).
      scalar_value (current_value r) \<and> scalar_value (desired_value r)"
  shows "parse_scalar_patch_plan Y content = Inr (Some plan)"
proof -
  define spec where "spec =
         [(''actionType'', JStr (action_type plan)),
          (''sourceType'', JStr (sp_source_type plan)),
          (''sourceManifestSha256'', JStr (sp_source_manifest_sha256 plan)),
          (''expectedBaseSha'', JStr (sp_expected_base_sha plan)),
          (''manifestPath'', JStr (sp_manifest_path plan)),
          (''replacements'', JList (map scalar_replacement_body (replacements plan))),
          (''rollbackReplacements'', JList (map scalar_replacement_body (rollback_replacements plan)))]"
  have get: "dget spec ''actionType'' = JStr (action_type plan)" "dget spec ''sourceType'' = JStr (sp_source_type plan)"
    "dget spec ''sourceManifestSha256'' = JStr (sp_source_manifest_sha256 plan)"
    "dget spec ''expectedBaseSha'' = JStr (sp_expected_base_sha plan)" "dget spec ''manifestPath'' = JStr (sp_manifest_path plan)"
    "dget spec ''replacements'' = JList (map scalar_replacement_body (replacements plan))"
    "dget spec ''rollbackReplacements'' = JList (map scalar_replacement_body (rollback_replacements plan))"
    by (simp_all add: spec_def dget_def)
  have keys: "keys_are spec (scalar_text_keys @ [''replacements'', ''rollbackReplacements''])"
    by (simp add: keys_are_def spec_def scalar_text_keys_def)
  have texts: "list_all (\<lambda>k. is_str (dget spec k)) scalar_text_keys"
    by (simp add: scalar_text_keys_def get is_str_def)
  have payload: "scalar_plan_payload plan =
      JDict [(''apiVersion'', JStr SCALAR_PATCH_API_VERSION), (''kind'', JStr SCALAR_PATCH_KIND), (''spec'', JDict spec)]"
    by (simp add: scalar_plan_payload_def spec_def)
  have outer: "keys_are [(''apiVersion'', JStr SCALAR_PATCH_API_VERSION), (''kind'', JStr SCALAR_PATCH_KIND), (''spec'', JDict spec)]
      [''apiVersion'', ''kind'', ''spec'']" by (simp add: keys_are_def)
  have whole: "\<lparr>action_type = action_type plan, sp_source_type = sp_source_type plan,
      sp_source_manifest_sha256 = sp_source_manifest_sha256 plan, sp_expected_base_sha = sp_expected_base_sha plan,
      sp_manifest_path = sp_manifest_path plan, replacements = replacements plan,
      rollback_replacements = rollback_replacements plan\<rparr> = plan" by simp
  show ?thesis
    using assms parse_scalar_bodies [of "replacements plan"] parse_scalar_bodies [of "rollback_replacements plan"]
    by (simp add: parse_scalar_patch_plan_def payload outer keys texts get whole as_dict_def text_or_empty_def Let_def
        dget_def [of "(_, _) # _"])
qed

text \<open>
  C6. An instruction document reads back as the plan it was written from: whenever a plan may be
  written at all, parsing the written text returns exactly that plan, provided the YAML library
  loads what it dumped.
\<close>

theorem scalar_plan_roundtrip:
  assumes "scalar_patch_content Y plan = Inr content"
    and "yaml_safe_load Y (yaml_safe_dump Y (scalar_plan_payload plan)) = Some (scalar_plan_payload plan)"
  shows "parse_scalar_patch_plan Y content = Inr (Some plan)"
proof -
  from assms(1) have valid: "validate_scalar_patch_plan plan = Inr ()"
    and content: "content = yaml_safe_dump Y (scalar_plan_payload plan)"
    by (auto simp: scalar_patch_content_def bindE_eq_Inr)
  have fwd: "\<forall>r \<in> set (replacements plan). scalar_value (current_value r) \<and> scalar_value (desired_value r)"
    using valid exact_inverse_parts by (auto simp: validate_scalar_iff list_all_iff)
  have "\<forall>rb \<in> set (rollback_replacements plan). scalar_value (current_value rb) \<and> scalar_value (desired_value rb)"
  proof
    fix rb assume rb: "rb \<in> set (rollback_replacements plan)"
    with validated_reversible [OF valid] obtain r where r: "r \<in> set (replacements plan)" "field_path rb = field_path r"
      unfolding reversible_def by (metis image_iff)
    with validated_reversible [OF valid] rb fwd same_scalar_scalar
    show "scalar_value (current_value rb) \<and> scalar_value (desired_value rb)" unfolding reversible_def by blast
  qed
  with fwd parse_scalar_payload [OF _ valid] assms(2) content show ?thesis by blast
qed

definition plan_lib :: text_lib where
  "plan_lib = patch_lib\<lparr>yaml_safe_dump := (\<lambda>_. ''plan''), yaml_safe_load := (\<lambda>_. Some (scalar_plan_payload sample_plan))\<rparr>"

theorem scalar_plan_roundtrip_witness:
  "parse_scalar_patch_plan plan_lib ''plan'' = Inr (Some sample_plan)"
  by (rule scalar_plan_roundtrip) (simp_all add: scalar_patch_content_def sample_validates plan_lib_def)

end
