(* ===== verification/Image_Patch.thy ===== *)
theory Image_Patch
  imports Patch_Safety
begin

section \<open>The image patch of a deployment\<close>

text \<open>
  Theorems on \<^verbatim>\<open>materialize_image_patch\<close> of \<^verbatim>\<open>Source_Patch\<close>: writing the image of a container changes the
  image of the matching containers and nothing else of the deployment.
\<close>

lemma dict_child_update_same: "f JNull = JNull \<Longrightarrow> dict_child (update_child k f v) k = f (dict_child v k)"
  by (auto simp: dict_child_def update_child_def dget_def split: json.splits option.splits)

lemma dict_child_update_other: "k \<noteq> k' \<Longrightarrow> dict_child (update_child k f v) k' = dict_child v k'"
  by (auto simp: dict_child_def update_child_def dget_def split: json.splits option.splits)

lemma update_child_null [simp]: "update_child k f JNull = JNull"
  by (simp add: update_child_def)

definition container_items :: "json \<Rightarrow> jdict list" where
  "container_items v = (case v of JList containers \<Rightarrow> List.map_filter as_dict containers | _ \<Rightarrow> [])"

lemma container_items_retag:
  "container_items (retag_list nm cur prev v) = map (retag nm cur prev) (container_items v)"
proof -
  have "List.map_filter as_dict (map (retag_item nm cur prev) items)
      = map (retag nm cur prev) (List.map_filter as_dict items)" for items
    by (induction items)
      (auto simp: List.map_filter_def retag_item_def as_dict_def split: json.split)
  then show ?thesis by (simp add: container_items_def retag_list_def split: json.split)
qed

lemma retag_list_null [simp]: "retag_list nm cur prev JNull = JNull"
  by (simp add: retag_list_def)

lemma containers_retag:
  "deployment_container_objects (set_container_image nm cur prev doc)
     = map (retag nm cur prev) (deployment_container_objects doc)"
proof -
  define pods where "pods = (\<lambda>doc. dict_child (dict_child (dict_child doc ''spec'') ''template'') ''spec'')"
  have conts: "deployment_container_objects d = concat (map (\<lambda>k. container_items (dict_child (pods d) k)) CONTAINER_LIST_KEYS)" for d
    by (simp add: deployment_container_objects_def pods_def container_items_def)
  have "pods (set_container_image nm cur prev doc)
      = foldl (\<lambda>ps key. update_child key (retag_list nm cur prev) ps) (pods doc) CONTAINER_LIST_KEYS"
    by (simp add: set_container_image_def pods_def dict_child_update_same CONTAINER_LIST_KEYS_def)
  moreover have "dict_child (foldl (\<lambda>ps key. update_child key (retag_list nm cur prev) ps) ps CONTAINER_LIST_KEYS) k
      = retag_list nm cur prev (dict_child ps k)" if "k \<in> set CONTAINER_LIST_KEYS" for ps k
    using that by (auto simp: CONTAINER_LIST_KEYS_def dict_child_update_same dict_child_update_other)
  ultimately show ?thesis
    by (simp add: conts container_items_retag map_concat o_def cong: map_cong)
qed

lemma outside_spec_kept: "k \<noteq> ''spec'' \<Longrightarrow> dict_child (set_container_image nm cur prev doc) k = dict_child doc k"
  by (simp add: set_container_image_def dict_child_update_other)

lemma image_step_Inr:
  assumes "image_step kvs r (used, doc, spans) = Inr (used', doc', spans')"
  shows "doc' = set_container_image (container_name r) (current_image r) (previous_image r) doc"
    and "\<exists>c. filter (container_matches (container_name r) (current_image r)) (deployment_container_objects doc) = [c]"
    and "container_name r \<notin> set used" and "current_image r \<noteq> previous_image r"
proof -
  let ?ns = "filter (\<lambda>(nm, img). nm = container_name r \<and> node_value img = current_image r) (deployment_container_nodes kvs)"
  let ?os = "filter (container_matches (container_name r) (current_image r)) (deployment_container_objects doc)"
  show "container_name r \<notin> set used" "current_image r \<noteq> previous_image r"
    using assms by (auto simp: image_step_def split: if_splits)
  from assms have "(case (?ns, ?os) of
      ([(_, ScalarNode _ sty a b)], [_]) \<Rightarrow>
        bindE (encoded_scalar sty (previous_image r)) (\<lambda>encoded.
          Inr (used @ [container_name r],
               set_container_image (container_name r) (current_image r) (previous_image r) doc,
               spans @ [(a, b, encoded)]))
    | _ \<Rightarrow> Inl (ManifestSourcePatchError ''manifest image target is not unique'')) = Inr (used', doc', spans')"
    unfolding image_step_def by (auto split: if_splits)
  then obtain c where "?os = [c]" and "doc' = set_container_image (container_name r) (current_image r) (previous_image r) doc"
    by (auto simp: bindE_eq_Inr split: list.splits node.splits prod.splits)
  then show "\<exists>c. ?os = [c]" "doc' = set_container_image (container_name r) (current_image r) (previous_image r) doc" by auto
qed

lemma materialize_image_Inr:
  assumes "materialize_image_patch Y source stype sha [r] = Inr patched"
  obtains before after expected where
    "parse_single_manifest Y source stype = Inr before" "parse_single_manifest Y patched stype = Inr after"
    "canonical_manifest_digest Y before = sha" "dget before ''kind'' = JStr ''Deployment''" "alias_free Y source"
    "expected = set_container_image (container_name r) (current_image r) (previous_image r) (JDict before)"
    "py_eq (JDict after) expected"
    "\<exists>c. filter (container_matches (container_name r) (current_image r)) (deployment_container_objects (JDict before)) = [c]"
proof -
  from assms obtain before kvs st after where b: "parse_single_manifest Y source stype = Inr before"
    and k: "dget before ''kind'' = JStr ''Deployment''" "canonical_manifest_digest Y before = sha"
    and c: "compose_single Y source = Inr kvs" and f: "image_step kvs r ([], JDict before, []) = Inr st"
    and a: "parse_single_manifest Y patched stype = Inr after" "py_eq (JDict after) (fst (snd st))"
    by (auto simp: materialize_image_patch_def bindE_eq_Inr Let_def split: if_splits)
  obtain used doc spans where st: "st = (used, doc, spans)" by (cases st)
  note step = image_step_Inr [OF f [unfolded st]]
  from that [OF b a(1) k(2,1) compose_single_Inr [OF c] step(1)] a(2) step(2) st show ?thesis by simp
qed

text \<open>
  C7. An image patch moves one image: the approved manifest has exactly one container with that name and
  image, and the patched manifest equals the approved one with only that container's image changed, so
  all containers keep their order and their other fields, and everything outside the spec is kept.
\<close>

theorem image_patch_retags_one_container:
  assumes "materialize_image_patch Y source stype sha [r] = Inr patched"
  shows "\<exists>before after expected.
    parse_single_manifest Y source stype = Inr before \<and> parse_single_manifest Y patched stype = Inr after
    \<and> canonical_manifest_digest Y before = sha \<and> py_eq (JDict after) expected
    \<and> length (filter (container_matches (container_name r) (current_image r))
               (deployment_container_objects (JDict before))) = 1
    \<and> deployment_container_objects expected
        = map (\<lambda>c. if container_matches (container_name r) (current_image r) c
                   then dset c ''image'' (JStr (previous_image r)) else c)
            (deployment_container_objects (JDict before))
    \<and> (\<forall>k. k \<noteq> ''spec'' \<longrightarrow> dict_child expected k = dget before k)"
  using assms
proof (cases rule: materialize_image_Inr)
  case (1 before after expected)
  have "deployment_container_objects expected = map (\<lambda>c. if container_matches (container_name r) (current_image r) c
      then dset c ''image'' (JStr (previous_image r)) else c) (deployment_container_objects (JDict before))"
    unfolding 1(6) containers_retag by (simp add: retag_def [abs_def])
  moreover have "dict_child expected k = dget before k" if "k \<noteq> ''spec''" for k
    using outside_spec_kept [OF that] 1(6) by (simp add: dict_child_def)
  moreover have "length (filter (container_matches (container_name r) (current_image r))
      (deployment_container_objects (JDict before))) = 1" using 1(8) by auto
  ultimately show ?thesis using 1(1-3,7) by blast
qed

definition image_doc :: "string \<Rightarrow> json" where
  "image_doc tag =
     JDict [(''kind'', JStr ''Deployment''), (''spec'', JDict [(''template'', JDict [(''spec'', JDict
       [(''containers'', JList [JDict [(''name'', JStr ''web''), (''image'', JStr tag)]])])])])]"

definition image_lib :: text_lib where
  "image_lib =
     \<lparr>yaml_scan = (\<lambda>_. ([False], False)),
      yaml_compose_all = (\<lambda>_. Some [MappingNode [(ScalarNode ''spec'' None 0 0, MappingNode [(ScalarNode ''template'' None 0 0,
        MappingNode [(ScalarNode ''spec'' None 0 0, MappingNode [(ScalarNode ''containers'' None 0 0, SequenceNode [MappingNode
          [(ScalarNode ''name'' None 0 0, ScalarNode ''web'' None 0 0), (ScalarNode ''image'' None 0 1, ScalarNode ''w:2'' None 3 6)]])])])])]]),
      yaml_safe_load_all = (\<lambda>t. Some [image_doc (drop 3 t)]),
      yaml_safe_load = (\<lambda>_. None), yaml_safe_dump = (\<lambda>_. []), json_loads = (\<lambda>_. None),
      sha256_hex = (\<lambda>_. ''x'')\<rparr>"

lemma sample_image_patches:
  "materialize_image_patch image_lib ''i: w:2'' ''raw-yaml'' ''sha256:x''
     [\<lparr>container_name = ''web'', current_image = ''w:2'', previous_image = ''w:1''\<rparr>] = Inr ''i: w:1''"
  by code_simp

theorem image_patch_retags_one_container_witness:
  "\<exists>before. parse_single_manifest image_lib ''i: w:2'' ''raw-yaml'' = Inr before
     \<and> length (filter (container_matches ''web'' ''w:2'') (deployment_container_objects (JDict before))) = 1"
  using image_patch_retags_one_container [OF sample_image_patches] by auto

end
