(* ===== verification/Event_Body.thy ===== *)
theory Event_Body
  imports Json_Value
begin

section \<open>Event bodies and their wire form\<close>

text \<open>
  \<^verbatim>\<open>src/src/packages/contracts/event_bus/bodies/base.py\<close>: the dataclass fields of a body, read by
  \<^verbatim>\<open>from_body\<close> from their type hints, become a \<open>body\<close> value; an instance becomes a \<open>VObj\<close> that keeps,
  per field, its attribute name, its wire key and its value. A type hint the decoder does not test
  (\<^verbatim>\<open>Any\<close>, \<^verbatim>\<open>float\<close>, ...) is \<open>TAny\<close>. The list of enumerations of a body is its
  \<^verbatim>\<open>__post_init__\<close>, which runs after all fields have been decoded.
\<close>

datatype bval = VJson json | VList "bval list" | VObj string "(string \<times> string \<times> bval) list"

datatype ftype =
    TAny | TNone | TBool | TInt | TStr | TDict
  | TList ftype
  | TUnion "ftype list"
  | TBody body
and body = Body string "bfield list" "(string \<times> string list) list"
and bfield = BField string string ftype "bval option"

datatype decode_error =
    MustBeObject string string
  | UnexpectedFields string "string list"
  | MissingField string string
  | InvalidType string string
  | BadEnum string
    \<comment> \<open>a plain \<^verbatim>\<open>ValueError\<close>, not an \<^verbatim>\<open>EventBodyDecodeError\<close>\<close>

fun is_decode_error :: "decode_error \<Rightarrow> bool" where
  "is_decode_error (BadEnum _) = False"
| "is_decode_error _ = True"

fun body_name :: "body \<Rightarrow> string" where
  "body_name (Body n fs es) = n"

fun body_fields :: "body \<Rightarrow> bfield list" where
  "body_fields (Body n fs es) = fs"

fun fld_name :: "bfield \<Rightarrow> string" where
  "fld_name (BField n k t d) = n"

fun fld_key :: "bfield \<Rightarrow> string" where
  "fld_key (BField n k t d) = k"

definition enum_ok :: "string list \<Rightarrow> bval option \<Rightarrow> bool" where
  "enum_ok allowed v = (case v of Some (VJson (JStr s)) \<Rightarrow> s \<in> set allowed | _ \<Rightarrow> False)"

definition attr_of :: "(string \<times> string \<times> bval) list \<Rightarrow> string \<Rightarrow> bval option" where
  "attr_of vals n = map_option snd (map_of vals n)"

fun post_init :: "(string \<times> string list) list \<Rightarrow> (string \<times> string \<times> bval) list \<Rightarrow> bool" where
  "post_init [] vals \<longleftrightarrow> True"
| "post_init ((n, allowed) # es) vals \<longleftrightarrow> enum_ok allowed (attr_of vals n) \<and> post_init es vals"

fun decode_value :: "bool \<Rightarrow> string \<Rightarrow> string \<Rightarrow> json \<Rightarrow> ftype \<Rightarrow> decode_error + bval"
  and decode_union :: "bool \<Rightarrow> string \<Rightarrow> string \<Rightarrow> json \<Rightarrow> ftype list \<Rightarrow> decode_error + bval"
  and from_body :: "bool \<Rightarrow> body \<Rightarrow> jdict \<Rightarrow> decode_error + bval"
  and decode_fields :: "bool \<Rightarrow> string \<Rightarrow> jdict \<Rightarrow> bfield list \<Rightarrow> decode_error + (string \<times> string \<times> bval) list"
where
  "decode_value strict owner key v TAny = Inr (VJson v)"
| "decode_value strict owner key v TNone = Inr (VJson v)"
| "decode_value strict owner key v (TUnion ts) =
     (if v = JNull \<and> TNone \<in> set ts then Inr (VJson JNull) else decode_union strict owner key v ts)"
| "decode_value strict owner key v (TBody b) =
     (case v of JDict d \<Rightarrow> from_body strict b d | _ \<Rightarrow> Inl (MustBeObject owner key))"
| "decode_value strict owner key v (TList t) =
     (case v of JList xs \<Rightarrow> bindE (mapE (\<lambda>x. decode_value strict owner (key @ ''[]'') x t) xs) (\<lambda>ys. Inr (VList ys))
              | _ \<Rightarrow> Inl (InvalidType owner key))"
| "decode_value strict owner key v TDict = (case v of JDict d \<Rightarrow> Inr (VJson v) | _ \<Rightarrow> Inl (MustBeObject owner key))"
| "decode_value strict owner key v TBool = (case v of JBool b \<Rightarrow> Inr (VJson v) | _ \<Rightarrow> Inl (InvalidType owner key))"
| "decode_value strict owner key v TInt = (case v of JInt i \<Rightarrow> Inr (VJson v) | _ \<Rightarrow> Inl (InvalidType owner key))"
| "decode_value strict owner key v TStr = (case v of JStr s \<Rightarrow> Inr (VJson v) | _ \<Rightarrow> Inl (InvalidType owner key))"
| "decode_union strict owner key v [] = Inl (InvalidType owner key)"
| "decode_union strict owner key v (t # ts) =
     (if t = TNone then decode_union strict owner key v ts
      else case decode_value strict owner key v t of
             Inr x \<Rightarrow> Inr x
           | Inl e \<Rightarrow> if is_decode_error e then decode_union strict owner key v ts else Inl e)"
| "from_body strict (Body n fs es) raw =
     (let extra = filter (\<lambda>k. k \<notin> set (map fld_key fs)) (map fst raw) in
      if strict \<and> extra \<noteq> [] then Inl (UnexpectedFields n extra)
      else bindE (decode_fields strict n raw fs)
             (\<lambda>vals. if post_init es vals then Inr (VObj n vals) else Inl (BadEnum n)))"
| "decode_fields strict n raw [] = Inr []"
| "decode_fields strict n raw (BField nm key t d # fs) =
     bindE (case map_of raw key of
              None \<Rightarrow> (case d of Some x \<Rightarrow> Inr x | None \<Rightarrow> Inl (MissingField n key))
            | Some v \<Rightarrow> decode_value strict n key v t)
       (\<lambda>x. bindE (decode_fields strict n raw fs) (\<lambda>xs. Inr ((nm, key, x) # xs)))"

fun to_body_value :: "bval \<Rightarrow> json" where
  "to_body_value (VJson v) = v"
| "to_body_value (VList xs) = JList (map to_body_value xs)"
| "to_body_value (VObj n fs) = JDict (map (\<lambda>(nm, key, x). (key, to_body_value x)) fs)"

definition to_body :: "bval \<Rightarrow> jdict" where
  "to_body x = (case to_body_value x of JDict d \<Rightarrow> d | _ \<Rightarrow> [])"

subsection \<open>Well-typed instances and well-formed declarations\<close>

fun typed :: "ftype \<Rightarrow> bval \<Rightarrow> bool"
  and typed_some :: "ftype list \<Rightarrow> bval \<Rightarrow> bool"
  and typed_body :: "body \<Rightarrow> bval \<Rightarrow> bool"
  and typed_fields :: "bfield list \<Rightarrow> (string \<times> string \<times> bval) list \<Rightarrow> bool"
where
  "typed TAny x \<longleftrightarrow> (case x of VJson v \<Rightarrow> True | _ \<Rightarrow> False)"
| "typed TNone x \<longleftrightarrow> (case x of VJson v \<Rightarrow> True | _ \<Rightarrow> False)"
| "typed (TUnion ts) x \<longleftrightarrow> x = VJson JNull \<and> TNone \<in> set ts \<or> typed_some ts x"
| "typed (TBody b) x \<longleftrightarrow> typed_body b x"
| "typed (TList t) x \<longleftrightarrow> (case x of VList xs \<Rightarrow> list_all (typed t) xs | _ \<Rightarrow> False)"
| "typed TDict x \<longleftrightarrow> (case x of VJson (JDict d) \<Rightarrow> True | _ \<Rightarrow> False)"
| "typed TBool x \<longleftrightarrow> (case x of VJson (JBool b) \<Rightarrow> True | _ \<Rightarrow> False)"
| "typed TInt x \<longleftrightarrow> (case x of VJson (JInt i) \<Rightarrow> True | _ \<Rightarrow> False)"
| "typed TStr x \<longleftrightarrow> (case x of VJson (JStr s) \<Rightarrow> True | _ \<Rightarrow> False)"
| "typed_some [] x \<longleftrightarrow> False"
| "typed_some (t # ts) x \<longleftrightarrow> t \<noteq> TNone \<and> typed t x \<or> typed_some ts x"
| "typed_body (Body n fs es) x \<longleftrightarrow>
     (case x of VObj m vals \<Rightarrow> m = n \<and> typed_fields fs vals \<and> post_init es vals | _ \<Rightarrow> False)"
| "typed_fields [] vals \<longleftrightarrow> vals = []"
| "typed_fields (BField nm key t d # fs) vals \<longleftrightarrow>
     (case vals of (nm', key', x) # vals' \<Rightarrow> nm' = nm \<and> key' = key \<and> typed t x \<and> typed_fields fs vals' | [] \<Rightarrow> False)"

fun wf_type :: "ftype \<Rightarrow> bool"
  and wf_types :: "ftype list \<Rightarrow> bool"
  and wf_body :: "body \<Rightarrow> bool"
  and wf_fields :: "bfield list \<Rightarrow> bool"
where
  "wf_type (TUnion ts) \<longleftrightarrow> wf_types ts \<and> length (filter (\<lambda>t. t \<noteq> TNone) ts) = 1"
| "wf_type (TBody b) \<longleftrightarrow> wf_body b"
| "wf_type (TList t) \<longleftrightarrow> wf_type t"
| "wf_type _ \<longleftrightarrow> True"
| "wf_types [] \<longleftrightarrow> True"
| "wf_types (t # ts) \<longleftrightarrow> wf_type t \<and> wf_types ts"
| "wf_body (Body n fs es) \<longleftrightarrow> distinct (map fld_key fs) \<and> wf_fields fs"
| "wf_fields [] \<longleftrightarrow> True"
| "wf_fields (BField nm key t d # fs) \<longleftrightarrow>
     wf_type t \<and> (case d of None \<Rightarrow> True | Some x \<Rightarrow> typed t x) \<and> wf_fields fs"

subsection \<open>Decoding and encoding\<close>

lemma decoded_is_typed:
  "wf_type t \<Longrightarrow> decode_value strict owner key v t = Inr x \<Longrightarrow> typed t x"
  "wf_types ts \<Longrightarrow> decode_union strict owner key v ts = Inr x \<Longrightarrow> typed_some ts x"
  "wf_body b \<Longrightarrow> from_body strict b raw = Inr x \<Longrightarrow> typed_body b x"
  "wf_fields fs \<Longrightarrow> decode_fields strict n raw fs = Inr vals \<Longrightarrow> typed_fields fs vals"
proof (induction strict owner key v t and strict owner key v ts and strict b raw and strict n raw fs
    arbitrary: x and x and x and vals rule: decode_value_decode_union_from_body_decode_fields.induct)
  case (5 strict owner key v t)
  then show ?case
    by (auto simp: mapE_Inr_iff list_all2_conv_all_nth list_all_length in_set_conv_nth split: json.splits) metis
next
  case (14 strict n raw nm key t d fs)
  then show ?case by (auto split: option.splits)
qed (auto split: json.splits if_splits sum.splits simp: Let_def)

lemma typed_some_single:
  assumes "typed_some ts x" and "length (filter (\<lambda>t. t \<noteq> TNone) ts) = 1"
  obtains pre t post where "ts = pre @ t # post" "t \<noteq> TNone" "typed t x" "set pre \<subseteq> {TNone}"
proof -
  obtain t where t: "filter (\<lambda>t. t \<noteq> TNone) ts = [t]"
    using assms(2) by (auto simp: length_Suc_conv numeral_eq_Suc)
  then have "\<exists>pre post. ts = pre @ t # post \<and> (\<forall>u\<in>set pre. \<not> u \<noteq> TNone) \<and> t \<noteq> TNone \<and> [] = filter (\<lambda>t. t \<noteq> TNone) post"
    by (rule filter_eq_ConsD)
  then obtain pre post where ts: "ts = pre @ t # post" "set pre \<subseteq> {TNone}" "set post \<subseteq> {TNone}" "t \<noteq> TNone"
    by (fastforce dest: sym [of "[]"] simp: filter_empty_conv)
  have sub: "set us \<subseteq> {TNone} \<Longrightarrow> \<not> typed_some us x" for us by (induction us) auto
  have "typed_some (pre @ us) x \<longleftrightarrow> typed_some us x" for us using ts(2) by (induction pre) auto
  with assms(1) ts(1,4) sub [OF ts(3)] have "typed t x" by simp
  with ts that show ?thesis by blast
qed

lemma to_body_null [simp]: "to_body_value x = JNull \<longleftrightarrow> x = VJson JNull"
  by (cases x) auto

lemma decode_union_single:
  assumes "set pre \<subseteq> {TNone}" and "t \<noteq> TNone" and "decode_value strict owner key v t = Inr x"
  shows "decode_union strict owner key v (pre @ t # post) = Inr x"
  using assms by (induction pre) auto

lemma typed_fields_keys: "typed_fields fs vals \<Longrightarrow> map (fst \<circ> snd) vals = map fld_key fs \<and> map fst vals = map fld_name fs"
proof (induction fs arbitrary: vals)
  case (Cons f fs)
  then show ?case by (cases f) (auto split: list.splits)
qed simp

lemma encoded_lookup:
  assumes "distinct (map (fst \<circ> snd) vals)" and "(nm, key, x) \<in> set vals"
  shows "map_of (map (\<lambda>(nm, key, x). (key, to_body_value x)) vals) key = Some (to_body_value x)"
proof (rule map_of_is_SomeI)
  show "distinct (map fst (map (\<lambda>(nm, key, x). (key, to_body_value x)) vals))"
    using assms(1) by (simp add: o_def split_def)
qed (use assms(2) in force)

lemma typed_decodes:
  "wf_type t \<Longrightarrow> typed t x \<Longrightarrow> decode_value strict owner key (to_body_value x) t = Inr x"
  "wf_types ts \<Longrightarrow> \<forall>t \<in> set ts. typed t x \<longrightarrow> (\<forall>owner key. decode_value strict owner key (to_body_value x) t = Inr x)"
  "wf_body b \<Longrightarrow> typed_body b x \<Longrightarrow> \<exists>d. to_body_value x = JDict d \<and> from_body strict b d = Inr x"
  "wf_fields fs \<Longrightarrow> typed_fields fs vals \<Longrightarrow> (\<forall>(nm, key, x) \<in> set vals. map_of raw key = Some (to_body_value x))
     \<Longrightarrow> decode_fields strict n raw fs = Inr vals"
proof (induction t x and ts x and b x and fs vals arbitrary: owner key and raw and n and n raw
    rule: typed_typed_some_typed_body_typed_fields.induct)
  case (3 ts x)
  show ?case
  proof (cases "x = VJson JNull \<and> TNone \<in> set ts")
    case False
    with 3 obtain pre t post where t: "ts = pre @ t # post" "t \<noteq> TNone" "typed t x" "set pre \<subseteq> {TNone}"
      by (auto elim!: typed_some_single)
    with 3 have "decode_value strict owner key (to_body_value x) t = Inr x" by simp
    with t False show ?thesis by (auto simp: decode_union_single)
  qed simp
next
  case (4 b x)
  then show ?case by fastforce
next
  case (5 t x)
  then show ?case
    by (cases x) (auto simp: mapE_Inr_iff list_all2_conv_all_nth list_all_length)
next
  case (12 n fs es x)
  then obtain vals where x: "x = VObj n vals" and vals: "typed_fields fs vals" "post_init es vals"
    by (auto split: bval.splits)
  let ?d = "map (\<lambda>(nm, key, x). (key, to_body_value x)) vals"
  have keys: "map fst ?d = map fld_key fs" using typed_fields_keys [OF vals(1)] by (simp add: o_def split_def)
  have "distinct (map (fst \<circ> snd) vals)" using 12(2) typed_fields_keys [OF vals(1)] by simp
  then have "\<forall>(nm, key, x) \<in> set vals. map_of ?d key = Some (to_body_value x)"
    by (auto intro: encoded_lookup)
  with 12 x vals have "decode_fields strict n ?d fs = Inr vals" by simp
  with x vals keys show ?case by (simp add: Let_def filter_empty_conv flip: set_map)
qed (auto split: bval.splits json.splits list.splits)

lemma decode_fields_cong:
  assumes "\<And>f. f \<in> set fs \<Longrightarrow> map_of raw (fld_key f) = map_of raw' (fld_key f)"
  shows "decode_fields strict n raw fs = decode_fields strict n raw' fs"
  using assms
proof (induction fs)
  case (Cons f fs)
  from Cons.prems [of f] have "map_of raw (fld_key f) = map_of raw' (fld_key f)" by simp
  with Cons show ?case by (cases f) simp
qed simp

lemma typed_attr:
  assumes "typed_fields fs vals" and "BField nm key t d \<in> set fs" and "distinct (map fld_name fs)"
  obtains v where "attr_of vals nm = Some v" "typed t v"
proof -
  have "\<exists>v. attr_of vals nm = Some v \<and> typed t v"
    using assms
  proof (induction fs arbitrary: vals)
    case (Cons f fs)
    obtain nm' key' t' d' where f: "f = BField nm' key' t' d'" by (cases f)
    with Cons.prems obtain x vals' where v: "vals = (nm', key', x) # vals'" "typed t' x" "typed_fields fs vals'"
      by (auto split: list.splits)
    show ?case
    proof (cases "BField nm key t d = f")
      case True
      with f v show ?thesis by (simp add: attr_of_def)
    next
      case False
      with Cons f v obtain w where "attr_of vals' nm = Some w" "typed t w" by auto
      moreover have "nm' \<noteq> nm" using Cons.prems(2,3) False f by (force simp: image_iff)
      ultimately show ?thesis using v by (auto simp: attr_of_def)
    qed
  qed simp
  with that show ?thesis by blast
qed

subsection \<open>Properties\<close>

definition sample_body :: body where
  "sample_body = Body ''SampleBody''
     [BField ''name'' ''name'' TStr None, BField ''api_version'' ''apiVersion'' (TUnion [TStr, TNone]) (Some (VJson JNull)),
      BField ''items'' ''items'' (TList TInt) (Some (VList []))] []"

text \<open>
  C24. What a service publishes, another service reads back: for every well-formed body declaration,
  each well-typed instance is decoded from its own wire form to itself, by the strict decoder and by
  the one that tolerates unknown fields.
\<close>

theorem body_roundtrip:
  assumes "wf_body b" and "typed_body b x"
  shows "from_body strict b (to_body x) = Inr x"
  using typed_decodes(3) [OF assms, of strict] by (auto simp: to_body_def)

theorem body_roundtrip_witness:
  "from_body True sample_body (to_body (VObj ''SampleBody''
     [(''name'', ''name'', VJson (JStr ''a'')), (''api_version'', ''apiVersion'', VJson JNull),
      (''items'', ''items'', VList [VJson (JInt 3)])]))
   = Inr (VObj ''SampleBody''
     [(''name'', ''name'', VJson (JStr ''a'')), (''api_version'', ''apiVersion'', VJson JNull),
      (''items'', ''items'', VList [VJson (JInt 3)])])"
  by (rule body_roundtrip) (simp_all add: sample_body_def)

text \<open>
  Decoding normalises once: an accepted payload, read strictly or leniently, gives a well-typed
  instance with every default filled in, and what that instance publishes is accepted strictly and
  decodes to the same instance.
\<close>

theorem decoded_body_is_normal:
  assumes "wf_body b" and "from_body strict b raw = Inr x"
  shows "typed_body b x \<and> from_body True b (to_body x) = Inr x"
proof -
  have t: "typed_body b x" by (rule decoded_is_typed(3) [OF assms])
  with typed_decodes(3) [OF assms(1) t, of True] show ?thesis by (auto simp: to_body_def)
qed

theorem decoded_body_is_normal_witness:
  "typed_body sample_body (VObj ''SampleBody''
     [(''name'', ''name'', VJson (JStr ''a'')), (''api_version'', ''apiVersion'', VJson JNull), (''items'', ''items'', VList [])])"
proof -
  have "from_body False sample_body [(''added'', JInt 1), (''name'', JStr ''a'')] = Inr (VObj ''SampleBody''
     [(''name'', ''name'', VJson (JStr ''a'')), (''api_version'', ''apiVersion'', VJson JNull), (''items'', ''items'', VList [])])"
    by code_simp
  moreover have "wf_body sample_body" by code_simp
  ultimately show ?thesis using decoded_body_is_normal by blast
qed

text \<open>
  Additive evolution: for every body declaration, fields it does not declare change nothing for
  the lenient decoder, wherever they stand among the known ones, and the strict decoder rejects the
  payload naming exactly them.
\<close>

theorem additive_fields:
  assumes "list_all (\<lambda>k. k \<notin> fld_key ` set (body_fields b)) (map fst extra)"
  shows "from_body False b (raw @ extra) = from_body False b raw \<and> from_body False b (extra @ raw) = from_body False b raw
    \<and> (extra \<noteq> [] \<and> list_all (\<lambda>k. k \<in> fld_key ` set (body_fields b)) (map fst raw)
        \<longrightarrow> from_body True b (raw @ extra) = Inl (UnexpectedFields (body_name b) (map fst extra)))"
proof (cases b)
  case (Body n fs es)
  have "map_of extra (fld_key f) = None" if "f \<in> set fs" for f
    using assms Body that by (fastforce simp: map_of_eq_None_iff list_all_iff)
  then have "decode_fields False n (raw @ extra) fs = decode_fields False n raw fs"
    "decode_fields False n (extra @ raw) fs = decode_fields False n raw fs"
    by (auto intro!: decode_fields_cong simp: map_add_def split: option.splits)
  moreover have "filter (\<lambda>k. k \<notin> fld_key ` set fs) (map fst extra) = map fst extra"
    using assms Body by (auto simp: filter_id_conv list_all_iff)
  moreover have "list_all (\<lambda>k. k \<in> fld_key ` set fs) (map fst raw) \<Longrightarrow> filter (\<lambda>k. k \<notin> fld_key ` set fs) (map fst raw) = []"
    by (auto simp: filter_empty_conv list_all_iff)
  ultimately show ?thesis using Body by (auto simp: Let_def)
qed

theorem additive_fields_witness:
  "from_body True sample_body ([(''name'', JStr ''a'')] @ [(''zone'', JInt 1)]) = Inl (UnexpectedFields ''SampleBody'' [''zone''])"
  using additive_fields [of sample_body "[(''zone'', JInt 1)]" "[(''name'', JStr ''a'')]"]
  by (simp add: sample_body_def)

end
