(* ===== verification/Event_Catalog.thy ===== *)
theory Event_Catalog
  imports Event_Body
begin

section \<open>The catalogue of events\<close>

text \<open>
  Every dataclass that travels on the event bus, as a declaration that \<open>from_body\<close> reads:
  \<^verbatim>\<open>src/src/packages/contracts/event_bus/bodies/platform.py\<close> and the \<^verbatim>\<open>events.py\<close> of the domains
  \<^verbatim>\<open>gitops\<close>, \<^verbatim>\<open>target\<close>, \<^verbatim>\<open>scm\<close>, \<^verbatim>\<open>command\<close> and \<^verbatim>\<open>rca\<close>, with the subjects of
  \<^verbatim>\<open>src/src/packages/contracts/event_bus/subjects.py\<close>. Fields stand in the order of the dataclass; a
  field declared twice keeps its first position and its last type and default, as \<^verbatim>\<open>dataclass\<close> has it.
  \<open>catalogue\<close> is what the \<^verbatim>\<open>@event\<close> decorators register.
\<close>

definition req :: "string \<Rightarrow> ftype \<Rightarrow> bfield" where
  "req n t = BField n n t None"

definition dflt :: "string \<Rightarrow> ftype \<Rightarrow> bval \<Rightarrow> bfield" where
  "dflt n t v = BField n n t (Some v)"

definition dstr :: "string \<Rightarrow> string \<Rightarrow> bfield" where
  "dstr n v = BField n n TStr (Some (VJson (JStr v)))"

definition optional :: "ftype \<Rightarrow> ftype" where
  "optional t = TUnion [t, TNone]"

definition nullable :: "string \<Rightarrow> bfield" where
  "nullable n = BField n n (optional TStr) (Some (VJson JNull))"

subsection \<open>Shared defaults\<close>

definition DEFAULT_WORKSPACE_ID :: string where
  "DEFAULT_WORKSPACE_ID = ''default''"

definition DEFAULT_REPOSITORY_ID :: string where
  "DEFAULT_REPOSITORY_ID = []"

definition DEFAULT_WATCH_TARGET_ID :: string where
  "DEFAULT_WATCH_TARGET_ID = []"

definition DEFAULT_DEPLOYMENT_BINDING_ID :: string where
  "DEFAULT_DEPLOYMENT_BINDING_ID = []"

definition DEFAULT_APPLICATION_ID :: string where
  "DEFAULT_APPLICATION_ID = []"

definition DEFAULT_WORKFLOW_RUN_ID :: string where
  "DEFAULT_WORKFLOW_RUN_ID = []"

definition DEFAULT_ENVIRONMENT :: string where
  "DEFAULT_ENVIRONMENT = ''sandbox''"

definition DEFAULT_REPO_REF :: string where
  "DEFAULT_REPO_REF = []"

definition DEFAULT_REPO_BRANCH :: string where
  "DEFAULT_REPO_BRANCH = ''main''"

definition DEFAULT_MANIFEST_PATH :: string where
  "DEFAULT_MANIFEST_PATH = ''deploy.yaml''"

definition DEFAULT_CLUSTER_ID :: string where
  "DEFAULT_CLUSTER_ID = ''default-target-cluster''"

definition RESOURCE_CLASS_APPLICATION :: string where
  "RESOURCE_CLASS_APPLICATION = ''application''"

definition RELEASE_OPERATOR :: string where
  "RELEASE_OPERATOR = ''release_operator''"

definition SAFE_PR_KIND_PATCH :: string where
  "SAFE_PR_KIND_PATCH = ''safe_pr_patch''"

definition SAFE_PR_DELIVERY_PULL_REQUEST :: string where
  "SAFE_PR_DELIVERY_PULL_REQUEST = ''pull_request''"

definition CAUSE_CANDIDATE_SOURCE_RULE :: string where
  "CAUSE_CANDIDATE_SOURCE_RULE = ''rule''"

definition RISK_LEVELS :: "string list" where
  "RISK_LEVELS = [''sandbox-only'', ''non-sandbox-namespace'', ''review-required'']"

subsection \<open>Platform\<close>

definition DeadLetterCreatedBody :: body where
  "DeadLetterCreatedBody = Body ''DeadLetterCreatedBody''
     [req ''dead_letter_id'' TInt, req ''original_event_id'' TStr, req ''original_subject'' TStr,
      req ''consumer'' TStr, req ''attempts'' TInt, req ''error'' TStr, req ''created_at'' TStr,
      req ''status'' TStr, req ''correlation_id'' TStr, dflt ''payload'' (optional TDict) (VJson JNull)]
     []"

definition PipelineContractFailedBody :: body where
  "PipelineContractFailedBody = Body ''PipelineContractFailedBody''
     [req ''contract'' TStr, req ''reason'' TStr, req ''consumer'' TStr, req ''payload'' TDict,
      req ''workspace_id'' TStr, nullable ''evidence_ref'', dstr ''severity'' ''warning'',
      dflt ''diagnostics'' TDict (VJson (JDict []))]
     []"

subsection \<open>GitOps\<close>

definition Manifest :: body where
  "Manifest = Body ''Manifest''
     [req ''app'' TStr, req ''image'' TStr, req ''replicas'' TInt, req ''namespace'' TStr,
      dstr ''manifest_path'' DEFAULT_MANIFEST_PATH]
     []"

definition RenderedMetadata :: body where
  "RenderedMetadata = Body ''RenderedMetadata''
     [req ''name'' TStr, req ''namespace'' TStr]
     []"

definition RenderedSpec :: body where
  "RenderedSpec = Body ''RenderedSpec''
     [dflt ''replicas'' TInt (VJson (JInt 0)), dstr ''image'' []]
     []"

definition RenderedManifest :: body where
  "RenderedManifest = Body ''RenderedManifest''
     [BField ''api_version'' ''apiVersion'' TStr None, req ''kind'' TStr,
      req ''metadata'' (TBody RenderedMetadata), req ''spec'' (TBody RenderedSpec),
      dstr ''resource_class'' RESOURCE_CLASS_APPLICATION, dflt ''manifest'' TDict (VJson (JDict [])),
      dflt ''declared_fields'' (TList TStr) (VList []), dflt ''managed_fields'' (TList TStr) (VList []),
      dflt ''ignored_fields'' (TList TStr) (VList []),
      dflt ''last_approved_snapshot'' TDict (VJson (JDict [])), dstr ''artifact_digest'' []]
     []"

definition Diff :: body where
  "Diff = Body ''Diff''
     [req ''resource'' TStr, req ''namespace'' TStr, req ''desired_image'' TStr,
      req ''actual_image'' TStr, req ''risk'' TAny, dstr ''workspace_id'' DEFAULT_WORKSPACE_ID,
      dstr ''repository_id'' DEFAULT_REPOSITORY_ID, dstr ''watch_target_id'' DEFAULT_WATCH_TARGET_ID,
      dstr ''binding_id'' DEFAULT_DEPLOYMENT_BINDING_ID, dstr ''application_id'' DEFAULT_APPLICATION_ID,
      dstr ''workflow_run_id'' DEFAULT_WORKFLOW_RUN_ID, dstr ''environment'' DEFAULT_ENVIRONMENT,
      dstr ''cluster_id'' DEFAULT_CLUSTER_ID, dstr ''manifest_path'' DEFAULT_MANIFEST_PATH,
      dstr ''resource_class'' RESOURCE_CLASS_APPLICATION,
      dflt ''desired_manifest'' TDict (VJson (JDict [])), dstr ''status'' ''legacy_image_diff'',
      dflt ''has_changes'' TBool (VJson (JBool True)), dflt ''changes'' (TList TDict) (VList []),
      dflt ''basis'' TDict (VJson (JDict []))]
     [(''risk'', RISK_LEVELS)]"

definition GitWebhookReceivedBody :: body where
  "GitWebhookReceivedBody = Body ''GitWebhookReceivedBody''
     [req ''commit_sha'' TStr, req ''image'' TStr, req ''replicas'' TInt, dstr ''correlation_id'' [],
      dstr ''workspace_id'' DEFAULT_WORKSPACE_ID, dstr ''repository_id'' DEFAULT_REPOSITORY_ID,
      dstr ''repo_ref'' DEFAULT_REPO_REF, dstr ''branch'' DEFAULT_REPO_BRANCH,
      dstr ''watch_target_id'' DEFAULT_WATCH_TARGET_ID,
      dstr ''binding_id'' DEFAULT_DEPLOYMENT_BINDING_ID, dstr ''application_id'' DEFAULT_APPLICATION_ID,
      dstr ''workflow_run_id'' DEFAULT_WORKFLOW_RUN_ID, dstr ''environment'' DEFAULT_ENVIRONMENT,
      dstr ''cluster_id'' DEFAULT_CLUSTER_ID, dstr ''manifest_path'' DEFAULT_MANIFEST_PATH,
      dstr ''source_type'' [], dflt ''force'' TBool (VJson (JBool False))]
     []"

definition GitChangedBody :: body where
  "GitChangedBody = Body ''GitChangedBody''
     [req ''commit_sha'' TStr, req ''image'' TStr, req ''replicas'' TInt,
      dstr ''workspace_id'' DEFAULT_WORKSPACE_ID, dstr ''repository_id'' DEFAULT_REPOSITORY_ID,
      dstr ''repo_ref'' DEFAULT_REPO_REF, dstr ''branch'' DEFAULT_REPO_BRANCH,
      dstr ''watch_target_id'' DEFAULT_WATCH_TARGET_ID,
      dstr ''binding_id'' DEFAULT_DEPLOYMENT_BINDING_ID, dstr ''application_id'' DEFAULT_APPLICATION_ID,
      dstr ''workflow_run_id'' DEFAULT_WORKFLOW_RUN_ID, dstr ''environment'' DEFAULT_ENVIRONMENT,
      dstr ''cluster_id'' DEFAULT_CLUSTER_ID, dstr ''manifest_path'' DEFAULT_MANIFEST_PATH,
      dstr ''source_type'' []]
     []"

definition ManifestRenderedBody :: body where
  "ManifestRenderedBody = Body ''ManifestRenderedBody''
     [req ''rendered_manifest'' (TBody RenderedManifest), dstr ''workspace_id'' DEFAULT_WORKSPACE_ID,
      dstr ''repository_id'' DEFAULT_REPOSITORY_ID, dstr ''watch_target_id'' DEFAULT_WATCH_TARGET_ID,
      dstr ''binding_id'' DEFAULT_DEPLOYMENT_BINDING_ID, dstr ''application_id'' DEFAULT_APPLICATION_ID,
      dstr ''workflow_run_id'' DEFAULT_WORKFLOW_RUN_ID, dstr ''environment'' DEFAULT_ENVIRONMENT,
      dstr ''cluster_id'' DEFAULT_CLUSTER_ID, dstr ''commit_sha'' [],
      dstr ''manifest_path'' DEFAULT_MANIFEST_PATH, dstr ''repo_ref'' DEFAULT_REPO_REF,
      dstr ''branch'' DEFAULT_REPO_BRANCH]
     []"

definition ManifestInvalidBody :: body where
  "ManifestInvalidBody = Body ''ManifestInvalidBody''
     [req ''workspace_id'' TStr, req ''repository_id'' TStr, req ''watch_target_id'' TStr,
      req ''binding_id'' TStr, req ''commit_sha'' TStr, req ''manifest_path'' TStr, req ''reason'' TStr,
      dstr ''application_id'' DEFAULT_APPLICATION_ID, dstr ''workflow_run_id'' DEFAULT_WORKFLOW_RUN_ID,
      dstr ''environment'' DEFAULT_ENVIRONMENT, dstr ''cluster_id'' DEFAULT_CLUSTER_ID]
     []"

definition DesiredDesiredDiffDetectedBody :: body where
  "DesiredDesiredDiffDetectedBody = Body ''DesiredDesiredDiffDetectedBody''
     [req ''diff'' (TBody Diff)]
     []"

definition GitOpsChangeContextDetectedBody :: body where
  "GitOpsChangeContextDetectedBody = Body ''GitOpsChangeContextDetectedBody''
     [req ''metadata'' TDict, dstr ''workspace_id'' DEFAULT_WORKSPACE_ID,
      dstr ''repository_id'' DEFAULT_REPOSITORY_ID, dstr ''watch_target_id'' DEFAULT_WATCH_TARGET_ID,
      dstr ''binding_id'' DEFAULT_DEPLOYMENT_BINDING_ID, dstr ''application_id'' DEFAULT_APPLICATION_ID,
      dstr ''workflow_run_id'' DEFAULT_WORKFLOW_RUN_ID, dstr ''environment'' DEFAULT_ENVIRONMENT,
      dstr ''cluster_id'' DEFAULT_CLUSTER_ID, dstr ''commit_sha'' [],
      dstr ''manifest_path'' DEFAULT_MANIFEST_PATH, dstr ''repo_ref'' DEFAULT_REPO_REF,
      dstr ''branch'' DEFAULT_REPO_BRANCH, dstr ''resource'' []]
     []"

definition DiffAnalyzedBody :: body where
  "DiffAnalyzedBody = Body ''DiffAnalyzedBody''
     [req ''diff'' (TBody Diff), req ''safe'' TBool, req ''risk'' TStr, req ''reason'' TStr]
     []"

definition WorkflowCreatedBody :: body where
  "WorkflowCreatedBody = Body ''WorkflowCreatedBody''
     [dstr ''workspace_id'' DEFAULT_WORKSPACE_ID, dstr ''application_id'' DEFAULT_APPLICATION_ID,
      dstr ''workflow_run_id'' DEFAULT_WORKFLOW_RUN_ID, dstr ''repository_id'' DEFAULT_REPOSITORY_ID,
      dstr ''watch_target_id'' DEFAULT_WATCH_TARGET_ID,
      dstr ''binding_id'' DEFAULT_DEPLOYMENT_BINDING_ID, dstr ''environment'' DEFAULT_ENVIRONMENT,
      dstr ''cluster_id'' DEFAULT_CLUSTER_ID, dstr ''commit_sha'' [],
      dstr ''manifest_path'' DEFAULT_MANIFEST_PATH]
     []"

definition WorkflowRunStartedBody :: body where
  "WorkflowRunStartedBody = Body ''WorkflowRunStartedBody''
     [req ''workflow_run_id'' TStr, req ''application_id'' TStr,
      dstr ''workspace_id'' DEFAULT_WORKSPACE_ID, dstr ''repository_id'' DEFAULT_REPOSITORY_ID,
      dstr ''watch_target_id'' DEFAULT_WATCH_TARGET_ID,
      dstr ''binding_id'' DEFAULT_DEPLOYMENT_BINDING_ID, dstr ''environment'' DEFAULT_ENVIRONMENT,
      dstr ''cluster_id'' DEFAULT_CLUSTER_ID, dstr ''commit_sha'' [],
      dstr ''manifest_path'' DEFAULT_MANIFEST_PATH, dstr ''status'' ''started'',
      dstr ''current_step'' ''git'']
     []"

definition WorkflowStepRecordedBody :: body where
  "WorkflowStepRecordedBody = Body ''WorkflowStepRecordedBody''
     [req ''workflow_run_id'' TStr, req ''application_id'' TStr, req ''step'' TStr, req ''status'' TStr,
      dstr ''workspace_id'' DEFAULT_WORKSPACE_ID, dstr ''binding_id'' DEFAULT_DEPLOYMENT_BINDING_ID,
      dstr ''environment'' DEFAULT_ENVIRONMENT, nullable ''message'',
      dflt ''details'' TDict (VJson (JDict []))]
     []"

definition ApprovalRequestedBody :: body where
  "ApprovalRequestedBody = Body ''ApprovalRequestedBody''
     [req ''approval_id'' TStr, req ''workflow_run_id'' TStr, req ''application_id'' TStr,
      req ''reason'' TStr, dstr ''workspace_id'' DEFAULT_WORKSPACE_ID,
      dstr ''binding_id'' DEFAULT_DEPLOYMENT_BINDING_ID, dstr ''environment'' DEFAULT_ENVIRONMENT,
      dstr ''requested_role'' RELEASE_OPERATOR, dflt ''details'' TDict (VJson (JDict []))]
     []"

definition ApprovalGrantedBody :: body where
  "ApprovalGrantedBody = Body ''ApprovalGrantedBody''
     [req ''approval_id'' TStr, req ''workflow_run_id'' TStr, req ''application_id'' TStr,
      dstr ''workspace_id'' DEFAULT_WORKSPACE_ID, dstr ''binding_id'' DEFAULT_DEPLOYMENT_BINDING_ID,
      dstr ''environment'' DEFAULT_ENVIRONMENT, nullable ''decided_by'', dstr ''decision'' ''granted'',
      dflt ''details'' TDict (VJson (JDict []))]
     []"

definition ApprovalRejectedBody :: body where
  "ApprovalRejectedBody = Body ''ApprovalRejectedBody''
     [req ''approval_id'' TStr, req ''workflow_run_id'' TStr, req ''application_id'' TStr,
      req ''reason'' TStr, dstr ''workspace_id'' DEFAULT_WORKSPACE_ID,
      dstr ''binding_id'' DEFAULT_DEPLOYMENT_BINDING_ID, dstr ''environment'' DEFAULT_ENVIRONMENT,
      nullable ''decided_by'', dflt ''details'' TDict (VJson (JDict []))]
     []"

definition WorkflowRunCompletedBody :: body where
  "WorkflowRunCompletedBody = Body ''WorkflowRunCompletedBody''
     [req ''workflow_run_id'' TStr, req ''application_id'' TStr,
      dstr ''workspace_id'' DEFAULT_WORKSPACE_ID, dstr ''binding_id'' DEFAULT_DEPLOYMENT_BINDING_ID,
      dstr ''environment'' DEFAULT_ENVIRONMENT, dstr ''summary'' ''workflow succeeded'',
      dflt ''details'' TDict (VJson (JDict []))]
     []"

definition WorkflowRunFailedBody :: body where
  "WorkflowRunFailedBody = Body ''WorkflowRunFailedBody''
     [req ''workflow_run_id'' TStr, req ''application_id'' TStr, req ''reason'' TStr,
      dstr ''workspace_id'' DEFAULT_WORKSPACE_ID, dstr ''binding_id'' DEFAULT_DEPLOYMENT_BINDING_ID,
      dstr ''environment'' DEFAULT_ENVIRONMENT, dflt ''details'' TDict (VJson (JDict []))]
     []"

subsection \<open>Target clusters\<close>

definition AgentConnectedBody :: body where
  "AgentConnectedBody = Body ''AgentConnectedBody''
     [req ''cluster_id'' TStr, req ''agent_id'' TStr, dflt ''capabilities'' (TList TStr) (VList []),
      dstr ''workspace_id'' DEFAULT_WORKSPACE_ID]
     []"

subsection \<open>Source control\<close>

definition SafePrFilePatch :: body where
  "SafePrFilePatch = Body ''SafePrFilePatch''
     [req ''path'' TStr, req ''content'' TStr, dstr ''description'' []]
     []"

definition SafePrRequestedBody :: body where
  "SafePrRequestedBody = Body ''SafePrRequestedBody''
     [req ''title'' TStr, req ''body'' TStr, req ''provider'' TStr,
      dflt ''patches'' (TList (TBody SafePrFilePatch)) (VList []), dstr ''pr_kind'' SAFE_PR_KIND_PATCH,
      dstr ''workspace_id'' DEFAULT_WORKSPACE_ID, dstr ''repository_id'' DEFAULT_REPOSITORY_ID,
      dstr ''binding_id'' DEFAULT_DEPLOYMENT_BINDING_ID, dstr ''application_id'' DEFAULT_APPLICATION_ID,
      dstr ''workflow_run_id'' DEFAULT_WORKFLOW_RUN_ID, dstr ''environment'' DEFAULT_ENVIRONMENT,
      dstr ''manifest_path'' DEFAULT_MANIFEST_PATH, dstr ''repo_ref'' DEFAULT_REPO_REF,
      dstr ''base_branch'' [], dstr ''commit_sha'' [], dstr ''cluster_id'' [],
      dstr ''target_namespace'' [], dstr ''target_resource'' [], dstr ''target_authority'' [],
      dstr ''patch_sha256'' [], nullable ''approval_ref'', nullable ''policy_decision_ref'',
      dstr ''evidence_ref'' [], dstr ''delivery'' SAFE_PR_DELIVERY_PULL_REQUEST]
     []"

definition SafePrCreatedBody :: body where
  "SafePrCreatedBody = Body ''SafePrCreatedBody''
     [req ''pr_url'' TStr, req ''provider'' TStr, req ''mode'' TStr,
      dstr ''workspace_id'' DEFAULT_WORKSPACE_ID, dstr ''repository_id'' DEFAULT_REPOSITORY_ID,
      dstr ''binding_id'' DEFAULT_DEPLOYMENT_BINDING_ID, dstr ''application_id'' DEFAULT_APPLICATION_ID,
      dstr ''workflow_run_id'' DEFAULT_WORKFLOW_RUN_ID, dstr ''environment'' DEFAULT_ENVIRONMENT,
      dstr ''manifest_path'' DEFAULT_MANIFEST_PATH, dstr ''repo_ref'' DEFAULT_REPO_REF,
      dstr ''base_branch'' [], dstr ''commit_sha'' [], dstr ''patch_sha256'' [],
      dflt ''pr_number'' (optional TInt) (VJson JNull), dstr ''pr_node_id'' [], dstr ''head_ref'' [],
      dstr ''head_sha'' []]
     []"

definition SafePrReadyForCreationBody :: body where
  "SafePrReadyForCreationBody = Body ''SafePrReadyForCreationBody''
     [req ''request'' (TBody SafePrRequestedBody), req ''summary'' TStr, req ''risk'' TStr,
      dflt ''details'' TDict (VJson (JDict [])), dstr ''workspace_id'' DEFAULT_WORKSPACE_ID]
     []"

definition SafePrFailedBody :: body where
  "SafePrFailedBody = Body ''SafePrFailedBody''
     [req ''provider'' TStr, req ''title'' TStr, req ''reason'' TStr,
      dstr ''workspace_id'' DEFAULT_WORKSPACE_ID, dstr ''repository_id'' DEFAULT_REPOSITORY_ID,
      dstr ''binding_id'' DEFAULT_DEPLOYMENT_BINDING_ID, dstr ''application_id'' DEFAULT_APPLICATION_ID,
      dstr ''workflow_run_id'' DEFAULT_WORKFLOW_RUN_ID, dstr ''environment'' DEFAULT_ENVIRONMENT,
      dstr ''manifest_path'' DEFAULT_MANIFEST_PATH, dstr ''repo_ref'' DEFAULT_REPO_REF,
      dstr ''base_branch'' [], dstr ''commit_sha'' [], dstr ''patch_sha256'' [],
      dstr ''reason_code'' ''safe_pr_failed'', dstr ''stage'' ''scm'', dstr ''evidence_ref'' [],
      dflt ''details'' TDict (VJson (JDict []))]
     []"

subsection \<open>Commands\<close>

definition CommandRequestedBody :: body where
  "CommandRequestedBody = Body ''CommandRequestedBody''
     [req ''cluster_id'' TStr, req ''action'' TStr, req ''namespace'' TStr, req ''reason'' TStr,
      req ''diff'' (TBody Diff), nullable ''command_id'', dstr ''workspace_id'' DEFAULT_WORKSPACE_ID,
      dstr ''application_id'' DEFAULT_APPLICATION_ID, dstr ''workflow_run_id'' DEFAULT_WORKFLOW_RUN_ID,
      dstr ''binding_id'' DEFAULT_DEPLOYMENT_BINDING_ID, dstr ''environment'' DEFAULT_ENVIRONMENT,
      dflt ''priority'' TInt (VJson (JInt 100)), nullable ''requested_by'',
      dflt ''actor'' (optional TDict) (VJson JNull), nullable ''approval_ref'',
      nullable ''policy_decision_ref'', nullable ''approval_decided_by'',
      nullable ''approval_expires_at'', dflt ''direct_execution'' TBool (VJson (JBool False)),
      dflt ''direct_execution_confirmed'' TBool (VJson (JBool False)),
      dflt ''payload'' TDict (VJson (JDict []))]
     []"

definition LeaseMetadata :: body where
  "LeaseMetadata = Body ''LeaseMetadata''
     [req ''lease_seconds'' TInt, req ''heartbeat_interval_seconds'' TInt]
     []"

definition RetryPolicy :: body where
  "RetryPolicy = Body ''RetryPolicy''
     [req ''max_attempts'' TInt, req ''retry_delay_seconds'' TInt]
     []"

definition RoutingConstraint :: body where
  "RoutingConstraint = Body ''RoutingConstraint''
     [req ''channel'' TStr, req ''cluster_id'' TStr, req ''workspace_id'' TStr,
      req ''required_capability'' TStr]
     []"

definition Plan :: body where
  "Plan = Body ''Plan''
     [req ''command_id'' TStr, req ''idempotency_key'' TStr, req ''cluster_id'' TStr,
      req ''action'' TStr, req ''namespace'' TStr, req ''diff'' TDict, req ''payload'' TDict,
      req ''steps'' (TList TStr), req ''lease'' (TBody LeaseMetadata),
      req ''retry_policy'' (TBody RetryPolicy), req ''routing_constraint'' (TBody RoutingConstraint),
      dstr ''workspace_id'' DEFAULT_WORKSPACE_ID, dstr ''application_id'' DEFAULT_APPLICATION_ID,
      dstr ''workflow_run_id'' DEFAULT_WORKFLOW_RUN_ID,
      dstr ''binding_id'' DEFAULT_DEPLOYMENT_BINDING_ID, dstr ''environment'' DEFAULT_ENVIRONMENT,
      dflt ''priority'' TInt (VJson (JInt 100)), nullable ''approval_ref'',
      nullable ''policy_decision_ref'', nullable ''approval_decided_by'',
      nullable ''approval_expires_at'', dflt ''direct_execution'' TBool (VJson (JBool False)),
      dflt ''direct_execution_confirmed'' TBool (VJson (JBool False))]
     []"

definition Route :: body where
  "Route = Body ''Route''
     [req ''channel'' TStr, req ''cluster_id'' TStr]
     []"

definition CommandDispatchedBody :: body where
  "CommandDispatchedBody = Body ''CommandDispatchedBody''
     [req ''plan'' (TBody Plan), req ''route'' (TBody Route)]
     []"

definition CommandQueuedForAgentBody :: body where
  "CommandQueuedForAgentBody = Body ''CommandQueuedForAgentBody''
     [req ''command_id'' TStr, req ''cluster_id'' TStr, dstr ''workspace_id'' DEFAULT_WORKSPACE_ID,
      dstr ''application_id'' DEFAULT_APPLICATION_ID, dstr ''workflow_run_id'' DEFAULT_WORKFLOW_RUN_ID,
      dstr ''binding_id'' DEFAULT_DEPLOYMENT_BINDING_ID, dstr ''environment'' DEFAULT_ENVIRONMENT,
      dflt ''priority'' TInt (VJson (JInt 100)), nullable ''approval_ref'',
      nullable ''policy_decision_ref'', nullable ''approval_decided_by'',
      nullable ''approval_expires_at'', dflt ''direct_execution'' TBool (VJson (JBool False)),
      dflt ''direct_execution_confirmed'' TBool (VJson (JBool False))]
     []"

definition CommandRejectedBody :: body where
  "CommandRejectedBody = Body ''CommandRejectedBody''
     [req ''reason'' TStr, req ''requested'' TDict, nullable ''reason_code'']
     []"

definition CommandCancelRequestedBody :: body where
  "CommandCancelRequestedBody = Body ''CommandCancelRequestedBody''
     [req ''command_id'' TStr, req ''workspace_id'' TStr, nullable ''reason'',
      nullable ''requested_by'', dflt ''actor'' (optional TDict) (VJson JNull)]
     []"

definition CommandRetryRequestedBody :: body where
  "CommandRetryRequestedBody = Body ''CommandRetryRequestedBody''
     [req ''command_id'' TStr, req ''workspace_id'' TStr, nullable ''reason'',
      nullable ''requested_by'', dflt ''actor'' (optional TDict) (VJson JNull)]
     []"

definition CommandCompletedBody :: body where
  "CommandCompletedBody = Body ''CommandCompletedBody''
     [req ''command_id'' TStr, req ''result'' TDict]
     []"

subsection \<open>Root-cause analysis and recovery\<close>

definition ClusterEvidenceReceivedBody :: body where
  "ClusterEvidenceReceivedBody = Body ''ClusterEvidenceReceivedBody''
     [req ''cluster_id'' TStr, req ''kubernetes'' TDict, req ''metrics'' TDict,
      req ''logs'' (TList TDict), req ''traces'' TDict, dstr ''workspace_id'' DEFAULT_WORKSPACE_ID,
      nullable ''agent_id'', nullable ''source_id'', nullable ''window_start'',
      nullable ''evidence_key'', nullable ''workflow_run_id'',
      dflt ''release_context'' TDict (VJson (JDict [])),
      dflt ''collection_status'' TDict (VJson (JDict [])), dflt ''metadata'' TDict (VJson (JDict [])),
      nullable ''correlation_id'', nullable ''kind'',
      dflt ''payload_size'' (optional TInt) (VJson JNull), dflt ''summary'' TDict (VJson (JDict []))]
     []"

definition Evidence :: body where
  "Evidence = Body ''Evidence''
     [req ''cluster_id'' TStr, req ''kubernetes'' TDict, req ''metrics'' TDict,
      req ''logs'' (TList TDict), req ''traces'' TDict, req ''object_ref'' TStr,
      dflt ''metadata'' TDict (VJson (JDict [])), dstr ''workspace_id'' DEFAULT_WORKSPACE_ID]
     []"

definition IncidentRecord :: body where
  "IncidentRecord = Body ''IncidentRecord''
     [req ''incident_id'' TStr, req ''cluster_id'' TStr, req ''resource_kind'' TStr,
      req ''resource_name'' TStr, req ''namespace'' (optional TStr), req ''symptom'' TStr,
      req ''severity'' TStr, req ''first_seen_at'' (optional TStr), req ''summary'' TStr,
      nullable ''category'', dstr ''workspace_id'' DEFAULT_WORKSPACE_ID,
      dflt ''secondary_symptoms'' (TList TStr) (VList [])]
     []"

definition IncidentDetectedBody :: body where
  "IncidentDetectedBody = Body ''IncidentDetectedBody''
     [req ''cluster_id'' TStr, req ''detected'' TBool, req ''reason'' TStr,
      dstr ''workspace_id'' DEFAULT_WORKSPACE_ID, nullable ''severity'',
      dflt ''affected'' (optional (TList TDict)) (VJson JNull),
      dflt ''evidence'' (optional (TBody Evidence)) (VJson JNull),
      dflt ''incident'' (optional (TBody IncidentRecord)) (VJson JNull)]
     []"

definition EvidenceBuiltBody :: body where
  "EvidenceBuiltBody = Body ''EvidenceBuiltBody''
     [req ''evidence'' (TBody Evidence), nullable ''correlation_id'', nullable ''kind'',
      dflt ''payload_size'' (optional TInt) (VJson JNull), dflt ''summary'' TDict (VJson (JDict []))]
     []"

definition EvidenceReference :: body where
  "EvidenceReference = Body ''EvidenceReference''
     [req ''evidence_ref'' TStr, req ''source'' TStr, req ''name'' TStr, req ''check_id'' TStr,
      req ''summary'' TStr, nullable ''query'']
     []"

definition EvidenceItem :: body where
  "EvidenceItem = Body ''EvidenceItem''
     [req ''source'' TStr, req ''name'' TStr, req ''value'' TDict, req ''summary'' TStr,
      dstr ''evidence_ref'' [], dstr ''check_id'' [], nullable ''query'']
     []"

definition MissingEvidenceCheck :: body where
  "MissingEvidenceCheck = Body ''MissingEvidenceCheck''
     [req ''check_id'' TStr, req ''source'' TStr, req ''status'' TStr, req ''reason'' TStr]
     []"

definition EvidenceBundle :: body where
  "EvidenceBundle = Body ''EvidenceBundle''
     [req ''incident_id'' TStr, req ''items'' (TList (TBody EvidenceItem)),
      req ''missing_evidence'' (TList TStr), req ''complete'' TBool,
      dflt ''missing_evidence_checks'' (TList (TBody MissingEvidenceCheck)) (VList [])]
     []"

definition EvidenceBundleBuiltBody :: body where
  "EvidenceBundleBuiltBody = Body ''EvidenceBundleBuiltBody''
     [req ''evidence'' (TBody Evidence), req ''incident'' (TBody IncidentRecord),
      req ''evidence_bundle'' (TBody EvidenceBundle)]
     []"

definition CauseCandidate :: body where
  "CauseCandidate = Body ''CauseCandidate''
     [req ''candidate_id'' TStr, req ''title'' TStr, req ''description'' TStr,
      req ''expected_evidence'' (TList TStr), req ''checks'' (TList TStr),
      dflt ''signals'' (TList TDict) (VList []), dstr ''source'' CAUSE_CANDIDATE_SOURCE_RULE]
     []"

definition CauseEvaluation :: body where
  "CauseEvaluation = Body ''CauseEvaluation''
     [req ''candidate_id'' TStr, req ''score'' TAny, req ''checks'' (TList TStr),
      req ''supporting_evidence'' (TList TStr), req ''missing_evidence'' (TList TStr),
      req ''reason'' TStr,
      dflt ''supporting_evidence_refs'' (TList (TBody EvidenceReference)) (VList []),
      dflt ''missing_evidence_checks'' (TList (TBody MissingEvidenceCheck)) (VList []),
      dflt ''matched_signal_count'' TInt (VJson (JInt 0)),
      dflt ''required_signal_count'' TInt (VJson (JInt 0))]
     []"

definition RcaReportDetail :: body where
  "RcaReportDetail = Body ''RcaReportDetail''
     [req ''root_cause'' TStr, req ''confidence'' TAny, req ''selected_candidate_id'' TStr,
      req ''supporting_evidence'' (TList TStr), req ''missing_evidence'' (TList TStr),
      req ''reason'' TStr,
      dflt ''missing_evidence_checks'' (TList (TBody MissingEvidenceCheck)) (VList []),
      dflt ''supporting_evidence_refs'' (TList (TBody EvidenceReference)) (VList [])]
     []"

definition RcaRuleMissing :: body where
  "RcaRuleMissing = Body ''RcaRuleMissing''
     [req ''incident_id'' TStr, req ''symptom'' TStr, req ''evidence_ref'' TStr,
      req ''missing_evidence'' (TList TStr), req ''message'' TStr,
      dstr ''workspace_id'' DEFAULT_WORKSPACE_ID]
     []"

definition RcaRuleMissingBody :: body where
  "RcaRuleMissingBody = Body ''RcaRuleMissingBody''
     [req ''rule_missing'' (TBody RcaRuleMissing), req ''incident'' (TBody IncidentRecord)]
     []"

definition RcaBacklogItemCreatedBody :: body where
  "RcaBacklogItemCreatedBody = Body ''RcaBacklogItemCreatedBody''
     [req ''backlog_id'' TStr, req ''title'' TStr, req ''reason'' TStr, req ''evidence_ref'' TStr,
      req ''incident_id'' TStr, req ''symptom'' TStr, req ''missing_evidence'' (TList TStr),
      req ''status'' TStr, req ''payload'' TDict, dstr ''workspace_id'' DEFAULT_WORKSPACE_ID]
     []"

definition RcaAiFallbackRequestedBody :: body where
  "RcaAiFallbackRequestedBody = Body ''RcaAiFallbackRequestedBody''
     [req ''reason'' TStr, req ''evidence_ref'' TStr, req ''incident'' (TBody IncidentRecord),
      req ''evidence_bundle'' (TBody EvidenceBundle), req ''missing_evidence'' (TList TStr),
      dstr ''workspace_id'' DEFAULT_WORKSPACE_ID,
      dflt ''evidence'' (optional (TBody Evidence)) (VJson JNull)]
     []"

definition RcaCandidatesPlannedBody :: body where
  "RcaCandidatesPlannedBody = Body ''RcaCandidatesPlannedBody''
     [req ''candidate_count'' TInt, req ''evidence_ref'' TStr,
      req ''candidates'' (TList (TBody CauseCandidate)), dstr ''workspace_id'' DEFAULT_WORKSPACE_ID,
      dflt ''evidence'' (optional (TBody Evidence)) (VJson JNull),
      dflt ''incident'' (optional (TBody IncidentRecord)) (VJson JNull),
      dflt ''evidence_bundle'' (optional (TBody EvidenceBundle)) (VJson JNull),
      dflt ''rule_missing'' (optional (TBody RcaRuleMissing)) (VJson JNull)]
     []"

definition RcaCandidatesEvaluatedBody :: body where
  "RcaCandidatesEvaluatedBody = Body ''RcaCandidatesEvaluatedBody''
     [req ''candidate_count'' TInt, req ''evidence_ref'' TStr,
      req ''candidates'' (TList (TBody CauseCandidate)),
      req ''evaluations'' (TList (TBody CauseEvaluation)), dstr ''workspace_id'' DEFAULT_WORKSPACE_ID,
      dflt ''evidence'' (optional (TBody Evidence)) (VJson JNull),
      dflt ''incident'' (optional (TBody IncidentRecord)) (VJson JNull),
      dflt ''evidence_bundle'' (optional (TBody EvidenceBundle)) (VJson JNull),
      dflt ''rule_missing'' (optional (TBody RcaRuleMissing)) (VJson JNull)]
     []"

definition RcaAnalysisBlockedBody :: body where
  "RcaAnalysisBlockedBody = Body ''RcaAnalysisBlockedBody''
     [req ''reason_code'' TStr, req ''reason'' TStr, req ''evidence_ref'' TStr,
      req ''rca_detail'' (TBody RcaReportDetail), dstr ''workspace_id'' DEFAULT_WORKSPACE_ID,
      dflt ''evidence'' (optional (TBody Evidence)) (VJson JNull),
      dflt ''incident'' (optional (TBody IncidentRecord)) (VJson JNull),
      dflt ''evidence_bundle'' (optional (TBody EvidenceBundle)) (VJson JNull),
      dflt ''candidates'' (TList (TBody CauseCandidate)) (VList []),
      dflt ''evaluations'' (TList (TBody CauseEvaluation)) (VList []),
      dflt ''rule_missing'' (optional (TBody RcaRuleMissing)) (VJson JNull),
      dflt ''missing_evidence'' (TList TStr) (VList []), dflt ''next_actions'' (TList TDict) (VList []),
      dflt ''diagnostics'' TDict (VJson (JDict [])), dstr ''severity'' ''warning'']
     []"

definition RcaFollowupRequiredBody :: body where
  "RcaFollowupRequiredBody = Body ''RcaFollowupRequiredBody''
     [req ''reason_code'' TStr, req ''summary'' TStr, req ''evidence_ref'' TStr,
      dstr ''workspace_id'' DEFAULT_WORKSPACE_ID, dstr ''severity'' ''warning'',
      dflt ''incident'' (optional (TBody IncidentRecord)) (VJson JNull),
      dflt ''missing_evidence'' (TList TStr) (VList []), dflt ''next_actions'' (TList TDict) (VList []),
      dflt ''diagnostics'' TDict (VJson (JDict []))]
     []"

definition RcaCompletedBody :: body where
  "RcaCompletedBody = Body ''RcaCompletedBody''
     [req ''root_cause'' TStr, req ''action'' TStr, req ''evidence_ref'' TStr,
      dstr ''workspace_id'' DEFAULT_WORKSPACE_ID,
      dflt ''evidence'' (optional (TBody Evidence)) (VJson JNull),
      dflt ''incident'' (optional (TBody IncidentRecord)) (VJson JNull),
      dflt ''evidence_bundle'' (optional (TBody EvidenceBundle)) (VJson JNull),
      dflt ''candidates'' (optional (TList (TBody CauseCandidate))) (VJson JNull),
      dflt ''evaluations'' (optional (TList (TBody CauseEvaluation))) (VJson JNull),
      dflt ''rca_detail'' (optional (TBody RcaReportDetail)) (VJson JNull),
      dflt ''rule_missing'' (optional (TBody RcaRuleMissing)) (VJson JNull)]
     []"

definition RcaActionRequiredBody :: body where
  "RcaActionRequiredBody = Body ''RcaActionRequiredBody''
     [req ''reason'' TStr, req ''evidence_ref'' TStr, dstr ''workspace_id'' DEFAULT_WORKSPACE_ID,
      dstr ''reason_code'' ''action_required'', dstr ''severity'' ''warning'',
      dflt ''missing_evidence'' (TList TStr) (VList []), dflt ''next_actions'' (TList TDict) (VList []),
      dflt ''diagnostics'' TDict (VJson (JDict []))]
     []"

definition HealingActionDraft :: body where
  "HealingActionDraft = Body ''HealingActionDraft''
     [req ''action_type'' TStr, req ''namespace'' TStr, req ''resource_kind'' TStr,
      req ''resource_name'' TStr, req ''reason'' TStr, req ''risk_level'' TStr, req ''dry_run'' TBool,
      req ''source_evidence'' (TList TStr), req ''params'' TDict]
     []"

definition RecoveryActionCandidate :: body where
  "RecoveryActionCandidate = Body ''RecoveryActionCandidate''
     [req ''action_id'' TStr, req ''title'' TStr, req ''description'' TStr,
      req ''draft'' (TBody HealingActionDraft), req ''route'' TStr, req ''rank'' TInt,
      req ''score'' TAny, req ''risk_level'' TStr, req ''blast_radius'' TStr,
      req ''approval_required'' TBool, req ''prerequisites'' (TList TStr),
      req ''validation_checks'' (TList TStr), req ''rollback_plan'' TStr,
      req ''evidence_refs'' (TList TStr), dstr ''recommendation_reason'' [],
      dstr ''expected_outcome'' [], dstr ''risk_explanation'' [], dstr ''rollback_reason'' [],
      dflt ''executable'' TBool (VJson (JBool True)), nullable ''blocked_reason_code'',
      nullable ''blocked_reason'']
     []"

definition RecoveryPlan :: body where
  "RecoveryPlan = Body ''RecoveryPlan''
     [req ''plan_id'' TStr, req ''incident_id'' TStr, req ''evidence_ref'' TStr, req ''summary'' TStr,
      req ''target'' TDict, req ''recommended_action_id'' TStr, req ''execution_route'' TStr,
      req ''selection_required'' TBool, req ''candidates'' (TList (TBody RecoveryActionCandidate)),
      dflt ''lifecycle'' TDict (VJson (JDict []))]
     []"

definition RecoveryPlannedBody :: body where
  "RecoveryPlannedBody = Body ''RecoveryPlannedBody''
     [req ''draft'' (TBody HealingActionDraft),
      dflt ''plan'' (optional (TBody RecoveryPlan)) (VJson JNull),
      dstr ''workspace_id'' DEFAULT_WORKSPACE_ID]
     []"

definition RecoverySelectionRequestedBody :: body where
  "RecoverySelectionRequestedBody = Body ''RecoverySelectionRequestedBody''
     [req ''plan'' (TBody RecoveryPlan), req ''reason'' TStr,
      dstr ''workspace_id'' DEFAULT_WORKSPACE_ID]
     []"

definition RecoveryActionSelectedBody :: body where
  "RecoveryActionSelectedBody = Body ''RecoveryActionSelectedBody''
     [req ''plan'' (TBody RecoveryPlan), req ''selected'' (TBody RecoveryActionCandidate),
      req ''selected_by'' TStr, req ''auto_selected'' TBool, req ''reason'' TStr,
      dstr ''workspace_id'' DEFAULT_WORKSPACE_ID]
     []"

definition RecoveryPrTrackedBody :: body where
  "RecoveryPrTrackedBody = Body ''RecoveryPrTrackedBody''
     [req ''plan_id'' TStr, req ''incident_id'' TStr, req ''pr_url'' TStr, req ''repository_id'' TStr,
      req ''repo_ref'' TStr, req ''binding_id'' TStr, req ''application_id'' TStr,
      req ''base_branch'' TStr, dstr ''workspace_id'' DEFAULT_WORKSPACE_ID]
     []"

definition RecoveryPrMergedBody :: body where
  "RecoveryPrMergedBody = Body ''RecoveryPrMergedBody''
     [req ''plan_id'' TStr, req ''incident_id'' TStr, req ''pr_url'' TStr,
      req ''merge_commit_sha'' TStr, req ''repository_id'' TStr, req ''repo_ref'' TStr,
      req ''binding_id'' TStr, req ''application_id'' TStr, req ''workflow_run_id'' TStr,
      req ''cluster_id'' TStr, dstr ''workspace_id'' DEFAULT_WORKSPACE_ID]
     []"

definition RecoveryVerificationStartedBody :: body where
  "RecoveryVerificationStartedBody = Body ''RecoveryVerificationStartedBody''
     [req ''plan_id'' TStr, req ''incident_id'' TStr, req ''workflow_run_id'' TStr,
      req ''started_at'' TStr, req ''deadline_at'' TStr, req ''expected'' TDict, req ''before'' TDict,
      dstr ''workspace_id'' DEFAULT_WORKSPACE_ID]
     []"

definition RecoveryVerificationUpdatedBody :: body where
  "RecoveryVerificationUpdatedBody = Body ''RecoveryVerificationUpdatedBody''
     [req ''plan_id'' TStr, req ''incident_id'' TStr, req ''status'' TStr, req ''reason_code'' TStr,
      req ''reason'' TStr, req ''evidence_ref'' TStr, req ''before'' TDict, req ''after'' TDict,
      dstr ''workspace_id'' DEFAULT_WORKSPACE_ID]
     []"

definition RecoveryVerificationFailedBody :: body where
  "RecoveryVerificationFailedBody = Body ''RecoveryVerificationFailedBody''
     [req ''plan_id'' TStr, req ''incident_id'' TStr, req ''reason_code'' TStr, req ''reason'' TStr,
      req ''evidence_ref'' TStr, dflt ''before'' TDict (VJson (JDict [])),
      dflt ''after'' TDict (VJson (JDict [])), dstr ''workspace_id'' DEFAULT_WORKSPACE_ID]
     []"

definition RecoveryRetryRequestedBody :: body where
  "RecoveryRetryRequestedBody = Body ''RecoveryRetryRequestedBody''
     [req ''plan_id'' TStr, req ''incident_id'' TStr, req ''action_id'' TStr, req ''retry_stage'' TStr,
      req ''attempt'' TInt, req ''requested_by'' TStr, req ''reason'' TStr,
      nullable ''workflow_run_id'', dstr ''workspace_id'' DEFAULT_WORKSPACE_ID]
     []"

definition IncidentResolvedBody :: body where
  "IncidentResolvedBody = Body ''IncidentResolvedBody''
     [req ''incident_id'' TStr, req ''cluster_id'' TStr, req ''reason'' TStr, req ''evidence_ref'' TStr,
      req ''recovery_plan_id'' TStr, req ''before'' TDict, req ''after'' TDict,
      dstr ''workspace_id'' DEFAULT_WORKSPACE_ID]
     []"

definition SafePrPatchPreparedBody :: body where
  "SafePrPatchPreparedBody = Body ''SafePrPatchPreparedBody''
     [req ''title'' TStr, req ''body'' TStr, req ''patch'' TDict, req ''provider'' TStr,
      dflt ''request'' TDict (VJson (JDict [])), dstr ''workspace_id'' DEFAULT_WORKSPACE_ID,
      dstr ''repository_id'' DEFAULT_REPOSITORY_ID, dstr ''binding_id'' DEFAULT_DEPLOYMENT_BINDING_ID,
      dstr ''application_id'' DEFAULT_APPLICATION_ID, dstr ''workflow_run_id'' DEFAULT_WORKFLOW_RUN_ID,
      dstr ''environment'' DEFAULT_ENVIRONMENT, dstr ''manifest_path'' DEFAULT_MANIFEST_PATH,
      dstr ''pr_kind'' ''safe_pr_patch'', nullable ''approval_ref'', nullable ''policy_decision_ref'']
     []"

definition DiffExplainedBody :: body where
  "DiffExplainedBody = Body ''DiffExplainedBody''
     [req ''summary'' TStr, req ''risk'' TStr, req ''details'' TDict,
      dstr ''workspace_id'' DEFAULT_WORKSPACE_ID,
      dflt ''ready_for_creation'' TBool (VJson (JBool False)), dstr ''reason'' []]
     []"

definition ApprovalRecommendedBody :: body where
  "ApprovalRecommendedBody = Body ''ApprovalRecommendedBody''
     [req ''recommendation'' TStr, req ''reason'' TStr, req ''details'' TDict,
      dstr ''workspace_id'' DEFAULT_WORKSPACE_ID]
     []"

subsection \<open>Subjects and the catalogue\<close>

definition EVENT_SUBJECTS :: "(string \<times> string) list" where
  "EVENT_SUBJECTS =
     [(''GIT_WEBHOOK_RECEIVED'', ''git.webhook.received''),
      (''GIT_CHANGED'', ''git.changed''),
      (''MANIFEST_RENDERED'', ''manifest.rendered''),
      (''MANIFEST_INVALID'', ''manifest.invalid''),
      (''DESIRED_DIFF_DETECTED'', ''desired.diff.detected''),
      (''GITOPS_CHANGE_CONTEXT_DETECTED'', ''gitops.change_context.detected''),
      (''DIFF_ANALYZED'', ''diff.analyzed''),
      (''AGENT_CONNECTED'', ''agent.connected''),
      (''CLUSTER_EVIDENCE_RECEIVED'', ''cluster.evidence.received''),
      (''COMMAND_REQUESTED'', ''command.requested''),
      (''COMMAND_REJECTED'', ''command.rejected''),
      (''COMMAND_DISPATCHED'', ''command.dispatched''),
      (''COMMAND_QUEUED_FOR_AGENT'', ''command.queued_for_agent''),
      (''COMMAND_CANCEL_REQUESTED'', ''command.cancel.requested''),
      (''COMMAND_RETRY_REQUESTED'', ''command.retry.requested''),
      (''COMMAND_COMPLETED'', ''command.completed''),
      (''INCIDENT_DETECTED'', ''incident.detected''),
      (''EVIDENCE_BUILT'', ''evidence.built''),
      (''EVIDENCE_BUNDLE_BUILT'', ''evidence.bundle.built''),
      (''RCA_CANDIDATES_PLANNED'', ''rca.candidates.planned''),
      (''RCA_CANDIDATES_EVALUATED'', ''rca.candidates.evaluated''),
      (''RCA_COMPLETED'', ''rca.completed''),
      (''RCA_ANALYSIS_BLOCKED'', ''rca.analysis_blocked''),
      (''RCA_FOLLOWUP_REQUIRED'', ''rca.followup.required''),
      (''RCA_RULE_MISSING'', ''rca.rule_missing''),
      (''RCA_BACKLOG_ITEM_CREATED'', ''rca.backlog.created''),
      (''RCA_AI_FALLBACK_REQUESTED'', ''rca.ai_fallback.requested''),
      (''RECOVERY_PLANNED'', ''recovery.planned''),
      (''RECOVERY_SELECTION_REQUESTED'', ''recovery.selection_requested''),
      (''RECOVERY_ACTION_SELECTED'', ''recovery.action_selected''),
      (''RECOVERY_PR_TRACKED'', ''recovery.pr.tracked''),
      (''RECOVERY_PR_MERGED'', ''recovery.pr.merged''),
      (''RECOVERY_VERIFICATION_STARTED'', ''recovery.verification.started''),
      (''RECOVERY_VERIFICATION_UPDATED'', ''recovery.verification.updated''),
      (''RECOVERY_VERIFICATION_FAILED'', ''recovery.verification.failed''),
      (''RECOVERY_RETRY_REQUESTED'', ''recovery.retry.requested''),
      (''INCIDENT_RESOLVED'', ''incident.resolved''),
      (''SAFE_PR_PATCH_PREPARED'', ''safe_pr.patch_prepared''),
      (''DIFF_EXPLAINED'', ''diff.explained''),
      (''SAFE_PR_READY_FOR_CREATION'', ''safe_pr.ready_for_creation''),
      (''APPROVAL_RECOMMENDED'', ''approval.recommended''),
      (''RCA_ACTION_REQUIRED'', ''rca.action_required''),
      (''SAFE_PR_REQUESTED'', ''safe_pr.requested''),
      (''SAFE_PR_CREATED'', ''safe_pr.created''),
      (''SAFE_PR_FAILED'', ''safe_pr.failed''),
      (''WORKFLOW_CREATED'', ''workflow.created''),
      (''WORKFLOW_RUN_STARTED'', ''workflow.run.started''),
      (''WORKFLOW_STEP_RECORDED'', ''workflow.step.recorded''),
      (''WORKFLOW_RUN_COMPLETED'', ''workflow.run.completed''),
      (''WORKFLOW_RUN_FAILED'', ''workflow.run.failed''),
      (''APPROVAL_REQUESTED'', ''approval.requested''),
      (''APPROVAL_GRANTED'', ''approval.granted''),
      (''APPROVAL_REJECTED'', ''approval.rejected''),
      (''DEAD_LETTER_CREATED'', ''dead_letter.created''),
      (''PIPELINE_CONTRACT_FAILED'', ''pipeline.contract_failed'')]"

definition catalogue :: "(string \<times> body) list" where
  "catalogue =
     [(''git.webhook.received'', GitWebhookReceivedBody),
      (''git.changed'', GitChangedBody),
      (''manifest.rendered'', ManifestRenderedBody),
      (''manifest.invalid'', ManifestInvalidBody),
      (''desired.diff.detected'', DesiredDesiredDiffDetectedBody),
      (''gitops.change_context.detected'', GitOpsChangeContextDetectedBody),
      (''diff.analyzed'', DiffAnalyzedBody),
      (''agent.connected'', AgentConnectedBody),
      (''cluster.evidence.received'', ClusterEvidenceReceivedBody),
      (''command.requested'', CommandRequestedBody),
      (''command.rejected'', CommandRejectedBody),
      (''command.dispatched'', CommandDispatchedBody),
      (''command.queued_for_agent'', CommandQueuedForAgentBody),
      (''command.cancel.requested'', CommandCancelRequestedBody),
      (''command.retry.requested'', CommandRetryRequestedBody),
      (''command.completed'', CommandCompletedBody),
      (''incident.detected'', IncidentDetectedBody),
      (''evidence.built'', EvidenceBuiltBody),
      (''evidence.bundle.built'', EvidenceBundleBuiltBody),
      (''rca.candidates.planned'', RcaCandidatesPlannedBody),
      (''rca.candidates.evaluated'', RcaCandidatesEvaluatedBody),
      (''rca.completed'', RcaCompletedBody),
      (''rca.analysis_blocked'', RcaAnalysisBlockedBody),
      (''rca.followup.required'', RcaFollowupRequiredBody),
      (''rca.rule_missing'', RcaRuleMissingBody),
      (''rca.backlog.created'', RcaBacklogItemCreatedBody),
      (''rca.ai_fallback.requested'', RcaAiFallbackRequestedBody),
      (''recovery.planned'', RecoveryPlannedBody),
      (''recovery.selection_requested'', RecoverySelectionRequestedBody),
      (''recovery.action_selected'', RecoveryActionSelectedBody),
      (''recovery.pr.tracked'', RecoveryPrTrackedBody),
      (''recovery.pr.merged'', RecoveryPrMergedBody),
      (''recovery.verification.started'', RecoveryVerificationStartedBody),
      (''recovery.verification.updated'', RecoveryVerificationUpdatedBody),
      (''recovery.verification.failed'', RecoveryVerificationFailedBody),
      (''recovery.retry.requested'', RecoveryRetryRequestedBody),
      (''incident.resolved'', IncidentResolvedBody),
      (''safe_pr.patch_prepared'', SafePrPatchPreparedBody),
      (''diff.explained'', DiffExplainedBody),
      (''safe_pr.ready_for_creation'', SafePrReadyForCreationBody),
      (''approval.recommended'', ApprovalRecommendedBody),
      (''rca.action_required'', RcaActionRequiredBody),
      (''safe_pr.requested'', SafePrRequestedBody),
      (''safe_pr.created'', SafePrCreatedBody),
      (''safe_pr.failed'', SafePrFailedBody),
      (''workflow.created'', WorkflowCreatedBody),
      (''workflow.run.started'', WorkflowRunStartedBody),
      (''workflow.step.recorded'', WorkflowStepRecordedBody),
      (''workflow.run.completed'', WorkflowRunCompletedBody),
      (''workflow.run.failed'', WorkflowRunFailedBody),
      (''approval.requested'', ApprovalRequestedBody),
      (''approval.granted'', ApprovalGrantedBody),
      (''approval.rejected'', ApprovalRejectedBody),
      (''dead_letter.created'', DeadLetterCreatedBody),
      (''pipeline.contract_failed'', PipelineContractFailedBody)]"

definition RESERVED_STREAM_SUBJECTS :: "string list" where
  "RESERVED_STREAM_SUBJECTS = [''audit.>'']"

definition derived_stream_subjects :: "string list" where
  \<comment> \<open>the set of prefixes, sorted\<close>
  "derived_stream_subjects =
     sort (py_dedup (map (\<lambda>(_, value). hd (py_split CHR ''.'' value) @ ''.>'') EVENT_SUBJECTS @ RESERVED_STREAM_SUBJECTS))"

definition is_image_only_noop :: "bval \<Rightarrow> bool" where
  \<comment> \<open>of an instance of \<open>Diff\<close>; its image fields are text\<close>
  "is_image_only_noop x =
     (case x of
        VObj _ vals \<Rightarrow>
          (let desired = map_option to_body_value (attr_of vals ''desired_image'');
               actual = map_option to_body_value (attr_of vals ''actual_image'');
               manifest = map_option to_body_value (attr_of vals ''desired_manifest'')
           in desired \<noteq> Some (JStr []) \<and> desired = actual \<and> manifest = Some (JDict []))
      | _ \<Rightarrow> False)"

definition item_reference :: "bval \<Rightarrow> bval" where
  \<comment> \<open>\<^verbatim>\<open>EvidenceItem.reference\<close>\<close>
  "item_reference x =
     (case x of
        VObj _ vals \<Rightarrow> VObj ''EvidenceReference''
          (map (\<lambda>n. (n, n, the (attr_of vals n)))
             [''evidence_ref'', ''source'', ''name'', ''check_id'', ''summary'', ''query''])
      | _ \<Rightarrow> x)"

subsection \<open>Properties\<close>

lemma catalogue_wf: "list_all (\<lambda>(s, b). wf_body b) catalogue"
  by code_simp

lemma catalogue_body: "(s, b) \<in> set catalogue \<Longrightarrow> wf_body b"
  using catalogue_wf by (auto simp: list_all_iff)



lemma webhook_null_correlation:
  "list_all (\<lambda>strict. from_body strict GitWebhookReceivedBody
     [(''commit_sha'', JStr ''c''), (''image'', JStr ''i''), (''replicas'', JInt 1), (''correlation_id'', JNull)]
   = Inl (InvalidType ''GitWebhookReceivedBody'' ''correlation_id'')) [True, False]"
  by code_simp

lemma reference_typed:
  assumes "typed_body EvidenceItem x"
  shows "typed_body EvidenceReference (item_reference x)"
proof -
  obtain vals where x: "x = VObj ''EvidenceItem'' vals" and vals: "typed_fields (body_fields EvidenceItem) vals"
    using assms by (cases x) (auto simp: EvidenceItem_def)
  have d: "distinct (map fld_name (body_fields EvidenceItem))" by code_simp
  have s: "typed TStr (the (attr_of vals n))" if "BField n n TStr dv \<in> set (body_fields EvidenceItem)" for n dv
    by (rule typed_attr [OF vals that d]) simp
  have q: "typed (optional TStr) (the (attr_of vals ''query''))"
    by (rule typed_attr [OF vals _ d, of "''query''" "''query''" "optional TStr" "Some (VJson JNull)"]) (simp_all add: EvidenceItem_def nullable_def)
  show ?thesis
    using x q s [of _ None] s [of _ "Some (VJson (JStr []))"]
    by (simp add: item_reference_def EvidenceReference_def EvidenceItem_def req_def nullable_def dstr_def
        del: typed.simps)
qed

end
