(* ===== verification/Evidence_Claim_Check.thy ===== *)
theory Evidence_Claim_Check
  imports Event_Catalog
begin

section \<open>Evidence travels as a reference\<close>

text \<open>
  The functions of \<^verbatim>\<open>src/src/domains/rca/events.py\<close> that build what is published instead of the raw
  evidence: \<^verbatim>\<open>rca_enriched_evidence_key\<close>, \<^verbatim>\<open>compact_cluster_evidence_payload\<close>,
  \<^verbatim>\<open>compact_evidence_built_body\<close> and the summaries. An instance is a \<open>VObj\<close>; \<open>field\<close> reads one of its
  attributes in wire form.
\<close>

definition RCA_ENRICHED_EVIDENCE_KEY_SEGMENT :: string where
  "RCA_ENRICHED_EVIDENCE_KEY_SEGMENT = ''rca-enriched''"

definition rca_enriched_evidence_key :: "string \<Rightarrow> string \<Rightarrow> string \<Rightarrow> string" where
  "rca_enriched_evidence_key workspace cluster correlation =
     py_join '':'' [workspace, cluster, RCA_ENRICHED_EVIDENCE_KEY_SEGMENT, correlation]"

definition MAX_EVIDENCE_EVENT_SUMMARY_BYTES :: int where
  "MAX_EVIDENCE_EVENT_SUMMARY_BYTES = 2048"

fun json_dumps :: "json \<Rightarrow> string" where
  \<comment> \<open>\<^verbatim>\<open>json.dumps(v, ensure_ascii=False, separators=(",", ":"))\<close>\<close>
  "json_dumps JNull = ''null''"
| "json_dumps (JBool b) = (if b then ''true'' else ''false'')"
| "json_dumps (JInt i) = int_str i"
| "json_dumps (JFloat f r) = json_float f r"
| "json_dumps (JStr s) = json_str s"
| "json_dumps (JList xs) = ''['' @ py_join '','' (map json_dumps xs) @ '']''"
| "json_dumps (JDict d) = ''{'' @ py_join '','' (map (\<lambda>(k, v). json_str k @ '':'' @ json_dumps v) d) @ ''}''"

definition field :: "bval \<Rightarrow> string \<Rightarrow> json" where
  "field x n =
     (case x of VObj _ vals \<Rightarrow> (case attr_of vals n of Some v \<Rightarrow> to_body_value v | None \<Rightarrow> JNull) | _ \<Rightarrow> JNull)"

definition field_dict :: "bval \<Rightarrow> string \<Rightarrow> jdict" where
  "field_dict x n = (case as_dict (field x n) of Some d \<Rightarrow> d | None \<Rightarrow> [])"

definition field_list :: "bval \<Rightarrow> string \<Rightarrow> json list" where
  "field_list x n = (case as_list (field x n) of Some xs \<Rightarrow> xs | None \<Rightarrow> [])"

definition evidence_payload_size :: "jdict \<Rightarrow> int" where
  "evidence_payload_size d = utf8_length (json_dumps (JDict d))"

definition kubernetes_resource :: "jdict \<Rightarrow> jdict" where
  "kubernetes_resource kubernetes =
     (case dget kubernetes ''resource'' of
        JDict r \<Rightarrow> filter (\<lambda>(k, _). k \<in> {''kind'', ''name'', ''namespace''}) r
      | _ \<Rightarrow> [])"

definition first_keys :: "jdict \<Rightarrow> json" where
  \<comment> \<open>\<^verbatim>\<open>sorted(str(key) for key in d.keys())[:20]\<close>\<close>
  "first_keys d = JList (map JStr (take 20 (sort (map fst d))))"

definition raw_summary :: "bval \<Rightarrow> jdict" where
  "raw_summary x =
     [(''resource'', JDict (kubernetes_resource (field_dict x ''kubernetes''))),
      (''symptom'', dget (field_dict x ''kubernetes'') ''symptom''),
      (''severity'', dget (field_dict x ''kubernetes'') ''severity''),
      (''kubernetes_keys'', first_keys (field_dict x ''kubernetes'')),
      (''metrics_keys'', first_keys (field_dict x ''metrics'')),
      (''logs_count'', JInt (int (length (field_list x ''logs'')))),
      (''traces_keys'', first_keys (field_dict x ''traces''))]"

definition drop_empty :: "jdict \<Rightarrow> jdict" where
  "drop_empty d = filter (\<lambda>(_, v). v \<notin> {JNull, JDict [], JList []}) d"

definition evidence_summary :: "bval \<Rightarrow> jdict" where
  "evidence_summary x =
     (let summary = drop_empty (raw_summary x) in
      if utf8_length (json_dumps (JDict summary)) \<le> MAX_EVIDENCE_EVENT_SUMMARY_BYTES then summary
      else [(''resource'', dget summary ''resource''), (''symptom'', dget summary ''symptom''),
            (''severity'', dget summary ''severity''),
            (''logs_count'', case map_of summary ''logs_count'' of Some v \<Rightarrow> v | None \<Rightarrow> JInt 0),
            (''truncated'', JBool True)])"

definition evidence_built_summary :: "bval \<Rightarrow> jdict" where
  "evidence_built_summary x =
     (let summary = drop_empty (raw_summary x @ [(''object_ref'', field x ''object_ref'')]) in
      if utf8_length (json_dumps (JDict summary)) \<le> MAX_EVIDENCE_EVENT_SUMMARY_BYTES then summary
      else [(''resource'', dget summary ''resource''), (''symptom'', dget summary ''symptom''),
            (''severity'', dget summary ''severity''),
            (''logs_count'', case map_of summary ''logs_count'' of Some v \<Rightarrow> v | None \<Rightarrow> JInt 0),
            (''object_ref'', dget summary ''object_ref''), (''truncated'', JBool True)])"

definition compact_cluster_evidence_payload :: "bval \<Rightarrow> string option \<Rightarrow> jdict" where
  "compact_cluster_evidence_payload x correlation =
     [(''workspace_id'', field x ''workspace_id''), (''cluster_id'', field x ''cluster_id''),
      (''agent_id'', field x ''agent_id''), (''source_id'', field x ''source_id''),
      (''window_start'', field x ''window_start''), (''evidence_key'', field x ''evidence_key''),
      (''workflow_run_id'', field x ''workflow_run_id''), (''release_context'', field x ''release_context''),
      (''collection_status'', field x ''collection_status''),
      (''correlation_id'', case correlation of Some c \<Rightarrow> py_or (JStr c) (field x ''correlation_id'')
                            | None \<Rightarrow> field x ''correlation_id''),
      (''kind'', JStr ''cluster_evidence''), (''payload_size'', JInt (evidence_payload_size (to_body x))),
      (''summary'', JDict (evidence_summary x)),
      (''kubernetes'', JDict []), (''metrics'', JDict []), (''logs'', JList []), (''traces'', JDict [])]"

definition evidence_stub :: "bval \<Rightarrow> bval" where
  "evidence_stub x =
     VObj ''Evidence''
       [(''cluster_id'', ''cluster_id'', VJson (field x ''cluster_id'')),
        (''kubernetes'', ''kubernetes'', VJson (JDict [])), (''metrics'', ''metrics'', VJson (JDict [])),
        (''logs'', ''logs'', VList []), (''traces'', ''traces'', VJson (JDict [])),
        (''object_ref'', ''object_ref'', VJson (field x ''object_ref'')),
        (''metadata'', ''metadata'', VJson (JDict [])),
        (''workspace_id'', ''workspace_id'', VJson (field x ''workspace_id''))]"

definition compact_evidence_built_body :: "bval \<Rightarrow> string \<Rightarrow> string \<Rightarrow> bval" where
  "compact_evidence_built_body x correlation kind =
     VObj ''EvidenceBuiltBody''
       [(''evidence'', ''evidence'', evidence_stub x),
        (''correlation_id'', ''correlation_id'', VJson (JStr correlation)), (''kind'', ''kind'', VJson (JStr kind)),
        (''payload_size'', ''payload_size'', VJson (JInt (evidence_payload_size (to_body x)))),
        (''summary'', ''summary'', VJson (JDict (evidence_built_summary x)))]"

subsection \<open>Typed fields\<close>

lemma field_typed:
  assumes "typed_body (Body n fs es) x" and "BField nm key t d \<in> set fs" and "distinct (map fld_name fs)"
  obtains v where "field x nm = to_body_value v" "typed t v"
proof -
  from assms(1) obtain vals where x: "x = VObj n vals" and vals: "typed_fields fs vals"
    by (cases x) auto
  show ?thesis
    by (rule typed_attr [OF vals assms(2,3)]) (use that x in \<open>simp add: field_def\<close>)
qed

lemma typed_text: "typed TStr v \<Longrightarrow> \<exists>s. v = VJson (JStr s)"
  by (auto split: bval.splits json.splits)

lemma typed_dict: "typed TDict v \<Longrightarrow> \<exists>d. v = VJson (JDict d)"
  by (auto split: bval.splits json.splits)

lemma typed_optional_text: "typed (optional TStr) v \<Longrightarrow> v = VJson JNull \<or> (\<exists>s. v = VJson (JStr s))"
  by (auto simp: optional_def split: bval.splits json.splits)

lemma field_text:
  assumes "typed_body (Body n fs es) x" and "BField nm key TStr d \<in> set fs" and "distinct (map fld_name fs)"
  shows "\<exists>s. field x nm = JStr s"
  using field_typed [OF assms] typed_text by (metis to_body_value.simps(1))

lemma field_mapping:
  assumes "typed_body (Body n fs es) x" and "BField nm key TDict d \<in> set fs" and "distinct (map fld_name fs)"
  shows "\<exists>s. field x nm = JDict s"
  using field_typed [OF assms] typed_dict by (metis to_body_value.simps(1))

lemma field_optional_text:
  assumes "typed_body (Body n fs es) x" and "BField nm key (optional TStr) d \<in> set fs" and "distinct (map fld_name fs)"
  shows "field x nm = JNull \<or> (\<exists>s. field x nm = JStr s)"
  using field_typed [OF assms] typed_optional_text by (metis to_body_value.simps(1))

lemmas field_defs = req_def dflt_def dstr_def nullable_def

lemma decode_optional:
  assumes "v = JNull \<or> (\<exists>s. v = JStr s)"
  shows "decode_value strict owner key v (optional TStr) = Inr (VJson v)"
  using assms by (auto simp: optional_def)

lemma decode_optional_int: "decode_value strict owner key (JInt i) (optional TInt) = Inr (VJson (JInt i))"
  by (simp add: optional_def)

lemma cluster_evidence_names: "distinct (map fld_name (body_fields ClusterEvidenceReceivedBody))"
  by code_simp

lemma cluster_evidence_fields:
  assumes "typed_body ClusterEvidenceReceivedBody x"
  shows "\<exists>s. field x ''workspace_id'' = JStr s" "\<exists>s. field x ''cluster_id'' = JStr s"
    "\<exists>d. field x ''release_context'' = JDict d" "\<exists>d. field x ''collection_status'' = JDict d"
    "n \<in> {''agent_id'', ''source_id'', ''window_start'', ''evidence_key'', ''workflow_run_id'', ''correlation_id''}
     \<Longrightarrow> field x n = JNull \<or> (\<exists>s. field x n = JStr s)"
proof -
  have t: "typed_body (Body ''ClusterEvidenceReceivedBody'' (body_fields ClusterEvidenceReceivedBody) []) x"
    using assms by (simp only: ClusterEvidenceReceivedBody_def body_fields.simps)
  note d = cluster_evidence_names
  show "\<exists>s. field x ''workspace_id'' = JStr s"
    by (rule field_text [OF t _ d, where key = "''workspace_id''" and d = "Some (VJson (JStr DEFAULT_WORKSPACE_ID))"]) (simp add: ClusterEvidenceReceivedBody_def field_defs)
  show "\<exists>s. field x ''cluster_id'' = JStr s"
    by (rule field_text [OF t _ d, where key = "''cluster_id''" and d = "None"]) (simp add: ClusterEvidenceReceivedBody_def field_defs)
  show "\<exists>s. field x ''release_context'' = JDict s"
    by (rule field_mapping [OF t _ d, where key = "''release_context''" and d = "Some (VJson (JDict []))"]) (simp add: ClusterEvidenceReceivedBody_def field_defs)
  show "\<exists>s. field x ''collection_status'' = JDict s"
    by (rule field_mapping [OF t _ d, where key = "''collection_status''" and d = "Some (VJson (JDict []))"]) (simp add: ClusterEvidenceReceivedBody_def field_defs)
  assume "n \<in> {''agent_id'', ''source_id'', ''window_start'', ''evidence_key'', ''workflow_run_id'', ''correlation_id''}"
  then have "BField n n (optional TStr) (Some (VJson JNull)) \<in> set (body_fields ClusterEvidenceReceivedBody)"
    by (elim insertE) (simp_all add: ClusterEvidenceReceivedBody_def field_defs)
  then show "field x n = JNull \<or> (\<exists>s. field x n = JStr s)" by (rule field_optional_text [OF t _ d])
qed

lemma compact_correlation:
  assumes "typed_body ClusterEvidenceReceivedBody x"
  shows "dget (compact_cluster_evidence_payload x c) ''correlation_id'' = JNull
    \<or> (\<exists>s. dget (compact_cluster_evidence_payload x c) ''correlation_id'' = JStr s)"
  using cluster_evidence_fields(5) [OF assms, of "''correlation_id''"]
  by (auto simp: compact_cluster_evidence_payload_def dget_def py_or_def split: option.splits)

subsection \<open>Properties\<close>


definition sample_evidence :: bval where
  "sample_evidence =
     VObj ''ClusterEvidenceReceivedBody''
       [(''cluster_id'', ''cluster_id'', VJson (JStr ''c1'')),
        (''kubernetes'', ''kubernetes'', VJson (JDict [(''symptom'', JStr ''OOMKilled'')])),
        (''metrics'', ''metrics'', VJson (JDict [])), (''logs'', ''logs'', VList [VJson (JDict [])]),
        (''traces'', ''traces'', VJson (JDict [])), (''workspace_id'', ''workspace_id'', VJson (JStr ''w1'')),
        (''agent_id'', ''agent_id'', VJson JNull), (''source_id'', ''source_id'', VJson JNull),
        (''window_start'', ''window_start'', VJson JNull), (''evidence_key'', ''evidence_key'', VJson (JStr ''k'')),
        (''workflow_run_id'', ''workflow_run_id'', VJson JNull), (''release_context'', ''release_context'', VJson (JDict [])),
        (''collection_status'', ''collection_status'', VJson (JDict [])), (''metadata'', ''metadata'', VJson (JDict [])),
        (''correlation_id'', ''correlation_id'', VJson JNull), (''kind'', ''kind'', VJson JNull),
        (''payload_size'', ''payload_size'', VJson JNull), (''summary'', ''summary'', VJson (JDict []))]"


lemma evidence_fields:
  assumes "typed_body Evidence x"
  shows "\<exists>s. field x ''workspace_id'' = JStr s" "\<exists>s. field x ''cluster_id'' = JStr s"
    "\<exists>s. field x ''object_ref'' = JStr s"
proof -
  have t: "typed_body (Body ''Evidence'' (body_fields Evidence) []) x"
    using assms by (simp only: Evidence_def body_fields.simps)
  have d: "distinct (map fld_name (body_fields Evidence))" by code_simp
  show "\<exists>s. field x ''workspace_id'' = JStr s"
    by (rule field_text [OF t _ d, where key = "''workspace_id''" and d = "Some (VJson (JStr DEFAULT_WORKSPACE_ID))"])
      (simp add: Evidence_def field_defs)
  show "\<exists>s. field x ''cluster_id'' = JStr s"
    by (rule field_text [OF t _ d, where key = "''cluster_id''" and d = None]) (simp add: Evidence_def field_defs)
  show "\<exists>s. field x ''object_ref'' = JStr s"
    by (rule field_text [OF t _ d, where key = "''object_ref''" and d = None]) (simp add: Evidence_def field_defs)
qed

text \<open>
  The published form of built evidence is well-typed whenever the evidence is, so the next service
  decodes it to exactly what was sent; it refers to the stored object and carries none of the raw data.
\<close>

theorem compact_built_roundtrip:
  assumes "typed_body Evidence x"
  shows "from_body strict EvidenceBuiltBody (to_body (compact_evidence_built_body x correlation kind))
      = Inr (compact_evidence_built_body x correlation kind)
    \<and> field (evidence_stub x) ''object_ref'' = field x ''object_ref''
    \<and> list_all (\<lambda>n. field (evidence_stub x) n \<in> {JDict [], JList []}) [''kubernetes'', ''metrics'', ''logs'', ''traces'', ''metadata'']"
proof -
  obtain ws cid ref where f: "field x ''workspace_id'' = JStr ws" "field x ''cluster_id'' = JStr cid"
    "field x ''object_ref'' = JStr ref"
    using evidence_fields [OF assms] by blast
  have "typed_body EvidenceBuiltBody (compact_evidence_built_body x correlation kind)"
    by (simp add: EvidenceBuiltBody_def compact_evidence_built_body_def evidence_stub_def Evidence_def field_defs f optional_def)
  moreover have "wf_body EvidenceBuiltBody" by code_simp
  ultimately have "\<exists>d. to_body_value (compact_evidence_built_body x correlation kind) = JDict d
      \<and> from_body strict EvidenceBuiltBody d = Inr (compact_evidence_built_body x correlation kind)"
    by (intro typed_decodes(3))
  then show ?thesis by (auto simp: to_body_def evidence_stub_def field_def [of "VObj _ _"] attr_of_def)
qed

theorem compact_built_roundtrip_witness:
  "field (evidence_stub (VObj ''Evidence''
       [(''cluster_id'', ''cluster_id'', VJson (JStr ''c1'')), (''kubernetes'', ''kubernetes'', VJson (JDict [(''pods'', JInt 3)])),
        (''metrics'', ''metrics'', VJson (JDict [])), (''logs'', ''logs'', VList []), (''traces'', ''traces'', VJson (JDict [])),
        (''object_ref'', ''object_ref'', VJson (JStr ''s3://o'')), (''metadata'', ''metadata'', VJson (JDict [])),
        (''workspace_id'', ''workspace_id'', VJson (JStr ''w1''))])) ''object_ref'' = JStr ''s3://o''"
  (is "field (evidence_stub ?x) _ = _")
proof -
  have "typed_body Evidence ?x" by code_simp
  moreover have "field ?x ''object_ref'' = JStr ''s3://o''" by code_simp
  ultimately show ?thesis using compact_built_roundtrip [of ?x True] by metis
qed

subsection \<open>The storage key and the summary bound\<close>

lemma enriched_key_injective:
  assumes "CHR '':'' \<notin> set w" "CHR '':'' \<notin> set c" "CHR '':'' \<notin> set w'" "CHR '':'' \<notin> set c'"
    and "rca_enriched_evidence_key w c r = rca_enriched_evidence_key w' c' r'"
  shows "w = w' \<and> c = c' \<and> r = r'"
proof -
  have split: "py_split CHR '':'' (rca_enriched_evidence_key w c r) = w # c # RCA_ENRICHED_EVIDENCE_KEY_SEGMENT # py_split CHR '':'' r"
    if "CHR '':'' \<notin> set w" "CHR '':'' \<notin> set c" for w c r
    using that by (simp add: rca_enriched_evidence_key_def py_split_append RCA_ENRICHED_EVIDENCE_KEY_SEGMENT_def)
  have "py_split CHR '':'' r = py_split CHR '':'' r'" and "w = w'" "c = c'"
    using arg_cong [OF assms(5), of "py_split CHR '':''"] assms(1-4) by (simp_all add: split)
  then show ?thesis by (metis py_join_split)
qed

lemma json_str_length: "length s \<le> length (json_str s)"
proof -
  have pos: "Suc 0 \<le> length (json_escape c)" for c by (simp add: json_escape_def Let_def)
  have "length s \<le> length (concat (map json_escape s))"
  proof (induction s)
    case (Cons a s)
    with add_le_mono [OF pos [of a] Cons] show ?case by simp
  qed simp
  then show ?thesis by (simp add: json_str_def)
qed

lemma py_join_length: "w \<in> set ws \<Longrightarrow> length w \<le> length (py_join sep ws)"
  by (induction sep ws rule: py_join.induct) auto

lemma dumps_member: "(k, v) \<in> set d \<Longrightarrow> length (json_dumps v) \<le> length (json_dumps (JDict d))"
proof -
  assume "(k, v) \<in> set d"
  then have "json_str k @ '':'' @ json_dumps v \<in> set (map (\<lambda>(k, v). json_str k @ '':'' @ json_dumps v) d)" by force
  from py_join_length [OF this, of "'',''"] show ?thesis by simp
qed

text \<open>
  The summary keeps the symptom even when it drops the key lists, so the documented two-kilobyte bound
  does not hold: a long symptom text is published as it is.
\<close>

lemma summary_exceeds_bound:
  assumes "field_dict x ''kubernetes'' = [(''symptom'', JStr s)]" and "MAX_EVIDENCE_EVENT_SUMMARY_BYTES < int (length s)"
  shows "MAX_EVIDENCE_EVENT_SUMMARY_BYTES < utf8_length (json_dumps (JDict (evidence_summary x)))"
proof -
  have sym: "dget (drop_empty (raw_summary x)) ''symptom'' = JStr s"
    using assms(1) by (simp add: raw_summary_def drop_empty_def dget_def)
  then have "(''symptom'', JStr s) \<in> set (evidence_summary x)"
    by (auto simp: evidence_summary_def Let_def dget_def split: option.splits dest: map_of_SomeD)
  then have "length s \<le> length (json_dumps (JDict (evidence_summary x)))"
    using dumps_member json_str_length [of s] by fastforce
  with utf8_length_ge [of "json_dumps (JDict (evidence_summary x))"] assms(2) show ?thesis by linarith
qed

end
