(* ===== verification/Event_Envelope.thy ===== *)
theory Event_Envelope
  imports Json_Value
begin

section \<open>Event envelopes and their context\<close>

text \<open>
  \<^verbatim>\<open>src/src/packages/contracts/event_bus/interfaces.py\<close>, \<^verbatim>\<open>src/src/packages/events/envelope.py\<close>,
  \<^verbatim>\<open>src/src/packages/events/context.py\<close> and the causation context of \<^verbatim>\<open>src/src/packages/events/bus.py\<close>.
  The fields of an envelope are whatever the decoded message holds, so they are JSON values. The
  context variables are a record that the operations pass along; a \<^verbatim>\<open>with\<close> block is a function that
  runs its body in the changed context and restores the saved token.
\<close>

definition ENVELOPE_SCHEMA_VERSION :: int where
  "ENVELOPE_SCHEMA_VERSION = 1"

record envelope =
  event_id :: json
  subject :: json
  source :: json
  correlation_id :: json
  causation_id :: json
  created_at :: json
  payload :: json
  schema_version :: json
  workspace_id :: json

definition envelope_fields :: "string list" where
  "envelope_fields =
     [''event_id'', ''subject'', ''source'', ''correlation_id'', ''causation_id'', ''created_at'', ''payload'',
      ''schema_version'', ''workspace_id'']"

definition required_fields :: "string list" where
  \<comment> \<open>the dataclass fields without a default\<close>
  "required_fields =
     [''event_id'', ''subject'', ''source'', ''correlation_id'', ''causation_id'', ''created_at'', ''payload'']"

definition get_default :: "jdict \<Rightarrow> string \<Rightarrow> json \<Rightarrow> json" where
  "get_default d k v = (case map_of d k of None \<Rightarrow> v | Some w \<Rightarrow> w)"

definition from_mapping :: "jdict \<Rightarrow> py_exn + envelope" where
  "from_mapping raw =
     (let kwargs = filter (\<lambda>(k, _). k \<in> set envelope_fields) raw in
      if \<not> list_all (dhas kwargs) required_fields then Inl TypeError
      else Inr \<lparr>event_id = dget kwargs ''event_id'', subject = dget kwargs ''subject'',
                source = dget kwargs ''source'', correlation_id = dget kwargs ''correlation_id'',
                causation_id = dget kwargs ''causation_id'', created_at = dget kwargs ''created_at'',
                payload = dget kwargs ''payload'',
                schema_version = get_default kwargs ''schema_version'' (JInt ENVELOPE_SCHEMA_VERSION),
                workspace_id = get_default kwargs ''workspace_id'' JNull\<rparr>)"

definition to_dict :: "envelope \<Rightarrow> jdict" where
  "to_dict evt =
     [(''event_id'', event_id evt), (''subject'', subject evt), (''source'', source evt),
      (''correlation_id'', correlation_id evt), (''causation_id'', causation_id evt),
      (''created_at'', created_at evt), (''payload'', payload evt),
      (''schema_version'', schema_version evt), (''workspace_id'', workspace_id evt)]"

subsection \<open>The workspace and causation context\<close>

record event_ctx =
  current_workspace :: "string option"
  pending_workspace :: "string option"
  current_causation :: json

definition normalized_workspace_id :: "json \<Rightarrow> string option" where
  "normalized_workspace_id value =
     (case value of JStr s \<Rightarrow> (if py_strip s = [] then None else Some (py_strip s)) | _ \<Rightarrow> None)"

definition json_of_option :: "string option \<Rightarrow> json" where
  "json_of_option v = (case v of None \<Rightarrow> JNull | Some s \<Rightarrow> JStr s)"

definition set_event_workspace :: "json \<Rightarrow> event_ctx \<Rightarrow> event_ctx" where
  "set_event_workspace workspace ctx = ctx\<lparr>current_workspace := normalized_workspace_id workspace\<rparr>"

definition current_event_workspace :: "event_ctx \<Rightarrow> string option" where
  "current_event_workspace ctx = normalized_workspace_id (json_of_option (current_workspace ctx))"

definition stage_event_workspace :: "json \<Rightarrow> event_ctx \<Rightarrow> event_ctx" where
  "stage_event_workspace workspace ctx = ctx\<lparr>pending_workspace := normalized_workspace_id workspace\<rparr>"

definition pending_event_workspace :: "event_ctx \<Rightarrow> string option" where
  "pending_event_workspace ctx = normalized_workspace_id (json_of_option (pending_workspace ctx))"

definition event_context :: "envelope \<Rightarrow> event_ctx \<Rightarrow> jdict \<times> event_ctx" where
  "event_context evt ctx =
     ([(''subject'', subject evt), (''event_id'', event_id evt), (''correlation_id'', correlation_id evt),
       (''causation_id'', causation_id evt), (''workspace_id'', workspace_id evt), (''source'', source evt)],
      stage_event_workspace (workspace_id evt) ctx)"

definition event_workspace :: "json \<Rightarrow> (event_ctx \<Rightarrow> 'a \<times> event_ctx) \<Rightarrow> event_ctx \<Rightarrow> 'a \<times> event_ctx" where
  "event_workspace workspace body ctx =
     (case body (ctx\<lparr>current_workspace := normalized_workspace_id workspace\<rparr>) of
        (x, ctx') \<Rightarrow> (x, ctx'\<lparr>current_workspace := current_workspace ctx\<rparr>))"

definition event_causation :: "json \<Rightarrow> (event_ctx \<Rightarrow> 'a \<times> event_ctx) \<Rightarrow> event_ctx \<Rightarrow> 'a \<times> event_ctx" where
  "event_causation causation body ctx =
     (let ctx1 = ctx\<lparr>current_causation := causation\<rparr>;
          workspace = pending_event_workspace ctx1;
          ctx2 = stage_event_workspace JNull ctx1
      in case event_workspace (json_of_option workspace) body ctx2 of
           (x, ctx') \<Rightarrow> (x, ctx'\<lparr>current_causation := current_causation ctx\<rparr>))"

definition new_event ::
  "event_ctx \<Rightarrow> string \<Rightarrow> string \<Rightarrow> json \<Rightarrow> json \<Rightarrow> jdict \<Rightarrow> json \<Rightarrow> json \<Rightarrow> json \<Rightarrow> envelope" where
  \<comment> \<open>\<^verbatim>\<open>event(...)\<close>; the random identifier and the clock are arguments\<close>
  "new_event ctx uuid now subj src body correlation causation workspace =
     \<lparr>event_id = JStr uuid, subject = subj, source = src,
      correlation_id = py_or (py_or correlation (dget body ''correlation_id'')) (JStr uuid),
      causation_id = causation, created_at = JStr now, payload = JDict body,
      schema_version = JInt ENVELOPE_SCHEMA_VERSION,
      workspace_id = json_of_option (case normalized_workspace_id workspace of
                       Some w \<Rightarrow> Some w | None \<Rightarrow> current_event_workspace ctx)\<rparr>"

definition recorded_emit ::
  "event_ctx \<Rightarrow> string \<Rightarrow> string \<Rightarrow> json \<Rightarrow> json \<Rightarrow> jdict \<Rightarrow> json \<Rightarrow> json \<Rightarrow> envelope" where
  \<comment> \<open>the envelope \<^verbatim>\<open>RecordedEventClient.emit\<close> publishes and records\<close>
  "recorded_emit ctx uuid now subj src body correlation causation =
     new_event ctx uuid now subj src body correlation (py_or causation (current_causation ctx)) JNull"

subsection \<open>Properties\<close>

lemma get_known:
  "k \<in> set envelope_fields \<Longrightarrow> map_of (filter (\<lambda>(k, _). k \<in> set envelope_fields) d) k = map_of d k"
  by (induction d) auto

lemma from_mapping_extra:
  assumes "list_all (\<lambda>k. k \<notin> set envelope_fields) (map fst extra)"
  shows "from_mapping (to_dict evt @ extra) = Inr evt"
proof -
  have "filter (\<lambda>(k, _). k \<in> set envelope_fields) extra = []"
    using assms by (auto simp: filter_empty_conv list_all_iff)
  moreover have "filter (\<lambda>(k, _). k \<in> set envelope_fields) (to_dict evt) = to_dict evt"
    by (simp add: to_dict_def envelope_fields_def)
  ultimately have kw: "filter (\<lambda>(k, _). k \<in> set envelope_fields) (to_dict evt @ extra) = to_dict evt" by simp
  have req: "list_all (dhas (to_dict evt)) required_fields"
    by (simp add: to_dict_def required_fields_def dhas_def)
  show ?thesis unfolding from_mapping_def Let_def kw
    using req by (simp add: to_dict_def dget_def get_default_def)
qed

text \<open>
  C13. Envelopes survive the wire: decoding the encoded fields returns the same envelope, also when a
  newer producer added fields this version does not know.
\<close>

theorem envelope_roundtrip:
  assumes "list_all (\<lambda>k. k \<notin> set envelope_fields) (map fst extra)"
  shows "from_mapping (to_dict evt @ extra) = Inr evt"
  by (rule from_mapping_extra [OF assms])

definition sample_envelope :: envelope where
  "sample_envelope =
     \<lparr>event_id = JStr ''e1'', subject = JStr ''git.changed'', source = JStr ''scm'', correlation_id = JStr ''c1'',
      causation_id = JNull, created_at = JStr ''2026-01-01'', payload = JDict [], schema_version = JInt 1,
      workspace_id = JStr ''w1''\<rparr>"

theorem envelope_roundtrip_witness:
  "from_mapping (to_dict sample_envelope @ [(''trace'', JInt 7)]) = Inr sample_envelope"
  by (rule envelope_roundtrip) (simp add: envelope_fields_def)

lemma py_strip_idem: "py_strip (py_strip s) = py_strip s"
proof -
  let ?d = "dropWhile is_space"
  have "?d (rev (?d (rev (?d s)))) = rev (?d (rev (?d s)))"
  proof (cases "rev (?d (rev (?d s)))")
    case (Cons c cs)
    then have "?d (rev (?d s)) = rev cs @ [c]" by (metis rev_rev_ident rev.simps(2))
    then obtain ys where "rev (?d s) = ys @ rev cs @ [c]" by (metis takeWhile_dropWhile_id)
    then have "?d s = c # cs @ rev ys" by (metis append_Cons append_Nil rev_append rev_rev_ident rev_singleton_conv append.assoc rev.simps(2))
    then have "\<not> is_space c" by (metis dropWhile_eq_Cons_conv)
    with Cons show ?thesis by simp
  next
    case Nil
    then show ?thesis by (simp only: dropWhile.simps)
  qed
  then show ?thesis unfolding py_strip_def by (simp add: dropWhile_idem)
qed

lemma normalized_idem: "normalized_workspace_id (json_of_option (normalized_workspace_id v)) = normalized_workspace_id v"
  by (auto simp: normalized_workspace_id_def json_of_option_def py_strip_idem split: json.splits)

text \<open>
  The tenant follows the chain of causes: while a handler runs for a parent event, every event it
  emits without naming its own cause is caused by the parent and belongs to the parent's workspace,
  whatever workspace was current before, and afterwards the context is as it was.
\<close>

theorem child_events_inherit_workspace:
  assumes "body = (\<lambda>ctx. (recorded_emit ctx uuid now subj src b correlation JNull, ctx))"
  shows "\<exists>child ctx'. event_causation (event_id parent) body (snd (event_context parent ctx)) = (child, ctx')
    \<and> causation_id child = event_id parent
    \<and> workspace_id child = json_of_option (normalized_workspace_id (workspace_id parent))
    \<and> current_workspace ctx' = current_workspace ctx \<and> current_causation ctx' = current_causation ctx"
  using assms
  by (simp add: event_causation_def event_context_def event_workspace_def stage_event_workspace_def
      pending_event_workspace_def recorded_emit_def new_event_def current_event_workspace_def normalized_idem
      py_or_def normalized_workspace_id_def [of JNull] Let_def)

theorem child_events_inherit_workspace_witness:
  "\<exists>child ctx'. event_causation (JStr ''e1'')
      (\<lambda>ctx. (recorded_emit ctx ''u'' ''t'' (JStr ''rca.done'') (JStr ''rca'') [] JNull JNull, ctx))
      (snd (event_context sample_envelope \<lparr>current_workspace = Some ''other'', pending_workspace = None, current_causation = JNull\<rparr>))
      = (child, ctx') \<and> workspace_id child = JStr ''w1''"
proof -
  have "json_of_option (normalized_workspace_id (workspace_id sample_envelope)) = JStr ''w1''" by code_simp
  then show ?thesis using child_events_inherit_workspace [OF refl, where parent = sample_envelope]
    by (fastforce simp: sample_envelope_def)
qed

end
