(* ===== verification/Event_Store.thy ===== *)
theory Event_Store
  imports Event_Envelope
begin

section \<open>The event tables\<close>

text \<open>
  \<^verbatim>\<open>src/src/packages/storage/repositories/\<close>\<^verbatim>\<open>{event,outbox,dead_letter}.py\<close> with
  \<^verbatim>\<open>src/src/packages/contracts/event_bus/processing.py\<close> and \<^verbatim>\<open>src/src/packages/runtime/ledger.py\<close>: the
  processing ledger, the outbox and the dead letters. One record holds the tables; every repository
  method is a function on it that does what its SQL statement does in one transaction. Clocks,
  generated identifiers and the freshness window are arguments; times are integers in one unit. The
  column of business data is a type parameter: handlers may change it, the repositories do not.
\<close>

datatype processing_status = PROCESSING | PROCESSED | RETRYING | DEAD_LETTERED

definition TERMINAL_STATUSES :: "processing_status list" where
  "TERMINAL_STATUSES = [PROCESSED, DEAD_LETTERED]"

datatype record_status = Stored processing_status | CLAIM_BLOCKED | Unknown

record processing_record =
  rec_status :: record_status
  rec_attempts :: int

record processing_row =
  pr_status :: processing_status
  pr_attempts :: int
  pr_last_error :: "string option"
  pr_updated_at :: int
  pr_duration_ms :: "int option"

record event_row =
  er_subject :: json
  er_source :: json
  er_correlation_id :: json
  er_causation_id :: json
  er_payload :: json
  er_schema_version :: json

record outbox_row =
  ob_id :: nat
  ob_evt :: envelope
  ob_lease_id :: "string option"
  ob_leased_until :: "int option"
  ob_sent_at :: "int option"

datatype dead_letter_status = DEAD_LETTER_OPEN | DEAD_LETTER_REPLAYED

record dead_letter =
  dl_id :: nat
  dl_event_id :: json
  dl_subject :: json
  dl_consumer :: string
  dl_correlation_id :: json
  dl_attempts :: int
  dl_error :: string
  dl_payload :: json
  dl_status :: dead_letter_status
  dl_created_at :: int
  dl_replay_event_id :: "string option"
  dl_replayed_at :: "int option"

type_synonym event_key = "json \<times> string"

record 'b store =
  st_events :: "json \<Rightarrow> event_row option"
  st_processing :: "event_key \<Rightarrow> processing_row option"
  st_outbox :: "outbox_row list"
  st_dead_letters :: "dead_letter list"
  st_business :: 'b

definition ERROR_MESSAGE_LIMIT :: nat where
  "ERROR_MESSAGE_LIMIT = 2000"

definition compact_error :: "string \<Rightarrow> string" where
  "compact_error err = take ERROR_MESSAGE_LIMIT err"

subsection \<open>The processing ledger\<close>

definition record_event :: "envelope \<Rightarrow> 'b store \<Rightarrow> 'b store" where
  "record_event evt s =
     (case st_events s (event_id evt) of
        Some _ \<Rightarrow> s
      | None \<Rightarrow> s\<lparr>st_events := (st_events s)(event_id evt \<mapsto>
          \<lparr>er_subject = subject evt, er_source = source evt, er_correlation_id = correlation_id evt,
           er_causation_id = causation_id evt, er_payload = payload evt,
           er_schema_version = schema_version evt\<rparr>)\<rparr>)"

definition claimable :: "int \<Rightarrow> int \<Rightarrow> processing_row \<Rightarrow> bool" where
  \<comment> \<open>the \<^verbatim>\<open>where\<close> of the upsert: not terminal, and not a fresh claim\<close>
  "claimable stale now row \<longleftrightarrow>
     pr_status row \<notin> set TERMINAL_STATUSES
     \<and> (pr_status row \<noteq> PROCESSING \<or> pr_updated_at row < now - stale)"

definition claim_event_processing ::
  "int \<Rightarrow> int \<Rightarrow> event_key \<Rightarrow> 'b store \<Rightarrow> processing_record option \<times> 'b store" where
  "claim_event_processing stale now key s =
     (case st_processing s key of
        None \<Rightarrow>
          (Some \<lparr>rec_status = Stored PROCESSING, rec_attempts = 1\<rparr>,
           s\<lparr>st_processing := (st_processing s)(key \<mapsto>
             \<lparr>pr_status = PROCESSING, pr_attempts = 1, pr_last_error = None, pr_updated_at = now,
              pr_duration_ms = None\<rparr>)\<rparr>)
      | Some row \<Rightarrow>
          (if claimable stale now row then
             (Some \<lparr>rec_status = Stored PROCESSING, rec_attempts = pr_attempts row + 1\<rparr>,
              s\<lparr>st_processing := (st_processing s)(key \<mapsto>
                row\<lparr>pr_status := PROCESSING, pr_attempts := pr_attempts row + 1, pr_last_error := None,
                    pr_updated_at := now\<rparr>)\<rparr>)
           else (None, s)))"

definition get_event_processing :: "event_key \<Rightarrow> 'b store \<Rightarrow> processing_row option" where
  "get_event_processing key s = st_processing s key"

definition begin_event_processing ::
  "int \<Rightarrow> int \<Rightarrow> envelope \<Rightarrow> string \<Rightarrow> 'b store \<Rightarrow> processing_record \<times> 'b store" where
  "begin_event_processing stale now evt consumer s =
     (case claim_event_processing stale now (event_id evt, consumer) s of
        (Some r, s') \<Rightarrow> (r, s')
      | (None, s') \<Rightarrow>
          (case get_event_processing (event_id evt, consumer) s' of
             Some row \<Rightarrow>
               (\<lparr>rec_status = (if pr_status row = PROCESSING then CLAIM_BLOCKED else Stored (pr_status row)),
                 rec_attempts = pr_attempts row\<rparr>, s')
           | None \<Rightarrow> (\<lparr>rec_status = Unknown, rec_attempts = 0\<rparr>, s')))"

definition write_duration :: "int option \<Rightarrow> processing_row \<Rightarrow> processing_row" where
  "write_duration duration row =
     (case duration of None \<Rightarrow> row | Some d \<Rightarrow> row\<lparr>pr_duration_ms := Some (max 0 d)\<rparr>)"

definition update_processing ::
  "event_key \<Rightarrow> (processing_row \<Rightarrow> processing_row) \<Rightarrow> 'b store \<Rightarrow> 'b store" where
  \<comment> \<open>\<^verbatim>\<open>update ... where event_id = ... and consumer = ...\<close>\<close>
  "update_processing key f s =
     (case st_processing s key of
        None \<Rightarrow> s
      | Some row \<Rightarrow> s\<lparr>st_processing := (st_processing s)(key \<mapsto> f row)\<rparr>)"

definition finish_event_processing :: "int \<Rightarrow> envelope \<Rightarrow> string \<Rightarrow> int option \<Rightarrow> 'b store \<Rightarrow> 'b store" where
  "finish_event_processing now evt consumer duration s =
     update_processing (event_id evt, consumer)
       (\<lambda>row. write_duration duration
          (row\<lparr>pr_status := PROCESSED, pr_last_error := None, pr_updated_at := now\<rparr>)) s"

definition fail_event_processing ::
  "int \<Rightarrow> envelope \<Rightarrow> string \<Rightarrow> string \<Rightarrow> processing_status \<Rightarrow> int option \<Rightarrow> 'b store \<Rightarrow> 'b store" where
  "fail_event_processing now evt consumer err status duration s =
     update_processing (event_id evt, consumer)
       (\<lambda>row. write_duration duration
          (row\<lparr>pr_status := status, pr_last_error := Some (compact_error err), pr_updated_at := now\<rparr>)) s"

definition ledger_begin :: "int \<Rightarrow> int \<Rightarrow> string \<Rightarrow> envelope \<Rightarrow> 'b store \<Rightarrow> processing_record \<times> 'b store" where
  "ledger_begin stale now consumer evt s = begin_event_processing stale now evt consumer (record_event evt s)"

definition ledger_finish :: "int \<Rightarrow> string \<Rightarrow> envelope \<Rightarrow> int option \<Rightarrow> 'b store \<Rightarrow> 'b store" where
  "ledger_finish now consumer evt duration s = finish_event_processing now evt consumer duration s"

definition ledger_retry :: "int \<Rightarrow> string \<Rightarrow> envelope \<Rightarrow> string \<Rightarrow> int option \<Rightarrow> 'b store \<Rightarrow> 'b store" where
  "ledger_retry now consumer evt err duration s = fail_event_processing now evt consumer err RETRYING duration s"

definition ledger_dead_letter :: "int \<Rightarrow> string \<Rightarrow> envelope \<Rightarrow> string \<Rightarrow> int option \<Rightarrow> 'b store \<Rightarrow> 'b store" where
  "ledger_dead_letter now consumer evt err duration s =
     fail_event_processing now evt consumer err DEAD_LETTERED duration s"

subsection \<open>The outbox\<close>

definition DEFAULT_OUTBOX_LEASE_SECONDS :: int where
  "DEFAULT_OUTBOX_LEASE_SECONDS = 60"

definition next_outbox_id :: "outbox_row list \<Rightarrow> nat" where
  \<comment> \<open>the serial column: above every identifier in use\<close>
  "next_outbox_id rows = Suc (Max (insert 0 (set (map ob_id rows))))"

definition stage_event :: "outbox_row list \<Rightarrow> envelope \<Rightarrow> outbox_row list" where
  \<comment> \<open>\<^verbatim>\<open>insert ... on conflict (event_id) do nothing\<close> of one row\<close>
  "stage_event rows evt =
     (if event_id evt \<in> (\<lambda>r. event_id (ob_evt r)) ` set rows then rows
      else rows @ [\<lparr>ob_id = next_outbox_id rows, ob_evt = evt, ob_lease_id = None, ob_leased_until = None,
                    ob_sent_at = None\<rparr>])"

definition stage_events :: "envelope list \<Rightarrow> 'b store \<Rightarrow> 'b store" where
  "stage_events evts s = s\<lparr>st_outbox := foldl stage_event (st_outbox s) evts\<rparr>"

definition outbox_available :: "int \<Rightarrow> json option \<Rightarrow> outbox_row \<Rightarrow> bool" where
  "outbox_available now src row \<longleftrightarrow>
     ob_sent_at row = None
     \<and> (ob_lease_id row = None \<or> (case ob_leased_until row of None \<Rightarrow> False | Some t \<Rightarrow> t < now))
     \<and> (case src of None \<Rightarrow> True | Some v \<Rightarrow> source (ob_evt row) = v)"

definition claim_outbox ::
  "nat \<Rightarrow> int \<Rightarrow> json option \<Rightarrow> (nat \<Rightarrow> bool) \<Rightarrow> outbox_row list \<Rightarrow> nat list" where
  \<comment> \<open>the identifiers the \<^verbatim>\<open>claimable_outbox\<close> query selects; rows locked elsewhere are skipped\<close>
  "claim_outbox limit now src locked rows =
     take limit (sort (map ob_id (filter (\<lambda>r. outbox_available now src r \<and> \<not> locked (ob_id r)) rows)))"

definition unsent_events ::
  "nat \<Rightarrow> json option \<Rightarrow> string \<Rightarrow> int \<Rightarrow> int \<Rightarrow> (nat \<Rightarrow> bool) \<Rightarrow> 'b store \<Rightarrow> envelope list \<times> 'b store" where
  "unsent_events limit src lease_id app_now now locked s =
     (let ids = claim_outbox limit now src locked (st_outbox s);
          lease = (\<lambda>r. if ob_id r \<in> set ids
                       then r\<lparr>ob_lease_id := Some lease_id,
                              ob_leased_until := Some (app_now + DEFAULT_OUTBOX_LEASE_SECONDS)\<rparr>
                       else r)
      in (map ob_evt (filter (\<lambda>r. ob_id r \<in> set ids) (st_outbox s)),
          s\<lparr>st_outbox := map lease (st_outbox s)\<rparr>))"

definition settle_outbox :: "int \<Rightarrow> json list \<Rightarrow> outbox_row list \<Rightarrow> outbox_row list" where
  \<comment> \<open>\<^verbatim>\<open>update ... where event_id in (...) values (sent_at=now, lease_id=None, leased_until=None)\<close>\<close>
  "settle_outbox now ids rows =
     map (\<lambda>r. if event_id (ob_evt r) \<in> set ids
              then r\<lparr>ob_sent_at := Some now, ob_lease_id := None, ob_leased_until := None\<rparr> else r) rows"

definition mark_events_sent :: "int \<Rightarrow> json list \<Rightarrow> 'b store \<Rightarrow> 'b store" where
  "mark_events_sent now ids s = s\<lparr>st_outbox := settle_outbox now ids (st_outbox s)\<rparr>"

definition outbox_pending_count :: "'b store \<Rightarrow> nat" where
  "outbox_pending_count s = length (filter (\<lambda>r. ob_sent_at r = None) (st_outbox s))"

subsection \<open>Dead letters\<close>

definition next_dead_letter_id :: "dead_letter list \<Rightarrow> nat" where
  "next_dead_letter_id rows = Suc (Max (insert 0 (set (map dl_id rows))))"

definition insert_dead_letter ::
  "int \<Rightarrow> json \<Rightarrow> json \<Rightarrow> string \<Rightarrow> json \<Rightarrow> int \<Rightarrow> string \<Rightarrow> json \<Rightarrow> 'b store \<Rightarrow> 'b store" where
  "insert_dead_letter now eid subj consumer correlation attempts err body s =
     s\<lparr>st_dead_letters := st_dead_letters s @
        [\<lparr>dl_id = next_dead_letter_id (st_dead_letters s), dl_event_id = eid, dl_subject = subj,
          dl_consumer = consumer, dl_correlation_id = correlation, dl_attempts = attempts,
          dl_error = compact_error err, dl_payload = body, dl_status = DEAD_LETTER_OPEN,
          dl_created_at = now, dl_replay_event_id = None, dl_replayed_at = None\<rparr>]\<rparr>"

definition record_dead_letter :: "int \<Rightarrow> envelope \<Rightarrow> string \<Rightarrow> string \<Rightarrow> int \<Rightarrow> 'b store \<Rightarrow> 'b store" where
  "record_dead_letter now evt consumer err attempts s =
     insert_dead_letter now (event_id evt) (subject evt) consumer (correlation_id evt) attempts err
       (payload evt) s"

definition RAW_DEAD_LETTER_SUBJECT :: string where
  "RAW_DEAD_LETTER_SUBJECT = ''__decode_failed__''"

definition record_raw_dead_letter :: "int \<Rightarrow> string \<Rightarrow> string \<Rightarrow> string \<Rightarrow> string \<Rightarrow> 'b store \<Rightarrow> 'b store" where
  \<comment> \<open>the decoded bytes and the random identifier are arguments\<close>
  "record_raw_dead_letter now uuid raw consumer err s =
     insert_dead_letter now (JStr (''decode-failure:'' @ uuid)) (JStr RAW_DEAD_LETTER_SUBJECT) consumer
       (JStr (''decode-failure:'' @ uuid)) 1 err (JDict [(''raw'', JStr raw)]) s"

definition mark_events_dead_lettered :: "int \<Rightarrow> envelope list \<Rightarrow> string \<Rightarrow> string \<Rightarrow> 'b store \<Rightarrow> 'b store" where
  "mark_events_dead_lettered now evts consumer err s =
     mark_events_sent now (map event_id evts)
       (foldl (\<lambda>s evt. insert_dead_letter now (event_id evt) (subject evt) consumer (correlation_id evt) 1 err
                 (payload evt) s) s evts)"

definition get_dead_letter :: "nat \<Rightarrow> 'b store \<Rightarrow> dead_letter option" where
  "get_dead_letter i s = find (\<lambda>d. dl_id d = i) (st_dead_letters s)"

definition mark_dead_letter_replayed :: "int \<Rightarrow> nat \<Rightarrow> string \<Rightarrow> 'b store \<Rightarrow> bool \<times> 'b store" where
  "mark_dead_letter_replayed now i replay_event_id s =
     (let hit = (\<lambda>d. dl_id d = i \<and> dl_status d = DEAD_LETTER_OPEN) in
      (list_ex hit (st_dead_letters s),
       s\<lparr>st_dead_letters := map (\<lambda>d. if hit d then
            d\<lparr>dl_status := DEAD_LETTER_REPLAYED, dl_replayed_at := Some now,
              dl_replay_event_id := Some replay_event_id\<rparr> else d) (st_dead_letters s)\<rparr>))"

definition open_dead_letter_count :: "'b store \<Rightarrow> nat" where
  "open_dead_letter_count s = length (filter (\<lambda>d. dl_status d = DEAD_LETTER_OPEN) (st_dead_letters s))"

subsection \<open>What a ledger promises\<close>

text \<open>
  The worker sees the ledger through two operations: asking for the right to process a key, and
  closing a key with a status. The locale states what these promise about one row; the lemmas on
  sequences of operations hold for every ledger that keeps these laws.
\<close>

datatype 'k ledger_op = Claim int 'k | Close int processing_status 'k

locale event_ledger =
  fixes row :: "'s \<Rightarrow> 'k \<Rightarrow> processing_row option"
    and claim :: "int \<Rightarrow> 'k \<Rightarrow> 's \<Rightarrow> processing_record \<times> 's"
    and close :: "int \<Rightarrow> processing_status \<Rightarrow> 'k \<Rightarrow> 's \<Rightarrow> 's"
    and stale :: int
  assumes claim_new: "row s k = None \<Longrightarrow>
      rec_status (fst (claim now k s)) = Stored PROCESSING \<and> rec_attempts (fst (claim now k s)) = 1
      \<and> map_option (\<lambda>r. (pr_status r, pr_attempts r, pr_updated_at r)) (row (snd (claim now k s)) k)
          = Some (PROCESSING, 1, now)"
    and claim_granted: "row s k = Some r \<Longrightarrow> claimable stale now r \<Longrightarrow>
      rec_status (fst (claim now k s)) = Stored PROCESSING \<and> rec_attempts (fst (claim now k s)) = pr_attempts r + 1
      \<and> map_option (\<lambda>r. (pr_status r, pr_attempts r, pr_updated_at r)) (row (snd (claim now k s)) k)
          = Some (PROCESSING, pr_attempts r + 1, now)"
    and claim_refused: "row s k = Some r \<Longrightarrow> \<not> claimable stale now r \<Longrightarrow>
      rec_status (fst (claim now k s)) \<noteq> Stored PROCESSING \<and> rec_attempts (fst (claim now k s)) = pr_attempts r
      \<and> row (snd (claim now k s)) k = Some r"
    and claim_other: "k' \<noteq> k \<Longrightarrow> row (snd (claim now k s)) k' = row s k'"
    and close_row: "map_option (\<lambda>r. (pr_status r, pr_attempts r, pr_updated_at r)) (row (close now st k s) k)
        = map_option (\<lambda>r. (st, pr_attempts r, now)) (row s k)"
    and close_other: "k' \<noteq> k \<Longrightarrow> row (close now st k s) k' = row s k'"
begin

definition attempts :: "'s \<Rightarrow> 'k \<Rightarrow> int" where
  "attempts s k = (case row s k of None \<Rightarrow> 0 | Some r \<Rightarrow> pr_attempts r)"

fun step :: "'k ledger_op \<Rightarrow> 's \<Rightarrow> 's" where
  "step (Claim now k) s = snd (claim now k s)"
| "step (Close now st k) s = close now st k s"

fun granted :: "'k ledger_op list \<Rightarrow> 's \<Rightarrow> 'k \<Rightarrow> int" where
  \<comment> \<open>how many claims of a key a sequence of operations grants\<close>
  "granted [] s k = 0"
| "granted (op # ops) s k =
     (case op of
        Claim now k' \<Rightarrow> if k' = k \<and> rec_status (fst (claim now k' s)) = Stored PROCESSING then 1 else 0
      | Close _ _ _ \<Rightarrow> 0) + granted ops (step op s) k"

lemma attempts_claim:
  "attempts (snd (claim now k s)) k
     = attempts s k + (if rec_status (fst (claim now k s)) = Stored PROCESSING then 1 else 0)"
proof (cases "row s k")
  case None
  with claim_new [OF None, of now] show ?thesis by (auto simp: attempts_def)
next
  case (Some r)
  show ?thesis
  proof (cases "claimable stale now r")
    case True
    with claim_granted [OF Some True] Some show ?thesis by (auto simp: attempts_def)
  next
    case False
    with claim_refused [OF Some False] Some show ?thesis by (auto simp: attempts_def)
  qed
qed

lemma attempts_close: "attempts (close now st k s) k' = attempts s k'"
proof (cases "k' = k")
  case True
  with close_row [of now st k s] show ?thesis by (cases "row s k") (auto simp: attempts_def)
next
  case False
  with close_other show ?thesis by (simp add: attempts_def)
qed

lemma attempts_count: "attempts (foldl (\<lambda>s op. step op s) s ops) k = attempts s k + granted ops s k"
proof (induction ops arbitrary: s)
  case (Cons op ops)
  show ?case
  proof (cases op)
    case (Claim now k')
    then show ?thesis
      using Cons attempts_claim [of now k s] claim_other [of k k' now s]
      by (cases "k' = k") (auto simp: attempts_def)
  next
    case (Close now st k')
    then show ?thesis using Cons attempts_close by simp
  qed
qed simp

lemma claim_reported: "rec_status (fst (claim now k s)) = Stored PROCESSING \<Longrightarrow>
  rec_attempts (fst (claim now k s)) = attempts (snd (claim now k s)) k"
proof (cases "row s k")
  case None
  with claim_new [OF None, of now] show ?thesis by (auto simp: attempts_def)
next
  case (Some r)
  assume "rec_status (fst (claim now k s)) = Stored PROCESSING"
  then have "claimable stale now r" using claim_refused [OF Some, of now] by blast
  from claim_granted [OF Some this] show ?thesis by (auto simp: attempts_def)
qed

lemma terminal_absorbs_claims:
  assumes "row s k = Some r" and "pr_status r \<in> set TERMINAL_STATUSES"
    and "list_all (\<lambda>op. case op of Claim _ _ \<Rightarrow> True | Close _ _ k' \<Rightarrow> k' \<noteq> k) ops"
  shows "row (foldl (\<lambda>s op. step op s) s ops) k = Some r \<and> granted ops s k = 0"
  using assms
proof (induction ops arbitrary: s)
  case (Cons op ops)
  have refuse: "\<not> claimable stale now r" for now using Cons.prems(2) by (simp add: claimable_def)
  have "row (step op s) k = Some r"
  proof (cases op)
    case (Claim now k')
    then show ?thesis using claim_refused [OF Cons.prems(1) refuse] claim_other [of k k' now s] Cons.prems(1)
      by (cases "k' = k") auto
  next
    case (Close now st k')
    then show ?thesis using close_other [of k k' now st s] Cons.prems(1,3) by auto
  qed
  moreover have "rec_status (fst (claim now k s)) \<noteq> Stored PROCESSING" for now
    using claim_refused [OF Cons.prems(1) refuse] by blast
  ultimately show ?case using Cons by (auto split: ledger_op.splits)
qed simp

end

definition close_processing :: "int \<Rightarrow> processing_status \<Rightarrow> event_key \<Rightarrow> 'b store \<Rightarrow> 'b store" where
  \<comment> \<open>the common effect of finishing, retrying and dead-lettering on a row\<close>
  "close_processing now st key s = update_processing key (\<lambda>row. row\<lparr>pr_status := st, pr_updated_at := now\<rparr>) s"

definition claim_key :: "int \<Rightarrow> int \<Rightarrow> event_key \<Rightarrow> 'b store \<Rightarrow> processing_record \<times> 'b store" where
  "claim_key stale now key s =
     (case claim_event_processing stale now key s of
        (Some r, s') \<Rightarrow> (r, s')
      | (None, s') \<Rightarrow>
          (case get_event_processing key s' of
             Some row \<Rightarrow>
               (\<lparr>rec_status = (if pr_status row = PROCESSING then CLAIM_BLOCKED else Stored (pr_status row)),
                 rec_attempts = pr_attempts row\<rparr>, s')
           | None \<Rightarrow> (\<lparr>rec_status = Unknown, rec_attempts = 0\<rparr>, s')))"

lemma begin_claim_key: "begin_event_processing stale now evt consumer s = claim_key stale now (event_id evt, consumer) s"
  by (simp add: begin_event_processing_def claim_key_def)

lemmas ledger_defs = claim_key_def claim_event_processing_def get_event_processing_def close_processing_def
  update_processing_def

interpretation store_ledger: event_ledger st_processing "claim_key stale" close_processing stale for stale
proof unfold_locales
  fix s :: "'a store" and k :: event_key and r now
  assume "st_processing s k = Some r" "\<not> claimable stale now r"
  then show "rec_status (fst (claim_key stale now k s)) \<noteq> Stored PROCESSING
      \<and> rec_attempts (fst (claim_key stale now k s)) = pr_attempts r
      \<and> st_processing (snd (claim_key stale now k s)) k = Some r"
    by (auto simp: ledger_defs)
qed (auto simp: ledger_defs split: option.splits)

fun apply_op :: "int \<Rightarrow> event_key ledger_op \<Rightarrow> 'b store \<Rightarrow> 'b store" where
  "apply_op stale (Claim now k) s = snd (claim_key stale now k s)"
| "apply_op stale (Close now st k) s = close_processing now st k s"

fun granted_claims :: "int \<Rightarrow> event_key ledger_op list \<Rightarrow> 'b store \<Rightarrow> event_key \<Rightarrow> int" where
  "granted_claims stale [] s k = 0"
| "granted_claims stale (op # ops) s k =
     (case op of
        Claim now k' \<Rightarrow> if k' = k \<and> rec_status (fst (claim_key stale now k' s)) = Stored PROCESSING then 1 else 0
      | Close _ _ _ \<Rightarrow> 0) + granted_claims stale ops (apply_op stale op s) k"

lemma apply_op_step: "apply_op stale op s = store_ledger.step stale op s"
  by (cases op) (simp_all add: store_ledger.step.simps)

lemma granted_claims_eq: "granted_claims stale ops s k = store_ledger.granted stale ops s k"
  by (induction ops arbitrary: s) (simp_all add: store_ledger.granted.simps apply_op_step)

lemma foldl_ops: "foldl (\<lambda>s op. apply_op stale op s) s ops = foldl (\<lambda>s op. store_ledger.step stale op s) s ops"
  by (simp add: apply_op_step)

subsection \<open>Properties of the ledger\<close>


definition empty_store :: "'b \<Rightarrow> 'b store" where
  "empty_store b =
     \<lparr>st_events = (\<lambda>_. None), st_processing = (\<lambda>_. None), st_outbox = [], st_dead_letters = [], st_business = b\<rparr>"


text \<open>
  A settled event stays settled: once a row is processed or dead-lettered, no sequence of claims,
  at whatever times and by whatever consumers, is granted or changes the row.
\<close>

theorem settled_row_refuses_claims:
  assumes "st_processing s k = Some r" and "pr_status r \<in> set TERMINAL_STATUSES"
    and "list_all (\<lambda>op. case op of Claim _ _ \<Rightarrow> True | Close _ _ k' \<Rightarrow> k' \<noteq> k) ops"
  shows "st_processing (foldl (\<lambda>s op. apply_op stale op s) s ops) k = Some r \<and> granted_claims stale ops s k = 0"
  using store_ledger.terminal_absorbs_claims [OF assms, of stale] by (simp add: foldl_ops granted_claims_eq)

theorem settled_row_refuses_claims_witness:
  "granted_claims 90 [Claim 1000 (JStr ''e'', ''w'')]
     ((empty_store ())\<lparr>st_processing := [(JStr ''e'', ''w'') \<mapsto>
        \<lparr>pr_status = PROCESSED, pr_attempts = 1, pr_last_error = None, pr_updated_at = 0, pr_duration_ms = None\<rparr>]\<rparr>)
     (JStr ''e'', ''w'') = 0"
  using settled_row_refuses_claims [of "(empty_store ())\<lparr>st_processing := [(JStr ''e'', ''w'') \<mapsto>
        \<lparr>pr_status = PROCESSED, pr_attempts = 1, pr_last_error = None, pr_updated_at = 0, pr_duration_ms = None\<rparr>]\<rparr>"
      "(JStr ''e'', ''w'')" _ "[Claim 1000 (JStr ''e'', ''w'')]" 90]
  by (simp add: TERMINAL_STATUSES_def)

subsection \<open>The outbox keeps its rows apart\<close>

definition outbox_wf :: "outbox_row list \<Rightarrow> bool" where
  "outbox_wf rows \<longleftrightarrow> distinct (map ob_id rows) \<and> distinct (map (\<lambda>r. event_id (ob_evt r)) rows)"

lemma next_outbox_id_fresh: "next_outbox_id rows \<notin> set (map ob_id rows)"
proof
  assume "next_outbox_id rows \<in> set (map ob_id rows)"
  then have "next_outbox_id rows \<le> Max (insert 0 (set (map ob_id rows)))" by (intro Max_ge) auto
  then show False by (simp add: next_outbox_id_def)
qed

lemma stage_event_wf: "outbox_wf rows \<Longrightarrow> outbox_wf (stage_event rows evt)"
  using next_outbox_id_fresh [of rows] by (auto simp: outbox_wf_def stage_event_def)

lemma stage_events_wf: "outbox_wf (st_outbox s) \<Longrightarrow> outbox_wf (st_outbox (stage_events evts s))"
proof -
  have "outbox_wf rows \<Longrightarrow> outbox_wf (foldl stage_event rows evts)" for rows
    by (induction evts arbitrary: rows) (auto simp: stage_event_wf)
  then show "outbox_wf (st_outbox s) \<Longrightarrow> outbox_wf (st_outbox (stage_events evts s))"
    by (simp add: stage_events_def)
qed

lemma settle_outbox_keeps:
  "map ob_id (settle_outbox now ids rows) = map ob_id rows" "map ob_evt (settle_outbox now ids rows) = map ob_evt rows"
  by (auto simp: settle_outbox_def)

lemma outbox_wf_cong:
  assumes "map ob_id rows' = map ob_id rows" and "map ob_evt rows' = map ob_evt rows"
  shows "outbox_wf rows' \<longleftrightarrow> outbox_wf rows"
proof -
  have "map (\<lambda>r. event_id (ob_evt r)) rows' = map event_id (map ob_evt rows')"
    "map (\<lambda>r. event_id (ob_evt r)) rows = map event_id (map ob_evt rows)" by simp_all
  with assms show ?thesis unfolding outbox_wf_def by metis
qed

lemma mark_events_sent_wf: "outbox_wf (st_outbox (mark_events_sent now ids s)) \<longleftrightarrow> outbox_wf (st_outbox s)"
  using outbox_wf_cong [OF settle_outbox_keeps] by (simp add: mark_events_sent_def)

lemma unsent_events_keeps:
  "map ob_id (st_outbox (snd (unsent_events limit src lease app_now now locked s))) = map ob_id (st_outbox s)"
  "map ob_evt (st_outbox (snd (unsent_events limit src lease app_now now locked s))) = map ob_evt (st_outbox s)"
  by (auto simp: unsent_events_def Let_def)

lemma unsent_events_wf:
  "outbox_wf (st_outbox (snd (unsent_events limit src lease app_now now locked s))) \<longleftrightarrow> outbox_wf (st_outbox s)"
  by (rule outbox_wf_cong [OF unsent_events_keeps])

end
