(* ===== verification/Event_Dispatch.thy ===== *)
theory Event_Dispatch
  imports Event_Catalog Event_Envelope
begin

section \<open>Subscriptions and dispatch\<close>

text \<open>
  \<^verbatim>\<open>src/src/packages/runtime/app.py\<close> and \<^verbatim>\<open>src/src/packages/runtime/dispatch.py\<close>: how a service registers
  its handlers and how an envelope reaches one. A callback is a function argument: it gets the decoded
  body and the envelope's data and returns what it yields, or the text of the exception it raises; the
  data it changes is threaded through. Its number of parameters stands for \<^verbatim>\<open>inspect.signature\<close>.
  Identifiers and clock readings of the new envelopes are arguments, one per yielded body.
\<close>

datatype handler_result = Yielded "bval list" | Returned_none | Returned_list "bval list" | Returned_one bval

fun iter_results :: "handler_result \<Rightarrow> bval list" where
  "iter_results (Yielded bs) = bs"
| "iter_results Returned_none = []"
| "iter_results (Returned_list bs) = bs"
| "iter_results (Returned_one b) = [b]"

record event_info =
  ei_event_id :: json
  ei_subject :: json
  ei_correlation_id :: json
  ei_causation_id :: json
  ei_source :: json
  ei_created_at :: json
  ei_workspace_id :: json

definition info_of :: "envelope \<Rightarrow> event_info" where
  \<comment> \<open>\<^verbatim>\<open>EventContext.of\<close>\<close>
  "info_of evt =
     \<lparr>ei_event_id = event_id evt, ei_subject = subject evt, ei_correlation_id = correlation_id evt,
      ei_causation_id = causation_id evt, ei_source = source evt, ei_created_at = created_at evt,
      ei_workspace_id = workspace_id evt\<rparr>"

datatype dispatch_error =
    Body_rejected decode_error
  | No_subject
  | No_handler json
  | Unhashable_subject
  | Handler_raised string

definition subject_of :: "bval \<Rightarrow> string option" where
  \<comment> \<open>\<^verbatim>\<open>body.__subject__\<close>: the subject its class was registered under\<close>
  "subject_of x = (case x of VObj n _ \<Rightarrow> map_of (map (\<lambda>(s, b). (body_name b, s)) catalogue) n | _ \<Rightarrow> None)"

type_synonym fresh = "nat \<Rightarrow> string \<times> string"

fun collect_from :: "event_ctx \<Rightarrow> fresh \<Rightarrow> nat \<Rightarrow> string \<Rightarrow> envelope \<Rightarrow> bval list \<Rightarrow> dispatch_error + envelope list" where
  "collect_from ctx fresh i src evt [] = Inr []"
| "collect_from ctx fresh i src evt (x # xs) =
     (case subject_of x of
        None \<Rightarrow> Inl No_subject
      | Some s \<Rightarrow>
          bindE (collect_from ctx fresh (Suc i) src evt xs)
            (\<lambda>rest. Inr (new_event ctx (fst (fresh i)) (snd (fresh i)) (JStr s) (JStr src) (to_body x)
                          (correlation_id evt) (event_id evt) (workspace_id evt) # rest)))"

definition collect :: "event_ctx \<Rightarrow> fresh \<Rightarrow> string \<Rightarrow> envelope \<Rightarrow> handler_result \<Rightarrow> dispatch_error + envelope list" where
  "collect ctx fresh src evt result = collect_from ctx fresh 0 src evt (iter_results result)"

type_synonym 'b callback = "bval \<Rightarrow> event_info option \<Rightarrow> 'b \<Rightarrow> string + handler_result \<times> 'b"

type_synonym 'b raw_callback = "envelope \<Rightarrow> event_info option \<Rightarrow> 'b \<Rightarrow> string + handler_result \<times> 'b"

type_synonym 'b handler = "envelope \<Rightarrow> 'b \<Rightarrow> dispatch_error + envelope list \<times> 'b"

definition run_callback ::
  "event_ctx \<Rightarrow> fresh \<Rightarrow> string \<Rightarrow> envelope \<Rightarrow> string + handler_result \<times> 'b \<Rightarrow> dispatch_error + envelope list \<times> 'b" where
  "run_callback ctx fresh src evt outcome =
     (case outcome of
        Inl err \<Rightarrow> Inl (Handler_raised err)
      | Inr (result, data) \<Rightarrow> bindE (collect ctx fresh src evt result) (\<lambda>evts. Inr (evts, data)))"

record 'b subscription =
  sub_subject :: string
  sub_body :: body
  sub_fn :: "'b callback"
  sub_wants_ctx :: bool

definition make_event_handler :: "event_ctx \<Rightarrow> fresh \<Rightarrow> 'b subscription \<Rightarrow> string \<Rightarrow> 'b handler" where
  "make_event_handler ctx fresh sub src evt data =
     (case payload evt of
        JDict raw \<Rightarrow>
          (case from_body False (sub_body sub) raw of
             Inl e \<Rightarrow> Inl (Body_rejected e)
           | Inr x \<Rightarrow> run_callback ctx fresh src evt
                        (sub_fn sub x (if sub_wants_ctx sub then Some (info_of evt) else None) data))
      | _ \<Rightarrow> Inl (Body_rejected (MustBeObject (body_name (sub_body sub)) ''payload'')))"

definition make_raw_handler :: "event_ctx \<Rightarrow> fresh \<Rightarrow> 'b raw_callback \<Rightarrow> bool \<Rightarrow> string \<Rightarrow> 'b handler" where
  "make_raw_handler ctx fresh fn wants_ctx src evt data =
     run_callback ctx fresh src evt (fn evt (if wants_ctx then Some (info_of evt) else None) data)"

definition ALL_EVENTS_SUBJECT :: string where
  "ALL_EVENTS_SUBJECT = ''>''"

definition handlers_get :: "(string \<times> 'h) list \<Rightarrow> json \<Rightarrow> dispatch_error + 'h option" where
  \<comment> \<open>\<^verbatim>\<open>handlers.get(evt.subject)\<close>: a list or mapping is not hashable\<close>
  "handlers_get handlers subj =
     (case subj of
        JStr s \<Rightarrow> Inr (map_of handlers s)
      | JList _ \<Rightarrow> Inl Unhashable_subject
      | JDict _ \<Rightarrow> Inl Unhashable_subject
      | _ \<Rightarrow> Inr None)"

definition make_router :: "(string \<times> 'b handler) list \<Rightarrow> 'b handler" where
  "make_router handlers evt data =
     bindE (handlers_get handlers (subject evt)) (\<lambda>found.
       case (case found of Some h \<Rightarrow> Some h | None \<Rightarrow> map_of handlers ALL_EVENTS_SUBJECT) of
         None \<Rightarrow> Inl (No_handler (subject evt))
       | Some h \<Rightarrow> h evt data)"

subsection \<open>Registration\<close>

datatype app_error =
    Mixed_subscriptions | Not_registered string | Duplicate_handler string | Bad_signature | Missing_handler

record 'b app =
  app_name :: string
  app_handlers :: "(string \<times> 'b subscription) list"
  app_raw :: "('b raw_callback \<times> bool) option"
  app_consumers :: "(string \<times> string) list"

definition new_app :: "string \<Rightarrow> 'b app" where
  "new_app n = \<lparr>app_name = n, app_handlers = [], app_raw = None, app_consumers = []\<rparr>"

definition ensure_registered :: "body \<Rightarrow> app_error + string" where
  "ensure_registered b =
     (case map_of (map (\<lambda>(s, b). (body_name b, s)) catalogue) (body_name b) of
        Some s \<Rightarrow> Inr s
      | None \<Rightarrow> Inl (Not_registered (body_name b)))"

definition ensure_handler_signature :: "nat \<Rightarrow> app_error + bool" where
  "ensure_handler_signature params = (if 1 \<le> params \<and> params \<le> 2 then Inr (params = 2) else Inl Bad_signature)"

definition ensure_unique_handler :: "(string \<times> 'b subscription) list \<Rightarrow> string \<Rightarrow> app_error + unit" where
  "ensure_unique_handler handlers s = guardE (s \<in> fst ` set handlers) (Duplicate_handler s)"

definition app_on :: "body \<Rightarrow> string option \<Rightarrow> 'b callback \<Rightarrow> nat \<Rightarrow> 'b app \<Rightarrow> app_error + 'b app" where
  "app_on b consumer fn params app =
     bindE (guardE (app_raw app \<noteq> None) Mixed_subscriptions) (\<lambda>_.
     bindE (ensure_registered b) (\<lambda>s.
     bindE (ensure_unique_handler (app_handlers app) s) (\<lambda>_.
     bindE (ensure_handler_signature params) (\<lambda>wants.
       Inr (app\<lparr>app_handlers := dset (app_handlers app) s
                  \<lparr>sub_subject = s, sub_body = b, sub_fn = fn, sub_wants_ctx = wants\<rparr>,
                app_consumers := (case consumer of None \<Rightarrow> app_consumers app
                                  | Some c \<Rightarrow> dset (app_consumers app) s c)\<rparr>)))))"

definition app_on_any :: "'b raw_callback \<Rightarrow> nat \<Rightarrow> 'b app \<Rightarrow> app_error + 'b app" where
  "app_on_any fn params app =
     bindE (guardE (\<not> (app_handlers app = [] \<and> app_raw app = None)) Mixed_subscriptions) (\<lambda>_.
     bindE (ensure_handler_signature params) (\<lambda>wants. Inr (app\<lparr>app_raw := Some (fn, wants)\<rparr>)))"

definition app_resolve :: "event_ctx \<Rightarrow> fresh \<Rightarrow> 'b app \<Rightarrow> app_error + string list \<times> 'b handler" where
  "app_resolve ctx fresh app =
     (case app_raw app of
        Some (fn, wants) \<Rightarrow> Inr ([ALL_EVENTS_SUBJECT], make_raw_handler ctx fresh fn wants (app_name app))
      | None \<Rightarrow>
          (if app_handlers app = [] then Inl Missing_handler
           else Inr (map fst (app_handlers app),
                     make_router (map (\<lambda>(s, sub). (s, make_event_handler ctx fresh sub (app_name app))) (app_handlers app)))))"

datatype 'b registration = On body "string option" "'b callback" nat | On_any "'b raw_callback" nat

fun register :: "'b registration \<Rightarrow> 'b app \<Rightarrow> app_error + 'b app" where
  "register (On b c fn n) app = app_on b c fn n app"
| "register (On_any fn n) app = app_on_any fn n app"

subsection \<open>Registration keeps handlers apart\<close>

definition app_inv :: "'b app \<Rightarrow> bool" where
  "app_inv app \<longleftrightarrow>
     distinct (map fst (app_handlers app)) \<and> (app_raw app \<noteq> None \<longrightarrow> app_handlers app = [])
     \<and> list_all (\<lambda>(s, sub). sub_subject sub = s \<and> ensure_registered (sub_body sub) = Inr s) (app_handlers app)
     \<and> fst ` set (app_consumers app) \<subseteq> fst ` set (app_handlers app)
     \<and> distinct (map fst (app_consumers app))"

lemma register_inv:
  assumes "app_inv app" and "register r app = Inr app'"
  shows "app_inv app'"
proof (cases r)
  case (On b c fn n)
  with assms(2) obtain s wants where new: "s \<notin> fst ` set (app_handlers app)" and reg: "ensure_registered b = Inr s"
    and raw: "app_raw app = None"
    and app': "app' = app\<lparr>app_handlers := app_handlers app @
        [(s, \<lparr>sub_subject = s, sub_body = b, sub_fn = fn, sub_wants_ctx = wants\<rparr>)],
        app_consumers := (case c of None \<Rightarrow> app_consumers app | Some c \<Rightarrow> dset (app_consumers app) s c)\<rparr>"
    by (cases "app_raw app") (auto simp: app_on_def ensure_unique_handler_def dset_new)
  show ?thesis
    using assms(1) new reg raw unfolding app'
    by (cases c) (auto simp: app_inv_def dset_keys distinct_dset)
next
  case (On_any fn n)
  with assms show ?thesis by (auto simp: app_on_any_def app_inv_def)
qed

lemma registered_inv:
  assumes "foldE register rs (new_app n) = Inr app"
  shows "app_inv app"
proof -
  have "app_inv (new_app n)" by (simp add: new_app_def app_inv_def)
  from foldE_invariant [where P = app_inv, OF assms this] show ?thesis using register_inv by blast
qed


subsection \<open>Properties\<close>


lemma subject_of_registered:
  assumes "typed_body b x" and "ensure_registered b = Inr s"
  shows "subject_of x = Some s"
  using assms by (cases b; cases x) (auto simp: subject_of_def ensure_registered_def split: option.splits)

lemma collect_from_nth:
  assumes "collect_from ctx fresh i src evt xs = Inr evts"
  shows "length evts = length xs \<and> (\<forall>j < length xs. \<exists>s. subject_of (xs ! j) = Some s
    \<and> evts ! j = new_event ctx (fst (fresh (i + j))) (snd (fresh (i + j))) (JStr s) (JStr src) (to_body (xs ! j))
        (correlation_id evt) (event_id evt) (workspace_id evt))"
  using assms
proof (induction xs arbitrary: i evts)
  case (Cons x xs)
  then obtain s rest where s: "subject_of x = Some s" and rest: "collect_from ctx fresh (Suc i) src evt xs = Inr rest"
    and evts: "evts = new_event ctx (fst (fresh i)) (snd (fresh i)) (JStr s) (JStr src) (to_body x)
        (correlation_id evt) (event_id evt) (workspace_id evt) # rest"
    by (auto split: option.splits)
  from Cons.IH [OF rest] s evts show ?case by (auto simp: less_Suc_eq_0_disj)
qed simp

definition no_ctx :: event_ctx where
  "no_ctx = \<lparr>current_workspace = None, pending_workspace = None, current_causation = JNull\<rparr>"

definition sample_fresh :: fresh where
  "sample_fresh i = (''u'' @ nat_digits i, ''t'')"

definition echo :: "unit callback" where
  "echo x info data = Inr (Returned_one x, data)"

definition sample_agent :: bval where
  "sample_agent = VObj ''AgentConnectedBody''
     [(''cluster_id'', ''cluster_id'', VJson (JStr ''c'')), (''agent_id'', ''agent_id'', VJson (JStr ''a'')),
      (''capabilities'', ''capabilities'', VList []), (''workspace_id'', ''workspace_id'', VJson (JStr ''w''))]"

definition sample_sub :: "unit subscription" where
  "sample_sub = \<lparr>sub_subject = ''agent.connected'', sub_body = AgentConnectedBody, sub_fn = echo, sub_wants_ctx = False\<rparr>"

lemma agent_registered: "ensure_registered AgentConnectedBody = Inr ''agent.connected''"
  by code_simp


text \<open>
  C28. What one service yields another one gets: each body a handler yields is published under its own
  subject, caused by the handled event, within the same correlation and workspace, and the service
  subscribed to that subject calls its handler with exactly the yielded body.
\<close>

theorem yielded_body_arrives:
  assumes "collect ctx fresh src evt result = Inr evts" and "j < length (iter_results result)"
    and "typed_body b (iter_results result ! j)" and "wf_body b" and "ensure_registered b = Inr s"
    and "sub_body sub = b"
  shows "subject (evts ! j) = JStr s \<and> causation_id (evts ! j) = event_id evt
    \<and> (truthy (correlation_id evt) \<longrightarrow> correlation_id (evts ! j) = correlation_id evt)
    \<and> (\<forall>w. normalized_workspace_id (workspace_id evt) = Some w \<longrightarrow> workspace_id (evts ! j) = JStr w)
    \<and> make_event_handler ctx' fresh' sub src' (evts ! j) data
        = run_callback ctx' fresh' src' (evts ! j)
            (sub_fn sub (iter_results result ! j) (if sub_wants_ctx sub then Some (info_of (evts ! j)) else None) data)"
proof -
  let ?x = "iter_results result ! j"
  have e: "evts ! j = new_event ctx (fst (fresh j)) (snd (fresh j)) (JStr s) (JStr src) (to_body ?x)
      (correlation_id evt) (event_id evt) (workspace_id evt)"
    using collect_from_nth [OF assms(1) [unfolded collect_def]] assms(2) subject_of_registered [OF assms(3,5)] by auto
  have "from_body False b (to_body ?x) = Inr ?x"
    using typed_decodes(3) [OF assms(4,3), of False] by (auto simp: to_body_def)
  then show ?thesis
    unfolding e using assms(6)
    by (simp add: new_event_def make_event_handler_def py_or_def json_of_option_def)
qed

theorem yielded_body_arrives_witness:
  "\<exists>evts. collect no_ctx sample_fresh ''svc'' sample_envelope (Yielded [sample_agent]) = Inr evts
    \<and> subject (evts ! 0) = JStr ''agent.connected'' \<and> causation_id (evts ! 0) = event_id sample_envelope"
proof -
  have t: "typed_body AgentConnectedBody sample_agent" by code_simp
  have w: "wf_body AgentConnectedBody" by code_simp
  have "\<exists>evts. collect no_ctx sample_fresh ''svc'' sample_envelope (Yielded [sample_agent]) = Inr evts"
    using subject_of_registered [OF t agent_registered] by (simp add: collect_def)
  then obtain evts where evts: "collect no_ctx sample_fresh ''svc'' sample_envelope (Yielded [sample_agent]) = Inr evts" ..
  have "subject (evts ! 0) = JStr ''agent.connected'' \<and> causation_id (evts ! 0) = event_id sample_envelope"
    using yielded_body_arrives [OF evts _ _ w agent_registered, of 0 sample_sub] t by (simp add: sample_sub_def)
  with evts show ?thesis by blast
qed

end
