(* ===== verification/Event_Worker.thy ===== *)
theory Event_Worker
  imports Event_Store Event_Dispatch
begin

section \<open>Processing one delivery\<close>

text \<open>
  \<^verbatim>\<open>src/src/packages/runtime/worker.py\<close> with \<^verbatim>\<open>DeadLetterSink\<close> of \<^verbatim>\<open>src/src/packages/events/bus.py\<close>.
  \<open>process\<close> takes one delivery of a message through the branches of \<^verbatim>\<open>EventProcessor.process\<close> and
  \<^verbatim>\<open>fail\<close>. What the outside decides is a record: the times, whether each transaction commits,
  what the handler returns or raises (a timeout is an exception), whether the dead letter is recorded
  and announced, and whether the broker accepts the acknowledgement. A transaction that fails leaves
  the store as it was before it. \<open>Raised\<close> is an exception that leaves \<^verbatim>\<open>process\<close>;
  \<open>consume_message\<close> is the body of the loop of \<^verbatim>\<open>consume_subject\<close>, which answers it with a nak.
\<close>

record retry_policy =
  max_attempts :: int
  retry_delay_seconds :: int
  fetch_batch_size :: int
  handler_timeout_seconds :: int
  dead_letter_timeout_seconds :: int
  max_concurrency :: int

definition default_policy :: retry_policy where
  "default_policy =
     \<lparr>max_attempts = 3, retry_delay_seconds = 2, fetch_batch_size = 1, handler_timeout_seconds = 30,
      dead_letter_timeout_seconds = 10, max_concurrency = 8\<rparr>"

record handler_spec =
  service_name :: string
  spec_subjects :: "string list"
  spec_durable_name :: "string option"
  retry_policy :: retry_policy
  spec_consumers :: "(string \<times> string) list"

definition durable_name :: "string \<Rightarrow> string option \<Rightarrow> string" where
  "durable_name service n = (case n of None \<Rightarrow> service | Some m \<Rightarrow> service @ ''-'' @ m)"

definition durable :: "handler_spec \<Rightarrow> string" where
  "durable spec = durable_name (service_name spec) (spec_durable_name spec)"

definition spec_consumer_for :: "handler_spec \<Rightarrow> string \<Rightarrow> string" where
  \<comment> \<open>\<^verbatim>\<open>dict(self.consumers).get(subject, self.service_name)\<close>: the last pair of a subject counts\<close>
  "spec_consumer_for spec subj =
     (case map_of (rev (spec_consumers spec)) subj of Some c \<Rightarrow> c | None \<Rightarrow> service_name spec)"

definition subject_slug :: "string \<Rightarrow> string" where
  "subject_slug subj =
     concat (map (\<lambda>c. if c = CHR ''.'' then ''-'' else if c = CHR ''>'' then ''all''
                      else if c = CHR ''*'' then ''any'' else [c]) subj)"

definition durable_for :: "handler_spec \<Rightarrow> string \<Rightarrow> string" where
  "durable_for spec subj =
     (case map_of (rev (spec_consumers spec)) subj of
        Some pinned \<Rightarrow> durable_name pinned (spec_durable_name spec)
      | None \<Rightarrow> if length (spec_subjects spec) \<le> 1 then durable spec
                else durable spec @ ''-'' @ subject_slug subj)"

definition validate_event_timing_contract :: "int \<Rightarrow> int \<Rightarrow> int \<Rightarrow> string + unit" where
  \<comment> \<open>handler timeout, acknowledgement window and claim freshness, in seconds\<close>
  "validate_event_timing_contract handler_timeout ack_wait stale =
     guardE (\<not> (handler_timeout < ack_wait \<and> ack_wait < stale)) ''unsafe event timing contract''"

definition positive_int_env :: "json \<Rightarrow> int \<Rightarrow> int" where
  \<comment> \<open>\<^verbatim>\<open>int(env(...))\<close> with its fallback; the variable's text is the argument\<close>
  "positive_int_env raw fallback =
     (case py_int raw of Inr v \<Rightarrow> if v > 0 then v else fallback | Inl _ \<Rightarrow> fallback)"

definition elapsed_ms :: "int \<Rightarrow> int \<Rightarrow> int" where
  \<comment> \<open>of two readings in seconds\<close>
  "elapsed_ms started now = max 0 ((now - started) * 1000)"

subsection \<open>Capturing dead letters\<close>

datatype capture_outcome = Record_failed | Emit_failed | Emitted string string

definition dead_letter_payload :: "string \<Rightarrow> dead_letter \<Rightarrow> bool \<Rightarrow> jdict" where
  \<comment> \<open>what \<^verbatim>\<open>record_dead_letter\<close> returns; only the raw variant carries the payload\<close>
  "dead_letter_payload created d raw =
     [(''dead_letter_id'', JInt (int (dl_id d))), (''original_event_id'', dl_event_id d),
      (''original_subject'', dl_subject d), (''consumer'', JStr (dl_consumer d)),
      (''correlation_id'', dl_correlation_id d), (''attempts'', JInt (dl_attempts d)),
      (''error'', JStr (dl_error d)), (''created_at'', JStr created), (''status'', JStr ''open'')]
     @ (if raw then [(''payload'', dl_payload d)] else [])"

definition announce_dead_letter ::
  "capture_outcome \<Rightarrow> event_ctx \<Rightarrow> string \<Rightarrow> string \<Rightarrow> bool \<Rightarrow> json \<Rightarrow> json \<Rightarrow> 'b store \<Rightarrow> bool \<times> 'b store" where
  \<comment> \<open>decode the recorded row as a body, emit it and record the emitted event\<close>
  "announce_dead_letter outcome ctx src created raw correlation causation s =
     (case from_body True DeadLetterCreatedBody (dead_letter_payload created (last (st_dead_letters s)) raw) of
        Inl _ \<Rightarrow> (False, s)
      | Inr body \<Rightarrow>
          (case outcome of
             Emitted uuid now \<Rightarrow>
               (True, record_event (recorded_emit ctx uuid now (JStr ''dead_letter.created'') (JStr src)
                        (to_body body) correlation causation) s)
           | _ \<Rightarrow> (False, s)))"

definition capture ::
  "capture_outcome \<Rightarrow> int \<Rightarrow> event_ctx \<Rightarrow> string \<Rightarrow> string \<Rightarrow> envelope \<Rightarrow> string \<Rightarrow> string \<Rightarrow> int \<Rightarrow> 'b store \<Rightarrow> bool \<times> 'b store" where
  "capture outcome now ctx src created evt consumer err attempts s =
     (if outcome = Record_failed then (False, s)
      else fst (event_workspace (workspace_id evt)
        (\<lambda>ctx. (announce_dead_letter outcome ctx src created False (correlation_id evt) (event_id evt)
                  (record_dead_letter now evt consumer err attempts s), ctx)) ctx))"

definition capture_raw ::
  "capture_outcome \<Rightarrow> int \<Rightarrow> event_ctx \<Rightarrow> string \<Rightarrow> string \<Rightarrow> string \<Rightarrow> string \<Rightarrow> string \<Rightarrow> string \<Rightarrow> 'b store \<Rightarrow> bool \<times> 'b store" where
  "capture_raw outcome now ctx src created uuid raw consumer err s =
     (if outcome = Record_failed then (False, s)
      else announce_dead_letter outcome ctx src created True (JStr (''decode-failure:'' @ uuid))
             (JStr (''decode-failure:'' @ uuid)) (record_raw_dead_letter now uuid raw consumer err s))"

subsection \<open>The processor\<close>

datatype settle = Ack | Nak int | Raised

record 'b delivery =
  dv_raw :: string
  dv_claim_at :: int
  dv_claim_ok :: bool
  dv_handler :: "envelope \<Rightarrow> 'b \<Rightarrow> string + envelope list \<times> 'b"
  dv_commit :: "string option"
    \<comment> \<open>the error of the second transaction, if it does not commit\<close>
  dv_done_at :: int
  dv_capture :: capture_outcome
  dv_created :: string
  dv_uuid :: string
  dv_ctx :: event_ctx
  dv_close_ok :: bool
  dv_settle_ok :: bool

definition consumer_for :: "handler_spec \<Rightarrow> envelope \<Rightarrow> string option" where
  \<comment> \<open>\<^verbatim>\<open>self.consumers.get(evt.subject, ...)\<close>; a subject that is not hashable raises\<close>
  "consumer_for spec evt =
     (case subject evt of
        JStr s \<Rightarrow> Some (spec_consumer_for spec s)
      | JList _ \<Rightarrow> None
      | JDict _ \<Rightarrow> None
      | _ \<Rightarrow> Some (service_name spec))"

definition answer :: "'b delivery \<Rightarrow> settle \<Rightarrow> settle" where
  "answer d x = (if dv_settle_ok d then x else Raised)"

definition fail ::
  "handler_spec \<Rightarrow> 'b delivery \<Rightarrow> envelope \<Rightarrow> string \<Rightarrow> string \<Rightarrow> int \<Rightarrow> 'b store \<Rightarrow> settle \<times> 'b store" where
  "fail spec d evt consumer err attempts s =
     (let duration = Some (elapsed_ms (dv_claim_at d) (dv_done_at d));
          delay = Nak (retry_delay_seconds (retry_policy spec)) in
      if attempts \<ge> max_attempts (retry_policy spec) then
        (case capture (dv_capture d) (dv_done_at d) (dv_ctx d) (service_name spec) (dv_created d) evt consumer err attempts s of
           (captured, s1) \<Rightarrow>
             (if \<not> dv_close_ok d then (Raised, s1)
              else if captured then (answer d Ack, ledger_dead_letter (dv_done_at d) consumer evt err duration s1)
              else (answer d delay, ledger_retry (dv_done_at d) consumer evt err duration s1)))
      else if \<not> dv_close_ok d then (Raised, s)
      else (answer d delay, ledger_retry (dv_done_at d) consumer evt err duration s))"

definition handle_claimed ::
  "handler_spec \<Rightarrow> 'b delivery \<Rightarrow> envelope \<Rightarrow> string \<Rightarrow> int \<Rightarrow> 'b store \<Rightarrow> settle \<times> 'b store" where
  "handle_claimed spec d evt consumer attempts s =
     (case dv_handler d evt (st_business s) of
        Inl err \<Rightarrow> fail spec d evt consumer err attempts s
      | Inr (evts, b) \<Rightarrow>
          (case dv_commit d of
             Some err \<Rightarrow> fail spec d evt consumer err attempts s
           | None \<Rightarrow>
               (answer d Ack,
                ledger_finish (dv_done_at d) consumer evt (Some (elapsed_ms (dv_claim_at d) (dv_done_at d)))
                  (stage_events evts (s\<lparr>st_business := b\<rparr>)))))"

definition process ::
  "int \<Rightarrow> handler_spec \<Rightarrow> (string \<Rightarrow> string + envelope) \<Rightarrow> 'b delivery \<Rightarrow> 'b store \<Rightarrow> settle \<times> 'b store" where
  "process stale spec decode d s =
     (case decode (dv_raw d) of
        Inl err \<Rightarrow>
          (case capture_raw (dv_capture d) (dv_done_at d) (dv_ctx d) (service_name spec) (dv_created d) (dv_uuid d) (dv_raw d)
                  (service_name spec) err s of
             (captured, s1) \<Rightarrow>
               (answer d (if captured then Ack else Nak (retry_delay_seconds (retry_policy spec))), s1))
      | Inr evt \<Rightarrow>
          (case consumer_for spec evt of
             None \<Rightarrow> (Raised, s)
           | Some consumer \<Rightarrow>
               (if \<not> dv_claim_ok d then (Raised, s)
                else case ledger_begin stale (dv_claim_at d) consumer evt s of
                  (r, s1) \<Rightarrow>
                    (if rec_status r \<in> Stored ` set TERMINAL_STATUSES then (answer d Ack, s1)
                     else if rec_status r \<noteq> Stored PROCESSING
                       then (answer d (Nak (retry_delay_seconds (retry_policy spec))), s1)
                     else handle_claimed spec d evt consumer (rec_attempts r) s1))))"

definition json_codec :: "(string \<Rightarrow> json option) \<Rightarrow> string \<Rightarrow> string + envelope" where
  \<comment> \<open>\<^verbatim>\<open>JsonCodec.decode\<close>; the JSON reader is an argument, error texts are not modelled\<close>
  "json_codec loads raw =
     (case loads raw of
        Some (JDict d) \<Rightarrow> (case from_mapping d of Inr evt \<Rightarrow> Inr evt | Inl _ \<Rightarrow> Inl ''TypeError'')
      | Some _ \<Rightarrow> Inl ''AttributeError''
      | None \<Rightarrow> Inl ''JSONDecodeError'')"

definition consume_message ::
  "int \<Rightarrow> handler_spec \<Rightarrow> (string \<Rightarrow> string + envelope) \<Rightarrow> bool \<Rightarrow> 'b delivery \<Rightarrow> 'b store \<Rightarrow> settle \<times> 'b store" where
  "consume_message stale spec decode stopping d s =
     (if stopping then (Nak (retry_delay_seconds (retry_policy spec)), s)
      else case process stale spec decode d s of
             (Raised, s') \<Rightarrow> (Nak (retry_delay_seconds (retry_policy spec)), s')
           | (r, s') \<Rightarrow> (r, s'))"

fun consume_batch ::
  "int \<Rightarrow> handler_spec \<Rightarrow> (string \<Rightarrow> string + envelope) \<Rightarrow> (nat \<Rightarrow> bool) \<Rightarrow> nat \<Rightarrow> 'b delivery list \<Rightarrow> 'b store
     \<Rightarrow> settle list \<times> 'b store" where
  \<comment> \<open>the messages of one fetch; \<open>stopping i\<close> is the flag when the \<open>i\<close>th one is looked at\<close>
  "consume_batch stale spec decode stopping i [] s = ([], s)"
| "consume_batch stale spec decode stopping i (d # ds) s =
     (case consume_message stale spec decode (stopping i) d s of
        (r, s1) \<Rightarrow> (case consume_batch stale spec decode stopping (Suc i) ds s1 of (rs, s2) \<Rightarrow> (r # rs, s2)))"

subsection \<open>What each step changes\<close>

lemma record_event_frame [simp]:
  "st_processing (record_event evt s) = st_processing s" "st_outbox (record_event evt s) = st_outbox s"
  "st_business (record_event evt s) = st_business s" "st_dead_letters (record_event evt s) = st_dead_letters s"
  by (simp_all add: record_event_def split: option.splits)

lemma announce_frame [simp]:
  "st_processing (snd (announce_dead_letter oc ctx src cr raw co ca s)) = st_processing s"
  "st_outbox (snd (announce_dead_letter oc ctx src cr raw co ca s)) = st_outbox s"
  "st_business (snd (announce_dead_letter oc ctx src cr raw co ca s)) = st_business s"
  "st_dead_letters (snd (announce_dead_letter oc ctx src cr raw co ca s)) = st_dead_letters s"
  by (simp_all add: announce_dead_letter_def split: sum.splits capture_outcome.splits)

lemma insert_dead_letter_frame [simp]:
  "st_processing (insert_dead_letter now e su c co a er b s) = st_processing s"
  "st_outbox (insert_dead_letter now e su c co a er b s) = st_outbox s"
  "st_business (insert_dead_letter now e su c co a er b s) = st_business s"
  by (simp_all add: insert_dead_letter_def)

lemma event_workspace_fst: "fst (event_workspace w (\<lambda>ctx. (f ctx, ctx)) ctx) = f (set_event_workspace w ctx)"
  by (simp add: event_workspace_def set_event_workspace_def)

lemma capture_frame [simp]:
  "st_processing (snd (capture oc now ctx src cr evt c err a s)) = st_processing s"
  "st_outbox (snd (capture oc now ctx src cr evt c err a s)) = st_outbox s"
  "st_business (snd (capture oc now ctx src cr evt c err a s)) = st_business s"
  by (simp_all add: capture_def event_workspace_fst record_dead_letter_def)

lemma capture_raw_frame [simp]:
  "st_processing (snd (capture_raw oc now ctx src cr u raw c err s)) = st_processing s"
  "st_outbox (snd (capture_raw oc now ctx src cr u raw c err s)) = st_outbox s"
  "st_business (snd (capture_raw oc now ctx src cr u raw c err s)) = st_business s"
  by (simp_all add: capture_raw_def record_raw_dead_letter_def)

lemma capture_letter:
  assumes "fst (capture oc now ctx src cr evt c err a s)"
  shows "\<exists>d. st_dead_letters (snd (capture oc now ctx src cr evt c err a s)) = st_dead_letters s @ [d]
    \<and> dl_event_id d = event_id evt \<and> dl_consumer d = c \<and> dl_attempts d = a \<and> dl_payload d = payload evt
    \<and> dl_status d = DEAD_LETTER_OPEN"
  using assms by (auto simp: capture_def event_workspace_fst record_dead_letter_def insert_dead_letter_def split: if_splits)

lemma capture_raw_letter:
  assumes "fst (capture_raw oc now ctx src cr u raw c err s)"
  shows "\<exists>d. st_dead_letters (snd (capture_raw oc now ctx src cr u raw c err s)) = st_dead_letters s @ [d]
    \<and> dl_payload d = JDict [(''raw'', JStr raw)] \<and> dl_status d = DEAD_LETTER_OPEN"
  using assms by (auto simp: capture_raw_def record_raw_dead_letter_def insert_dead_letter_def split: if_splits)

lemma update_processing_frame [simp]:
  "st_outbox (update_processing k f s) = st_outbox s" "st_business (update_processing k f s) = st_business s"
  "st_dead_letters (update_processing k f s) = st_dead_letters s"
  by (simp_all add: update_processing_def split: option.splits)

lemma update_processing_row:
  "st_processing (update_processing k f s) = (st_processing s)(k := map_option f (st_processing s k))"
  by (auto simp: update_processing_def fun_eq_iff split: option.splits)

lemma write_duration_keeps [simp]:
  "pr_status (write_duration d r) = pr_status r" "pr_attempts (write_duration d r) = pr_attempts r"
  "pr_updated_at (write_duration d r) = pr_updated_at r"
  by (simp_all add: write_duration_def split: option.splits)

lemmas closing_defs = ledger_finish_def ledger_retry_def ledger_dead_letter_def finish_event_processing_def
  fail_event_processing_def

lemma closing_frame [simp]:
  "st_outbox (ledger_finish now c e d s) = st_outbox s" "st_business (ledger_finish now c e d s) = st_business s"
  "st_dead_letters (ledger_finish now c e d s) = st_dead_letters s"
  "st_outbox (ledger_retry now c e er d s) = st_outbox s" "st_business (ledger_retry now c e er d s) = st_business s"
  "st_dead_letters (ledger_retry now c e er d s) = st_dead_letters s"
  "st_outbox (ledger_dead_letter now c e er d s) = st_outbox s" "st_business (ledger_dead_letter now c e er d s) = st_business s"
  "st_dead_letters (ledger_dead_letter now c e er d s) = st_dead_letters s"
  by (simp_all add: closing_defs)

definition view :: "'b store \<Rightarrow> event_key \<Rightarrow> (processing_status \<times> int) option" where
  \<comment> \<open>what later claims depend on, apart from the time\<close>
  "view s k = map_option (\<lambda>r. (pr_status r, pr_attempts r)) (st_processing s k)"

lemma closing_view:
  "view (ledger_finish now c e d s) k = (if k = (event_id e, c) then map_option (\<lambda>(_, n). (PROCESSED, n)) (view s k) else view s k)"
  "view (ledger_retry now c e er d s) k = (if k = (event_id e, c) then map_option (\<lambda>(_, n). (RETRYING, n)) (view s k) else view s k)"
  "view (ledger_dead_letter now c e er d s) k = (if k = (event_id e, c) then map_option (\<lambda>(_, n). (DEAD_LETTERED, n)) (view s k) else view s k)"
  by (auto simp: view_def closing_defs update_processing_row option.map_comp o_def)

lemma view_frame [simp]:
  "view (record_event evt s) = view s" "view (stage_events evts s) = view s" "view (s\<lparr>st_business := b\<rparr>) = view s"
  "view (s\<lparr>st_outbox := ob\<rparr>) = view s"
  "view (snd (capture oc now ctx src cr evt c err a s)) = view s"
  "view (snd (capture_raw oc now ctx src cr u raw c err s)) = view s"
  by (auto simp: view_def fun_eq_iff stage_events_def)

lemma ledger_begin_frame:
  assumes "ledger_begin stale now c evt s = (r, s1)"
  shows "st_outbox s1 = st_outbox s" "st_business s1 = st_business s" "st_dead_letters s1 = st_dead_letters s"
    "k \<noteq> (event_id evt, c) \<Longrightarrow> view s1 k = view s k"
  using assms
  by (auto simp: ledger_begin_def begin_event_processing_def claim_event_processing_def get_event_processing_def view_def
      split: option.splits prod.splits if_splits)

lemma ledger_begin_view:
  assumes "ledger_begin stale now c evt s = (r, s1)"
  shows "rec_status r = Stored PROCESSING
      \<and> (case view s (event_id evt, c) of None \<Rightarrow> rec_attempts r = 1
          | Some (st, n) \<Rightarrow> st \<notin> set TERMINAL_STATUSES \<and> rec_attempts r = n + 1)
      \<and> view s1 (event_id evt, c) = Some (PROCESSING, rec_attempts r)
    \<or> (\<exists>st n. view s (event_id evt, c) = Some (st, n) \<and> st \<in> insert PROCESSING (set TERMINAL_STATUSES)
        \<and> rec_status r = (if st = PROCESSING then CLAIM_BLOCKED else Stored st) \<and> rec_attempts r = n
        \<and> s1 = record_event evt s)"
proof (cases "st_processing s (event_id evt, c)")
  case None
  with assms show ?thesis
    by (auto simp: ledger_begin_def begin_event_processing_def claim_event_processing_def view_def)
next
  case (Some row)
  with assms show ?thesis
    by (cases "claimable stale now row")
      (auto simp: ledger_begin_def begin_event_processing_def claim_event_processing_def get_event_processing_def
        view_def claimable_def split: if_splits)
qed

lemma ledger_begin_retryable:
  assumes "ledger_begin stale now c evt s = (r, s1)" and "view s (event_id evt, c) = None \<or> (\<exists>n. view s (event_id evt, c) = Some (RETRYING, n))"
  shows "rec_status r = Stored PROCESSING"
  using ledger_begin_view [OF assms(1)] assms(2) by (auto simp: TERMINAL_STATUSES_def)

subsection \<open>Outcomes of a delivery\<close>

lemma answer_Ack [simp]: "answer d x = Ack \<longleftrightarrow> dv_settle_ok d \<and> x = Ack" "Ack = answer d x \<longleftrightarrow> dv_settle_ok d \<and> x = Ack"
  by (auto simp: answer_def)

lemma fail_outcome:
  assumes "fail spec d evt c err n s = (r, s')" and "view s (event_id evt, c) = Some (PROCESSING, n)"
  shows "st_business s' = st_business s \<and> st_outbox s' = st_outbox s
    \<and> (\<forall>k. k \<noteq> (event_id evt, c) \<longrightarrow> view s' k = view s k)
    \<and> (view s' (event_id evt, c) = Some (DEAD_LETTERED, n) \<and> n \<ge> max_attempts (retry_policy spec)
         \<and> (\<exists>l. st_dead_letters s' = st_dead_letters s @ [l] \<and> dl_event_id l = event_id evt \<and> dl_consumer l = c
               \<and> dl_attempts l = n \<and> dl_payload l = payload evt \<and> dl_status l = DEAD_LETTER_OPEN)
       \<or> view s' (event_id evt, c) = Some (RETRYING, n) \<and> r \<noteq> Ack
       \<or> view s' (event_id evt, c) = Some (PROCESSING, n) \<and> r = Raised)"
proof (cases "n \<ge> max_attempts (retry_policy spec)")
  case True
  let ?cap = "capture (dv_capture d) (dv_done_at d) (dv_ctx d) (service_name spec) (dv_created d) evt c err n s"
  obtain ok s1 where cap: "?cap = (ok, s1)" by (cases ?cap)
  have fr: "st_business s1 = st_business s" "st_outbox s1 = st_outbox s" "view s1 = view s"
    using capture_frame [of "dv_capture d" "dv_done_at d" "dv_ctx d" "service_name spec" "dv_created d" evt c err n s]
      view_frame(5) [of "dv_capture d" "dv_done_at d" "dv_ctx d" "service_name spec" "dv_created d" evt c err n s] cap
    by auto
  have letter: "ok \<Longrightarrow> \<exists>l. st_dead_letters s1 = st_dead_letters s @ [l] \<and> dl_event_id l = event_id evt \<and> dl_consumer l = c
      \<and> dl_attempts l = n \<and> dl_payload l = payload evt \<and> dl_status l = DEAD_LETTER_OPEN"
    using capture_letter [of "dv_capture d" "dv_done_at d" "dv_ctx d" "service_name spec" "dv_created d" evt c err n s] cap
    by auto
  from assms True cap fr show ?thesis
    by (cases ok; cases "dv_close_ok d") (use letter in \<open>auto simp: fail_def Let_def closing_view\<close>)
next
  case False
  with assms show ?thesis
    by (cases "dv_close_ok d") (auto simp: fail_def Let_def closing_view)
qed

definition applied :: "'b delivery \<Rightarrow> envelope \<Rightarrow> string \<Rightarrow> 'b store \<Rightarrow> 'b store \<Rightarrow> bool" where
  \<comment> \<open>the handler's effect, its events and the closing of the row, all together\<close>
  "applied d evt c s s' \<longleftrightarrow>
     (\<exists>evts b. dv_handler d evt (st_business s) = Inr (evts, b) \<and> dv_commit d = None
       \<and> st_business s' = b \<and> st_outbox s' = foldl stage_event (st_outbox s) evts
       \<and> st_dead_letters s' = st_dead_letters s \<and> (\<exists>n. view s' (event_id evt, c) = Some (PROCESSED, n)))"

lemma handle_claimed_outcome:
  assumes "handle_claimed spec d evt c n s = (r, s')" and "view s (event_id evt, c) = Some (PROCESSING, n)"
  shows "(\<forall>k. k \<noteq> (event_id evt, c) \<longrightarrow> view s' k = view s k)
    \<and> (applied d evt c s s' \<and> view s' (event_id evt, c) = Some (PROCESSED, n)
       \<or> st_business s' = st_business s \<and> st_outbox s' = st_outbox s
         \<and> (view s' (event_id evt, c) = Some (DEAD_LETTERED, n) \<and> n \<ge> max_attempts (retry_policy spec)
            \<and> (\<exists>l. st_dead_letters s' = st_dead_letters s @ [l] \<and> dl_event_id l = event_id evt \<and> dl_consumer l = c
                  \<and> dl_attempts l = n \<and> dl_payload l = payload evt \<and> dl_status l = DEAD_LETTER_OPEN)
          \<or> view s' (event_id evt, c) = Some (RETRYING, n) \<and> r \<noteq> Ack
          \<or> view s' (event_id evt, c) = Some (PROCESSING, n) \<and> r = Raised))"
proof (cases "\<exists>evts b. dv_handler d evt (st_business s) = Inr (evts, b) \<and> dv_commit d = None")
  case True
  then obtain evts b where h: "dv_handler d evt (st_business s) = Inr (evts, b)" "dv_commit d = None" by blast
  with assms(1) have s': "s' = ledger_finish (dv_done_at d) c evt (Some (elapsed_ms (dv_claim_at d) (dv_done_at d)))
      (stage_events evts (s\<lparr>st_business := b\<rparr>))" by (auto simp: handle_claimed_def)
  have v: "view s' k = (if k = (event_id evt, c) then Some (PROCESSED, n) else view s k)" for k
    using assms(2) unfolding s' by (simp add: closing_view)
  moreover have "applied d evt c s s'"
    using h v unfolding applied_def by (simp add: s' stage_events_def)
  ultimately show ?thesis by simp
next
  case False
  then obtain err where "handle_claimed spec d evt c n s = fail spec d evt c err n s"
    by (cases "dv_handler d evt (st_business s)"; cases "dv_commit d") (auto simp: handle_claimed_def)
  with assms(1) have "fail spec d evt c err n s = (r, s')" by simp
  from fail_outcome [OF this assms(2)] show ?thesis by blast
qed

definition tries :: "'b store \<Rightarrow> event_key \<Rightarrow> int" where
  "tries s k = (case view s k of None \<Rightarrow> 0 | Some (_, n) \<Rightarrow> n)"

definition settled_row :: "'b store \<Rightarrow> event_key \<Rightarrow> bool" where
  "settled_row s k = (case view s k of Some (st, _) \<Rightarrow> st \<in> set TERMINAL_STATUSES | None \<Rightarrow> False)"

definition same_data :: "'b store \<Rightarrow> 'b store \<Rightarrow> bool" where
  "same_data s s' \<longleftrightarrow> st_business s' = st_business s \<and> st_outbox s' = st_outbox s"

definition buried :: "handler_spec \<Rightarrow> envelope \<Rightarrow> string \<Rightarrow> 'b store \<Rightarrow> 'b store \<Rightarrow> bool" where
  \<comment> \<open>the attempts are used up and one open dead letter with the event's payload has been added\<close>
  "buried spec evt c s s' \<longleftrightarrow>
     view s' (event_id evt, c) = Some (DEAD_LETTERED, tries s (event_id evt, c) + 1)
     \<and> tries s (event_id evt, c) + 1 \<ge> max_attempts (retry_policy spec)
     \<and> (\<exists>l. st_dead_letters s' = st_dead_letters s @ [l] \<and> dl_event_id l = event_id evt \<and> dl_consumer l = c
           \<and> dl_attempts l = tries s (event_id evt, c) + 1 \<and> dl_payload l = payload evt \<and> dl_status l = DEAD_LETTER_OPEN)"

lemma process_outcome:
  assumes "process stale spec decode d s = (r, s')" and "decode (dv_raw d) = Inr evt" and "consumer_for spec evt = Some c"
  shows "(\<forall>k. k \<noteq> (event_id evt, c) \<longrightarrow> view s' k = view s k)
    \<and> (view s' = view s \<and> same_data s s' \<and> st_dead_letters s' = st_dead_letters s \<and> (r = Ack \<longrightarrow> settled_row s (event_id evt, c))
       \<or> \<not> settled_row s (event_id evt, c)
         \<and> (applied d evt c s s' \<and> view s' (event_id evt, c) = Some (PROCESSED, tries s (event_id evt, c) + 1)
            \<or> same_data s s'
              \<and> (buried spec evt c s s'
                 \<or> view s' (event_id evt, c) = Some (RETRYING, tries s (event_id evt, c) + 1) \<and> r \<noteq> Ack
                 \<or> view s' (event_id evt, c) = Some (PROCESSING, tries s (event_id evt, c) + 1) \<and> r = Raised)))"
proof (cases "dv_claim_ok d")
  case False
  with assms show ?thesis by (auto simp: process_def same_data_def)
next
  case True
  let ?k = "(event_id evt, c)"
  obtain b s1 where beg: "ledger_begin stale (dv_claim_at d) c evt s = (b, s1)" by fastforce
  note fr = ledger_begin_frame [OF beg]
  have p: "process stale spec decode d s =
      (if rec_status b \<in> Stored ` set TERMINAL_STATUSES then (answer d Ack, s1)
       else if rec_status b \<noteq> Stored PROCESSING then (answer d (Nak (retry_delay_seconds (retry_policy spec))), s1)
       else handle_claimed spec d evt c (rec_attempts b) s1)"
    using assms(2,3) True beg by (simp add: process_def)
  from ledger_begin_view [OF beg] show ?thesis
  proof
    assume g: "rec_status b = Stored PROCESSING
      \<and> (case view s ?k of None \<Rightarrow> rec_attempts b = 1 | Some (st, n) \<Rightarrow> st \<notin> set TERMINAL_STATUSES \<and> rec_attempts b = n + 1)
      \<and> view s1 ?k = Some (PROCESSING, rec_attempts b)"
    then have n: "rec_attempts b = tries s ?k + 1" and ns: "\<not> settled_row s ?k"
      by (auto simp: tries_def settled_row_def split: option.splits)
    have h: "handle_claimed spec d evt c (rec_attempts b) s1 = (r, s')"
      using assms(1) p g by (auto simp: TERMINAL_STATUSES_def split: if_splits)
    have ap: "applied d evt c s1 s' = applied d evt c s s'" using fr by (simp add: applied_def)
    from g have v1: "view s1 ?k = Some (PROCESSING, rec_attempts b)" by simp
    note out = handle_claimed_outcome [OF h v1, unfolded n fr(1-3) ap]
    have other: "\<forall>k. k \<noteq> ?k \<longrightarrow> view s' k = view s k" using conjunct1 [OF out] fr(4) by simp
    show ?thesis
      by (rule conjI [OF other], rule disjI2, rule conjI [OF ns])
        (use conjunct2 [OF out] in \<open>simp only: same_data_def buried_def conj_assoc\<close>)
  next
    assume "\<exists>st n. view s ?k = Some (st, n) \<and> st \<in> insert PROCESSING (set TERMINAL_STATUSES)
        \<and> rec_status b = (if st = PROCESSING then CLAIM_BLOCKED else Stored st) \<and> rec_attempts b = n \<and> s1 = record_event evt s"
    then obtain st n where v: "view s ?k = Some (st, n)" and st: "st \<in> insert PROCESSING (set TERMINAL_STATUSES)"
      and b: "rec_status b = (if st = PROCESSING then CLAIM_BLOCKED else Stored st)" and s1: "s1 = record_event evt s" by blast
    have "s' = s1 \<and> (r = Ack \<longrightarrow> st \<in> set TERMINAL_STATUSES)"
    proof (cases "st = PROCESSING")
      case True
      with b have "rec_status b = CLAIM_BLOCKED" "CLAIM_BLOCKED \<notin> Stored ` set TERMINAL_STATUSES" by auto
      with assms(1) p show ?thesis by auto
    next
      case False
      with b st have "rec_status b \<in> Stored ` set TERMINAL_STATUSES" "st \<in> set TERMINAL_STATUSES" by auto
      with assms(1) p show ?thesis by simp
    qed
    then have s': "s' = record_event evt s" and ack: "r = Ack \<longrightarrow> st \<in> set TERMINAL_STATUSES" using s1 by simp_all
    show ?thesis unfolding s' using ack v by (simp add: same_data_def settled_row_def)
  qed
qed

end
