(* ===== verification/Worker_Properties.thy ===== *)
theory Worker_Properties
  imports Event_Worker
begin

section \<open>What the worker guarantees\<close>

text \<open>
  Properties of \<open>consume_message\<close> over any outcome of the outside and of sequences of deliveries: an
  acknowledged message is settled, business data and outgoing events change only together with the
  row that records the event as processed, each event takes effect at most once however often it is
  delivered, and an event whose handler always fails ends as a dead letter.
\<close>

definition commit_of ::
  "int \<Rightarrow> handler_spec \<Rightarrow> (string \<Rightarrow> string + envelope) \<Rightarrow> bool \<Rightarrow> 'b delivery \<Rightarrow> 'b store
     \<Rightarrow> (event_key \<times> envelope list \<times> 'b) option" where
  \<comment> \<open>what a delivery commits: the row it closes, the events it stages and the new business data\<close>
  "commit_of stale spec decode stopping d s =
     (if stopping then None
      else case decode (dv_raw d) of
        Inl _ \<Rightarrow> None
      | Inr evt \<Rightarrow>
          (case consumer_for spec evt of
             None \<Rightarrow> None
           | Some c \<Rightarrow>
               (if dv_claim_ok d \<and> rec_status (fst (ledger_begin stale (dv_claim_at d) c evt s)) = Stored PROCESSING
                   \<and> dv_commit d = None
                then (case dv_handler d evt (st_business s) of
                        Inr (evts, b) \<Rightarrow> Some ((event_id evt, c), evts, b) | Inl _ \<Rightarrow> None)
                else None)))"

type_synonym 'b schedule = "(bool \<times> 'b delivery) list"

definition deliver :: "int \<Rightarrow> handler_spec \<Rightarrow> (string \<Rightarrow> string + envelope) \<Rightarrow> bool \<times> 'b delivery \<Rightarrow> 'b store \<Rightarrow> 'b store" where
  "deliver stale spec decode x s = snd (consume_message stale spec decode (fst x) (snd x) s)"

definition deliver_all :: "int \<Rightarrow> handler_spec \<Rightarrow> (string \<Rightarrow> string + envelope) \<Rightarrow> 'b schedule \<Rightarrow> 'b store \<Rightarrow> 'b store" where
  "deliver_all stale spec decode xs s = foldl (\<lambda>s x. deliver stale spec decode x s) s xs"

fun commit_log ::
  "int \<Rightarrow> handler_spec \<Rightarrow> (string \<Rightarrow> string + envelope) \<Rightarrow> 'b schedule \<Rightarrow> 'b store \<Rightarrow> (event_key \<times> envelope list \<times> 'b) list" where
  "commit_log stale spec decode [] s = []"
| "commit_log stale spec decode (x # xs) s =
     (case commit_of stale spec decode (fst x) (snd x) s of None \<Rightarrow> [] | Some e \<Rightarrow> [e])
     @ commit_log stale spec decode xs (deliver stale spec decode x s)"

lemma consume_store:
  "snd (consume_message stale spec decode stopping d s) = (if stopping then s else snd (process stale spec decode d s))"
  by (auto simp: consume_message_def split: prod.splits settle.splits)

lemma consume_Ack:
  "consume_message stale spec decode stopping d s = (Ack, s') \<longleftrightarrow> \<not> stopping \<and> process stale spec decode d s = (Ack, s')"
  by (auto simp: consume_message_def split: prod.splits settle.splits)

lemma process_undecoded:
  assumes "decode (dv_raw d) = Inl err" and "process stale spec decode d s = (r, s')"
  shows "view s' = view s \<and> same_data s s'
    \<and> (r = Ack \<longrightarrow> (\<exists>l. st_dead_letters s' = st_dead_letters s @ [l] \<and> dl_payload l = JDict [(''raw'', JStr (dv_raw d))]
          \<and> dl_status l = DEAD_LETTER_OPEN))"
proof -
  let ?c = "capture_raw (dv_capture d) (dv_done_at d) (dv_ctx d) (service_name spec) (dv_created d) (dv_uuid d) (dv_raw d)
      (service_name spec) err s"
  obtain ok s1 where c: "?c = (ok, s1)" by (cases ?c)
  have fr: "view s1 = view s" "st_business s1 = st_business s" "st_outbox s1 = st_outbox s"
    using view_frame(6) capture_raw_frame by (metis c snd_conv)+
  have "ok \<Longrightarrow> \<exists>l. st_dead_letters s1 = st_dead_letters s @ [l] \<and> dl_payload l = JDict [(''raw'', JStr (dv_raw d))]
      \<and> dl_status l = DEAD_LETTER_OPEN"
    using capture_raw_letter by (metis c fst_conv snd_conv)
  with assms c fr show ?thesis by (cases ok) (auto simp: process_def same_data_def)
qed

lemma process_unroutable:
  assumes "decode (dv_raw d) = Inr evt" and "consumer_for spec evt = None"
  shows "process stale spec decode d s = (Raised, s)"
  using assms by (simp add: process_def)

lemma settled_row_cong: "view s' k = view s k \<Longrightarrow> settled_row s' k = settled_row s k"
  by (simp add: settled_row_def)

lemma settled_stays:
  assumes "settled_row s k"
  shows "view (deliver stale spec decode x s) k = view s k"
proof -
  obtain r s' where p: "process stale spec decode (snd x) s = (r, s')" by fastforce
  have "view s' k = view s k"
  proof (cases "decode (dv_raw (snd x))")
    case (Inl err)
    with process_undecoded [OF Inl p] show ?thesis by simp
  next
    case (Inr evt)
    show ?thesis
    proof (cases "consumer_for spec evt")
      case None
      with Inr p show ?thesis by (simp add: process_unroutable)
    next
      case (Some c)
      note out = process_outcome [OF p Inr Some]
      show ?thesis
      proof (cases "k = (event_id evt, c)")
        case True
        with conjunct2 [OF out] assms show ?thesis by auto
      next
        case False
        with conjunct1 [OF out] show ?thesis by blast
      qed
    qed
  qed
  then show ?thesis using p by (simp add: deliver_def consume_store)
qed

lemma commit_effect:
  assumes "commit_of stale spec decode (fst x) (snd x) s = Some (k, evts, b)"
  shows "st_business (deliver stale spec decode x s) = b"
    "st_outbox (deliver stale spec decode x s) = foldl stage_event (st_outbox s) evts"
    "\<not> settled_row s k" "\<exists>n. view (deliver stale spec decode x s) k = Some (PROCESSED, n)"
proof -
  obtain stopping d where x: "x = (stopping, d)" by (cases x)
  from assms x obtain evt c where dec: "decode (dv_raw d) = Inr evt" "consumer_for spec evt = Some c" "dv_claim_ok d"
    "\<not> stopping" "dv_commit d = None" "dv_handler d evt (st_business s) = Inr (evts, b)" and k: "k = (event_id evt, c)"
    and granted: "rec_status (fst (ledger_begin stale (dv_claim_at d) c evt s)) = Stored PROCESSING"
    by (auto simp: commit_of_def split: if_splits sum.splits option.splits prod.splits)
  obtain r s1 where beg: "ledger_begin stale (dv_claim_at d) c evt s = (r, s1)" by fastforce
  note fr = ledger_begin_frame [OF beg]
  have g: "view s1 k = Some (PROCESSING, rec_attempts r) \<and> \<not> settled_row s k"
    using ledger_begin_view [OF beg] granted beg k
    by (auto simp: settled_row_def TERMINAL_STATUSES_def split: option.splits if_splits)
  have st: "deliver stale spec decode x s = ledger_finish (dv_done_at d) c evt
      (Some (elapsed_ms (dv_claim_at d) (dv_done_at d))) (stage_events evts (s1\<lparr>st_business := b\<rparr>))"
    using x dec beg granted fr
    by (simp add: deliver_def consume_store process_def handle_claimed_def TERMINAL_STATUSES_def)
  show "st_business (deliver stale spec decode x s) = b" by (simp add: st stage_events_def)
  show "st_outbox (deliver stale spec decode x s) = foldl stage_event (st_outbox s) evts"
    by (simp add: st stage_events_def fr)
  show "\<not> settled_row s k" using g by simp
  show "\<exists>n. view (deliver stale spec decode x s) k = Some (PROCESSED, n)" using g k by (simp add: st closing_view)
qed

lemma no_commit_no_effect:
  assumes "commit_of stale spec decode (fst x) (snd x) s = None"
  shows "same_data s (deliver stale spec decode x s)"
proof -
  obtain stopping d where x: "x = (stopping, d)" by (cases x)
  obtain r s' where p: "process stale spec decode d s = (r, s')" by fastforce
  have "stopping \<or> same_data s s'"
  proof (cases "decode (dv_raw d)")
    case (Inl err)
    with process_undecoded [OF Inl p] show ?thesis by simp
  next
    case (Inr evt)
    show ?thesis
    proof (cases "consumer_for spec evt")
      case None
      with Inr p show ?thesis by (simp add: process_unroutable same_data_def)
    next
      case (Some c)
      show ?thesis
      proof (rule ccontr)
        assume n: "\<not> (stopping \<or> same_data s s')"
        with process_outcome [OF p Inr Some] have ap: "applied d evt c s s'" by auto
        have "dv_claim_ok d \<and> rec_status (fst (ledger_begin stale (dv_claim_at d) c evt s)) = Stored PROCESSING"
          using p n Inr Some ledger_begin_frame [of stale "dv_claim_at d" c evt s]
          by (auto simp: process_def same_data_def split: if_splits prod.splits)
        with assms ap n Inr Some x show False by (auto simp: commit_of_def applied_def)
      qed
    qed
  qed
  then show ?thesis using p x by (auto simp: deliver_def consume_store same_data_def)
qed

lemma deliver_all_Cons: "deliver_all stale spec decode (x # xs) s = deliver_all stale spec decode xs (deliver stale spec decode x s)"
  by (simp add: deliver_all_def)

lemma settled_stays_all: "settled_row s k \<Longrightarrow> view (deliver_all stale spec decode xs s) k = view s k"
proof (induction xs arbitrary: s)
  case (Cons x xs)
  have e: "view (deliver stale spec decode x s) k = view s k" by (rule settled_stays [OF Cons.prems])
  have "settled_row (deliver stale spec decode x s) k" using settled_row_cong [OF e] Cons.prems by simp
  from Cons.IH [OF this] e show ?case by (simp add: deliver_all_Cons)
qed (simp add: deliver_all_def)

lemma commit_log_unsettled: "e \<in> set (commit_log stale spec decode xs s) \<Longrightarrow> \<not> settled_row s (fst e)"
proof (induction xs arbitrary: s)
  case (Cons x xs)
  show ?case
  proof (cases "e \<in> set (commit_log stale spec decode xs (deliver stale spec decode x s))")
    case True
    then have "\<not> settled_row (deliver stale spec decode x s) (fst e)" by (rule Cons.IH)
    with settled_row_cong [OF settled_stays [of s "fst e" stale spec decode x]] show ?thesis by blast
  next
    case False
    with Cons.prems have "commit_of stale spec decode (fst x) (snd x) s = Some e" by (auto split: option.splits)
    with commit_effect(3) [of stale spec decode x s "fst e" "fst (snd e)" "snd (snd e)"] show ?thesis by simp
  qed
qed simp

lemma processed_settled: "view s k = Some (PROCESSED, n) \<Longrightarrow> settled_row s k"
  by (simp add: settled_row_def TERMINAL_STATUSES_def)

subsection \<open>Properties\<close>

text \<open>
  C15. Each event takes effect at most once: for every sequence of deliveries of any events, with
  any repetitions, failures and crashes, no event is committed twice for the same consumer; the outbox
  holds exactly the events staged by the commits, in commit order, the business data is that of the
  last commit, and every committed event stays recorded as processed.
\<close>

theorem at_most_one_commit:
  "distinct (map fst (commit_log stale spec decode xs s))
   \<and> st_outbox (deliver_all stale spec decode xs s)
       = foldl stage_event (st_outbox s) (concat (map (\<lambda>(_, evts, _). evts) (commit_log stale spec decode xs s)))
   \<and> st_business (deliver_all stale spec decode xs s)
       = (case rev (commit_log stale spec decode xs s) of [] \<Rightarrow> st_business s | (_, _, b) # _ \<Rightarrow> b)
   \<and> list_all (\<lambda>(k, _). \<exists>n. view (deliver_all stale spec decode xs s) k = Some (PROCESSED, n)) (commit_log stale spec decode xs s)"
proof (induction xs arbitrary: s)
  case Nil
  then show ?case by (simp add: deliver_all_def)
next
  case (Cons x xs)
  let ?s = "deliver stale spec decode x s"
  show ?case
  proof (cases "commit_of stale spec decode (fst x) (snd x) s")
    case None
    from no_commit_no_effect [OF None] have "st_outbox ?s = st_outbox s" "st_business ?s = st_business s"
      by (simp_all add: same_data_def)
    with Cons.IH [of ?s] None show ?thesis by (simp add: deliver_all_Cons split: list.splits)
  next
    case (Some e)
    obtain k evts b where e: "e = (k, evts, b)" by (cases e)
    note eff = commit_effect [OF Some [unfolded e]]
    from eff(4) obtain n where n: "view ?s k = Some (PROCESSED, n)" by blast
    have "view (deliver_all stale spec decode xs ?s) k = Some (PROCESSED, n)"
      using settled_stays_all [OF processed_settled [OF n]] n by simp
    moreover have "k \<notin> fst ` set (commit_log stale spec decode xs ?s)"
      using commit_log_unsettled [of _ stale spec decode xs ?s] processed_settled [OF n] by auto
    ultimately show ?thesis
      using Cons.IH [of ?s] Some e eff(1,2) by (auto simp: deliver_all_Cons split: list.splits)
  qed
qed

text \<open>
  C16. An acknowledged message is settled: when a delivery is acknowledged, its event is recorded as
  processed or dead-lettered for the consumer, or, if it could not be decoded, one open dead letter
  with the raw message has been added; nothing is dropped.
\<close>

theorem acknowledged_is_settled:
  assumes "consume_message stale spec decode stopping d s = (Ack, s')"
  shows "case decode (dv_raw d) of
      Inr evt \<Rightarrow> \<exists>c. consumer_for spec evt = Some c \<and> settled_row s' (event_id evt, c)
    | Inl _ \<Rightarrow> \<exists>l. st_dead_letters s' = st_dead_letters s @ [l] \<and> dl_payload l = JDict [(''raw'', JStr (dv_raw d))]
                 \<and> dl_status l = DEAD_LETTER_OPEN"
proof -
  from assms have p: "process stale spec decode d s = (Ack, s')" by (simp add: consume_Ack)
  show ?thesis
  proof (cases "decode (dv_raw d)")
    case (Inl err)
    with process_undecoded [OF Inl p] show ?thesis by simp
  next
    case (Inr evt)
    with p obtain c where c: "consumer_for spec evt = Some c"
      by (cases "consumer_for spec evt") (auto simp: process_unroutable)
    from process_outcome [OF p Inr c] have "settled_row s' (event_id evt, c)"
      by (auto simp: settled_row_def buried_def TERMINAL_STATUSES_def split: option.splits)
    with Inr c show ?thesis by simp
  qed
qed

text \<open>
  C17. Giving up is never premature or silent: a delivery that turns an event's row into dead-lettered
  has used up the attempts of the retry policy, has added one open dead letter with the payload of the
  event and the number of attempts, and has left business data and outbox untouched.
\<close>

theorem dead_lettered_after_attempts:
  assumes "consume_message stale spec decode stopping d s = (r, s')" and "decode (dv_raw d) = Inr evt"
    and "consumer_for spec evt = Some c" and "view s' (event_id evt, c) = Some (DEAD_LETTERED, n)"
    and "view s (event_id evt, c) \<noteq> Some (DEAD_LETTERED, n)"
  shows "n \<ge> max_attempts (retry_policy spec) \<and> n = tries s (event_id evt, c) + 1 \<and> same_data s s'
    \<and> (\<exists>l. st_dead_letters s' = st_dead_letters s @ [l] \<and> dl_event_id l = event_id evt \<and> dl_consumer l = c
         \<and> dl_attempts l = n \<and> dl_payload l = payload evt \<and> dl_status l = DEAD_LETTER_OPEN)"
proof -
  have "\<not> stopping" using assms(1,4,5) by (auto simp: consume_message_def)
  then obtain r' where p: "process stale spec decode d s = (r', s')"
    using assms(1) consume_store [of stale spec decode stopping d s] by (metis prod.collapse snd_conv)
  have "view s' \<noteq> view s" using assms(4,5) by auto
  with process_outcome [OF p assms(2,3)] assms(4) have "same_data s s' \<and> buried spec evt c s s'" by (auto simp: applied_def)
  with assms(4) show ?thesis by (auto simp: buried_def)
qed

subsection \<open>An event that always fails\<close>

definition text_ids :: "envelope \<Rightarrow> bool" where
  "text_ids evt \<longleftrightarrow> is_str (event_id evt) \<and> is_str (subject evt) \<and> is_str (correlation_id evt)"

lemma announce_ok:
  assumes "is_str (dl_event_id l)" "is_str (dl_subject l)" "is_str (dl_correlation_id l)"
  shows "\<exists>x. from_body True DeadLetterCreatedBody (dead_letter_payload created l False) = Inr x"
  using assms
  by (auto simp: is_str_iff DeadLetterCreatedBody_def dead_letter_payload_def req_def dflt_def optional_def Let_def)

lemma capture_ok:
  assumes "text_ids evt"
  shows "fst (capture (Emitted u t) now ctx src cr evt c err n s)"
proof -
  have "\<exists>x. from_body True DeadLetterCreatedBody (dead_letter_payload cr (last (st_dead_letters (record_dead_letter now evt c err n s))) False) = Inr x"
    using assms by (intro announce_ok) (simp_all add: record_dead_letter_def insert_dead_letter_def text_ids_def)
  then show ?thesis by (auto simp: capture_def event_workspace_fst announce_dead_letter_def)
qed

definition poisoned :: "handler_spec \<Rightarrow> (string \<Rightarrow> string + envelope) \<Rightarrow> envelope \<Rightarrow> 'b delivery \<Rightarrow> bool" where
  \<comment> \<open>a delivery of the event in which everything works but the handler\<close>
  "poisoned spec decode evt d \<longleftrightarrow>
     decode (dv_raw d) = Inr evt \<and> dv_claim_ok d \<and> dv_close_ok d \<and> dv_settle_ok d
     \<and> (\<exists>u t. dv_capture d = Emitted u t) \<and> (\<forall>b. \<exists>err. dv_handler d evt b = Inl err)"

lemma poisoned_step:
  assumes "poisoned spec decode evt d" and "text_ids evt" and "consumer_for spec evt = Some c"
    and "view s (event_id evt, c) = (if n = 0 then None else Some (RETRYING, n))"
    and "consume_message stale spec decode False d s = (r, s')"
  shows "st_business s' = st_business s \<and>
    (if n + 1 \<ge> max_attempts (retry_policy spec)
     then r = Ack \<and> view s' (event_id evt, c) = Some (DEAD_LETTERED, n + 1) \<and> length (st_dead_letters s') = length (st_dead_letters s) + 1
     else r = Nak (retry_delay_seconds (retry_policy spec)) \<and> view s' (event_id evt, c) = Some (RETRYING, n + 1)
        \<and> st_dead_letters s' = st_dead_letters s)"
proof -
  from assms(1) obtain u t where d: "decode (dv_raw d) = Inr evt" "dv_claim_ok d" "dv_close_ok d" "dv_settle_ok d"
    "dv_capture d = Emitted u t" by (auto simp: poisoned_def)
  obtain b s1 where beg: "ledger_begin stale (dv_claim_at d) c evt s = (b, s1)" by fastforce
  have st: "rec_status b = Stored PROCESSING" "rec_attempts b = n + 1" "view s1 (event_id evt, c) = Some (PROCESSING, n + 1)"
    using ledger_begin_view [OF beg] assms(4) by (auto simp: TERMINAL_STATUSES_def split: if_splits)
  note fr = ledger_begin_frame [OF beg]
  obtain err where h: "dv_handler d evt (st_business s1) = Inl err" using assms(1) by (auto simp: poisoned_def)
  have p: "process stale spec decode d s = fail spec d evt c err (n + 1) s1"
    using d assms(3) beg st h by (simp add: process_def handle_claimed_def TERMINAL_STATUSES_def)
  obtain ok s2 where cap: "capture (dv_capture d) (dv_done_at d) (dv_ctx d) (service_name spec) (dv_created d) evt c err (n + 1) s1 = (ok, s2)"
    by fastforce
  have ok: "ok" "view s2 = view s1" "st_business s2 = st_business s1" "length (st_dead_letters s2) = length (st_dead_letters s1) + 1"
    using capture_ok [OF assms(2), of u t] capture_frame(3) view_frame(5) capture_letter cap d(5)
    by (metis fst_conv, metis snd_conv, metis snd_conv, metis fst_conv snd_conv length_append_singleton Suc_eq_plus1)
  show ?thesis
  proof (cases "n + 1 \<ge> max_attempts (retry_policy spec)")
    case True
    then have "fail spec d evt c err (n + 1) s1 = (Ack, ledger_dead_letter (dv_done_at d) c evt err (Some (elapsed_ms (dv_claim_at d) (dv_done_at d))) s2)"
      using d cap ok(1) by (simp add: fail_def answer_def)
    with assms(5) p True st fr ok show ?thesis by (auto simp: consume_message_def closing_view)
  next
    case False
    then have "fail spec d evt c err (n + 1) s1 = (Nak (retry_delay_seconds (retry_policy spec)),
        ledger_retry (dv_done_at d) c evt err (Some (elapsed_ms (dv_claim_at d) (dv_done_at d))) s1)"
      using d by (simp add: fail_def answer_def)
    with assms(5) p False st fr show ?thesis by (auto simp: consume_message_def closing_view)
  qed
qed

lemma poisoned_batch:
  assumes "list_all (poisoned spec decode evt) ds" and "text_ids evt" and "consumer_for spec evt = Some c"
    and "view s (event_id evt, c) = (if n = 0 then None else Some (RETRYING, n))" and "0 \<le> n"
    and "int (length ds) + n = max_attempts (retry_policy spec)" and "ds \<noteq> []"
  shows "\<exists>s'. consume_batch stale spec decode (\<lambda>_. False) i ds s
      = (replicate (length ds - 1) (Nak (retry_delay_seconds (retry_policy spec))) @ [Ack], s')
    \<and> view s' (event_id evt, c) = Some (DEAD_LETTERED, max_attempts (retry_policy spec))
    \<and> length (st_dead_letters s') = length (st_dead_letters s) + 1 \<and> st_business s' = st_business s"
  using assms
proof (induction ds arbitrary: s n i)
  case (Cons d ds)
  obtain r s1 where step: "consume_message stale spec decode False d s = (r, s1)" by fastforce
  from Cons.prems(1) have "poisoned spec decode evt d" by simp
  note out = poisoned_step [OF this Cons.prems(2,3,4) step]
  show ?case
  proof (cases "ds = []")
    case True
    with Cons.prems(6) have "n + 1 = max_attempts (retry_policy spec)" by simp
    with out step True show ?thesis by simp
  next
    case False
    then have len: "1 \<le> int (length ds)" by (cases ds) auto
    with Cons.prems(6) have m: "\<not> n + 1 \<ge> max_attempts (retry_policy spec)" by simp
    with out have r: "r = Nak (retry_delay_seconds (retry_policy spec))"
      and v: "view s1 (event_id evt, c) = (if n + 1 = 0 then None else Some (RETRYING, n + 1))"
      and same: "st_dead_letters s1 = st_dead_letters s" "st_business s1 = st_business s"
      using Cons.prems(5) by auto
    have "\<exists>s'. consume_batch stale spec decode (\<lambda>_. False) (Suc i) ds s1
      = (replicate (length ds - 1) (Nak (retry_delay_seconds (retry_policy spec))) @ [Ack], s')
      \<and> view s' (event_id evt, c) = Some (DEAD_LETTERED, max_attempts (retry_policy spec))
      \<and> length (st_dead_letters s') = length (st_dead_letters s1) + 1 \<and> st_business s' = st_business s1"
      by (rule Cons.IH [OF _ Cons.prems(2,3) v]) (use Cons.prems False in auto)
    moreover have "replicate (length ds) x = x # replicate (length ds - 1) x" for x :: settle
      using False by (cases ds) auto
    ultimately show ?thesis using r step same by auto
  qed
qed simp

text \<open>
  C18. An event whose handler always fails is given up after exactly the configured number of attempts:
  if everything else works, the deliveries before the last are sent back with the retry delay, the last
  one is acknowledged, the event's row is dead-lettered with that many attempts, exactly one dead letter
  has been added and no business data has changed.
\<close>

theorem poison_event_is_buried:
  assumes "list_all (poisoned spec decode evt) ds" and "text_ids evt" and "consumer_for spec evt = Some c"
    and "view s (event_id evt, c) = None" and "int (length ds) = max_attempts (retry_policy spec)" and "ds \<noteq> []"
  shows "\<exists>s'. consume_batch stale spec decode (\<lambda>_. False) i ds s
      = (replicate (length ds - 1) (Nak (retry_delay_seconds (retry_policy spec))) @ [Ack], s')
    \<and> view s' (event_id evt, c) = Some (DEAD_LETTERED, max_attempts (retry_policy spec))
    \<and> length (st_dead_letters s') = length (st_dead_letters s) + 1 \<and> st_business s' = st_business s"
  by (rule poisoned_batch [where n = 0]) (use assms in auto)

definition sample_spec :: handler_spec where
  "sample_spec = \<lparr>service_name = ''rca-worker'', spec_subjects = [''evidence.built''], spec_durable_name = None,
     retry_policy = default_policy, spec_consumers = []\<rparr>"

definition failing_delivery :: "unit delivery" where
  "failing_delivery = \<lparr>dv_raw = ''m'', dv_claim_at = 0, dv_claim_ok = True, dv_handler = (\<lambda>_ _. Inl ''boom''),
     dv_commit = None, dv_done_at = 1, dv_capture = Emitted ''u'' ''t'', dv_created = ''t'', dv_uuid = ''u'',
     dv_ctx = no_ctx, dv_close_ok = True, dv_settle_ok = True\<rparr>"

definition sample_decode :: "string \<Rightarrow> string + envelope" where
  "sample_decode raw = (if raw = ''m'' then Inr sample_envelope else Inl ''JSONDecodeError'')"

lemma sample_consumer: "consumer_for sample_spec sample_envelope = Some ''rca-worker''"
  by code_simp

lemma failing_poisoned: "poisoned sample_spec sample_decode sample_envelope failing_delivery"
  by (simp add: poisoned_def failing_delivery_def sample_decode_def)

theorem poison_event_is_buried_witness:
  "\<exists>s'. consume_batch 90 sample_spec sample_decode (\<lambda>_. False) 0 [failing_delivery, failing_delivery, failing_delivery]
      (empty_store ()) = ([Nak 2, Nak 2, Ack], s') \<and> length (st_dead_letters s') = 1"
proof -
  have "text_ids sample_envelope" by code_simp
  moreover have "view (empty_store ()) (event_id sample_envelope, ''rca-worker'') = None"
    by (simp add: view_def empty_store_def)
  ultimately show ?thesis
    using poison_event_is_buried [of sample_spec sample_decode sample_envelope "[failing_delivery, failing_delivery, failing_delivery]"
        "''rca-worker''" "empty_store ()" 90 0] sample_consumer failing_poisoned
    by (auto simp: sample_spec_def default_policy_def empty_store_def numeral_eq_Suc)
qed

definition retried_store :: "unit store" where
  "retried_store = (empty_store ())\<lparr>st_processing := [(JStr ''e1'', ''rca-worker'') \<mapsto>
     \<lparr>pr_status = RETRYING, pr_attempts = 2, pr_last_error = None, pr_updated_at = 0, pr_duration_ms = None\<rparr>]\<rparr>"

theorem dead_lettered_after_attempts_witness:
  "\<exists>s' n. view s' (event_id sample_envelope, ''rca-worker'') = Some (DEAD_LETTERED, n) \<and> n \<ge> 3
     \<and> same_data retried_store s'
     \<and> s' = snd (consume_message 90 sample_spec sample_decode False failing_delivery retried_store)"
proof -
  let ?k = "(event_id sample_envelope, ''rca-worker'')"
  obtain r s' where step: "consume_message 90 sample_spec sample_decode False failing_delivery retried_store = (r, s')"
    by fastforce
  have ids: "text_ids sample_envelope" by code_simp
  have v: "view retried_store ?k = (if 2 = (0 :: int) then None else Some (RETRYING, 2))"
    by (simp add: view_def retried_store_def sample_envelope_def)
  have mx: "max_attempts (retry_policy sample_spec) = 3" by (simp add: sample_spec_def default_policy_def)
  have v': "view s' ?k = Some (DEAD_LETTERED, 3)"
    using poisoned_step [OF failing_poisoned ids sample_consumer v step] mx by simp
  have dec: "sample_decode (dv_raw failing_delivery) = Inr sample_envelope"
    by (simp add: sample_decode_def failing_delivery_def)
  show ?thesis
    using dead_lettered_after_attempts [OF step dec sample_consumer v'] v v' mx step by auto
qed

theorem acknowledged_is_settled_witness:
  "\<exists>s'. consume_message 90 sample_spec sample_decode False failing_delivery retried_store = (Ack, s')
     \<and> settled_row s' (event_id sample_envelope, ''rca-worker'')"
proof -
  obtain r s' where step: "consume_message 90 sample_spec sample_decode False failing_delivery retried_store = (r, s')"
    by fastforce
  have ids: "text_ids sample_envelope" by code_simp
  have v: "view retried_store (event_id sample_envelope, ''rca-worker'') = (if 2 = (0 :: int) then None else Some (RETRYING, 2))"
    by (simp add: view_def retried_store_def sample_envelope_def)
  have "r = Ack"
    using poisoned_step [OF failing_poisoned ids sample_consumer v step] by (simp add: sample_spec_def default_policy_def)
  with step have "consume_message 90 sample_spec sample_decode False failing_delivery retried_store = (Ack, s')" by simp
  from acknowledged_is_settled [OF this] this show ?thesis
    using sample_consumer by (simp add: sample_decode_def failing_delivery_def)
qed

subsection \<open>Consumer names and the timing contract\<close>

definition plain_subject :: "string \<Rightarrow> bool" where
  "plain_subject s \<longleftrightarrow> CHR ''-'' \<notin> set s \<and> CHR ''>'' \<notin> set s \<and> CHR ''*'' \<notin> set s"

lemma slug_plain: "plain_subject s \<Longrightarrow> subject_slug s = map (\<lambda>c. if c = CHR ''.'' then CHR ''-'' else c) s"
  by (induction s) (auto simp: subject_slug_def plain_subject_def)

lemma slug_injective:
  assumes "plain_subject s" and "plain_subject t" and "subject_slug s = subject_slug t"
  shows "s = t"
proof -
  have "map (\<lambda>c. if c = CHR ''.'' then CHR ''-'' else c) s = map (\<lambda>c. if c = CHR ''.'' then CHR ''-'' else c) t"
    using assms by (simp add: slug_plain)
  then show ?thesis
    by (rule map_inj_on) (use assms(1,2) in \<open>auto simp: inj_on_def plain_subject_def\<close>)
qed

lemma catalogue_plain: "list_all plain_subject (map snd EVENT_SUBJECTS)"
  by code_simp

text \<open>
  The subscriptions of one service do not share a consumer: two different subjects of the catalogue
  that are not pinned get different durable names, so the broker delivers each of them separately.
\<close>

theorem durable_names_differ:
  assumes "s \<in> set (map snd EVENT_SUBJECTS)" and "t \<in> set (map snd EVENT_SUBJECTS)" and "s \<noteq> t"
    and "1 < length (spec_subjects spec)" and "s \<notin> fst ` set (spec_consumers spec)" and "t \<notin> fst ` set (spec_consumers spec)"
  shows "durable_for spec s \<noteq> durable_for spec t"
proof -
  have "map_of (rev (spec_consumers spec)) s = None" "map_of (rev (spec_consumers spec)) t = None"
    using assms(5,6) by (auto simp: map_of_eq_None_iff)
  moreover have "plain_subject s" "plain_subject t"
    using assms(1,2) catalogue_plain by (auto simp: list_all_iff simp del: set_map)
  with slug_injective assms(3) have "subject_slug s \<noteq> subject_slug t" by blast
  ultimately show ?thesis using assms(4) by (simp add: durable_for_def)
qed

theorem durable_names_differ_witness:
  "durable_for (sample_spec\<lparr>spec_subjects := [''git.changed'', ''rca.completed'']\<rparr>) ''git.changed''
   \<noteq> durable_for (sample_spec\<lparr>spec_subjects := [''git.changed'', ''rca.completed'']\<rparr>) ''rca.completed''"
  by (rule durable_names_differ) (simp_all add: EVENT_SUBJECTS_def sample_spec_def)

lemma wildcard_durable_collision:
  "durable_for (sample_spec\<lparr>spec_subjects := [''audit.*'', ''audit.any'']\<rparr>) ''audit.*''
   = durable_for (sample_spec\<lparr>spec_subjects := [''audit.*'', ''audit.any'']\<rparr>) ''audit.any''"
  by code_simp

lemma timing_contract_iff:
  "validate_event_timing_contract handler ack_wait stale = Inr () \<longleftrightarrow> handler < ack_wait \<and> ack_wait < stale"
  by (simp add: validate_event_timing_contract_def)

end
