(* ===== verification/Outbox_Relay.thy ===== *)
theory Outbox_Relay
  imports Event_Store
begin

section \<open>The outbox relay\<close>

text \<open>
  \<^verbatim>\<open>src/src/packages/runtime/relay.py\<close>: one round leases a batch of unsent rows, publishes them in
  order, buries those the broker can never take, and marks exactly the published ones as sent, also
  when a publication raises. What the broker answers for an event, whether the burial transaction
  commits and which rows other transactions hold locked are arguments.
\<close>

datatype publish_outcome = Published | Publish_error string string

definition NON_RETRYABLE_PUBLISH_ERRORS :: "string list" where
  "NON_RETRYABLE_PUBLISH_ERRORS = [''MaxPayloadError'']"

record relay =
  rl_source :: "string option"
  rl_batch :: nat

definition relay_consumer_name :: "relay \<Rightarrow> string" where
  "relay_consumer_name rl =
     ''outbox-relay:'' @ (case rl_source rl of Some src \<Rightarrow> if src = [] then ''all'' else src | None \<Rightarrow> ''all'')"

definition is_non_retryable :: "string \<Rightarrow> bool" where
  "is_non_retryable cls \<longleftrightarrow> cls \<in> set NON_RETRYABLE_PUBLISH_ERRORS"

record relay_round =
  rr_publish :: "envelope \<Rightarrow> publish_outcome"
  rr_bury_ok :: "envelope \<Rightarrow> bool"
  rr_now :: int
  rr_app_now :: int
  rr_lease :: string
  rr_locked :: "nat \<Rightarrow> bool"

fun relay_loop ::
  "relay \<Rightarrow> relay_round \<Rightarrow> envelope list \<Rightarrow> json list \<Rightarrow> 'b store \<Rightarrow> string option \<times> json list \<times> 'b store" where
  \<comment> \<open>the exception that ends the loop, the published identifiers, and the store\<close>
  "relay_loop rl rr [] published s = (None, published, s)"
| "relay_loop rl rr (evt # evts) published s =
     (case rr_publish rr evt of
        Published \<Rightarrow> relay_loop rl rr evts (published @ [event_id evt]) s
      | Publish_error cls msg \<Rightarrow>
          (if is_non_retryable cls then
             (if rr_bury_ok rr evt
              then relay_loop rl rr evts published (mark_events_dead_lettered (rr_now rr) [evt] (relay_consumer_name rl) msg s)
              else (Some msg, published, s))
           else (Some msg, published, s)))"

definition run_once :: "relay \<Rightarrow> relay_round \<Rightarrow> 'b store \<Rightarrow> (string + nat) \<times> 'b store" where
  "run_once rl rr s =
     (case unsent_events (rl_batch rl) (map_option JStr (rl_source rl)) (rr_lease rr) (rr_app_now rr) (rr_now rr) (rr_locked rr) s of
        (evts, s1) \<Rightarrow>
          (case relay_loop rl rr evts [] s1 of
             (exn, published, s2) \<Rightarrow>
               (case exn of None \<Rightarrow> Inr (length published) | Some e \<Rightarrow> Inl e,
                if published = [] then s2 else mark_events_sent (rr_now rr) published s2)))"

subsection \<open>Which rows a round settles\<close>

fun published_ids :: "relay_round \<Rightarrow> envelope list \<Rightarrow> json list" where
  "published_ids rr [] = []"
| "published_ids rr (evt # evts) =
     (case rr_publish rr evt of
        Published \<Rightarrow> event_id evt # published_ids rr evts
      | Publish_error cls _ \<Rightarrow> if is_non_retryable cls \<and> rr_bury_ok rr evt then published_ids rr evts else [])"

fun buried_events :: "relay_round \<Rightarrow> envelope list \<Rightarrow> envelope list" where
  "buried_events rr [] = []"
| "buried_events rr (evt # evts) =
     (case rr_publish rr evt of
        Published \<Rightarrow> buried_events rr evts
      | Publish_error cls _ \<Rightarrow> if is_non_retryable cls \<and> rr_bury_ok rr evt then evt # buried_events rr evts else [])"

lemma settle_outbox_append: "settle_outbox now ids' (settle_outbox now ids rows) = settle_outbox now (ids @ ids') rows"
  by (auto simp: settle_outbox_def)

lemma settle_outbox_Nil [simp]: "settle_outbox now [] rows = rows"
  by (simp add: settle_outbox_def)

lemma settle_outbox_cong: "set ids = set ids' \<Longrightarrow> settle_outbox now ids rows = settle_outbox now ids' rows"
  by (simp add: settle_outbox_def)

lemma insert_dead_letter_outbox [simp]:
  "st_outbox (insert_dead_letter now e su c co a er b s) = st_outbox s"
  "st_processing (insert_dead_letter now e su c co a er b s) = st_processing s"
  "st_business (insert_dead_letter now e su c co a er b s) = st_business s"
  by (simp_all add: insert_dead_letter_def)

lemma bury_one:
  "st_outbox (mark_events_dead_lettered now [evt] c err s) = settle_outbox now [event_id evt] (st_outbox s)"
  "\<exists>l. st_dead_letters (mark_events_dead_lettered now [evt] c err s) = st_dead_letters s @ [l]
     \<and> dl_event_id l = event_id evt \<and> dl_payload l = payload evt \<and> dl_consumer l = c \<and> dl_status l = DEAD_LETTER_OPEN"
  by (simp_all add: mark_events_dead_lettered_def mark_events_sent_def insert_dead_letter_def)

lemma relay_loop_result:
  assumes "relay_loop rl rr evts pub s = (exn, pub', s')"
  shows "pub' = pub @ published_ids rr evts
    \<and> st_outbox s' = settle_outbox (rr_now rr) (map event_id (buried_events rr evts)) (st_outbox s)
    \<and> (\<exists>ls. st_dead_letters s' = st_dead_letters s @ ls \<and> map dl_event_id ls = map event_id (buried_events rr evts)
          \<and> map dl_payload ls = map payload (buried_events rr evts))
    \<and> (exn = None \<longrightarrow> set (published_ids rr evts) \<union> event_id ` set (buried_events rr evts) = event_id ` set evts
          \<and> length (published_ids rr evts) + length (buried_events rr evts) = length evts)"
  using assms
proof (induction evts arbitrary: pub s)
  case (Cons evt evts)
  show ?case
  proof (cases "rr_publish rr evt")
    case Published
    with Cons.prems have "relay_loop rl rr evts (pub @ [event_id evt]) s = (exn, pub', s')" by simp
    from Cons.IH [OF this] Published show ?thesis by simp
  next
    case (Publish_error cls msg)
    show ?thesis
    proof (cases "is_non_retryable cls \<and> rr_bury_ok rr evt")
      case True
      let ?s = "mark_events_dead_lettered (rr_now rr) [evt] (relay_consumer_name rl) msg s"
      from True Publish_error Cons.prems have "relay_loop rl rr evts pub ?s = (exn, pub', s')" by simp
      note IH = Cons.IH [OF this]
      obtain l where l: "st_dead_letters ?s = st_dead_letters s @ [l]" "dl_event_id l = event_id evt" "dl_payload l = payload evt"
        using bury_one(2) [of "rr_now rr" evt "relay_consumer_name rl" msg s] by blast
      from IH obtain ls where ls: "st_dead_letters s' = st_dead_letters ?s @ ls"
        "map dl_event_id ls = map event_id (buried_events rr evts)" "map dl_payload ls = map payload (buried_events rr evts)" by blast
      have "st_dead_letters s' = st_dead_letters s @ (l # ls)" using l ls by simp
      with IH True Publish_error l ls show ?thesis
        by (auto simp: bury_one settle_outbox_append intro!: exI [of _ "l # ls"])
    next
      case False
      with Cons.prems Publish_error show ?thesis by (auto split: if_splits)
    qed
  qed
qed auto

definition leased :: "relay \<Rightarrow> relay_round \<Rightarrow> 'b store \<Rightarrow> envelope list \<times> 'b store" where
  "leased rl rr s =
     unsent_events (rl_batch rl) (map_option JStr (rl_source rl)) (rr_lease rr) (rr_app_now rr) (rr_now rr) (rr_locked rr) s"

definition settled_ids :: "relay_round \<Rightarrow> envelope list \<Rightarrow> json set" where
  "settled_ids rr evts = set (published_ids rr evts) \<union> event_id ` set (buried_events rr evts)"

lemma run_once_outbox:
  assumes "leased rl rr s = (evts, s1)" and "run_once rl rr s = (res, s')"
  shows "st_outbox s' = settle_outbox (rr_now rr) (map event_id (buried_events rr evts) @ published_ids rr evts) (st_outbox s1)
    \<and> (\<exists>ls. st_dead_letters s' = st_dead_letters s1 @ ls \<and> map dl_event_id ls = map event_id (buried_events rr evts)
          \<and> map dl_payload ls = map payload (buried_events rr evts))
    \<and> (case res of Inr n \<Rightarrow> n = length (published_ids rr evts) \<and> settled_ids rr evts = event_id ` set evts | Inl _ \<Rightarrow> True)"
proof -
  obtain exn pub s2 where loop: "relay_loop rl rr evts [] s1 = (exn, pub, s2)" by (metis prod_cases3)
  note r = relay_loop_result [OF loop]
  have "(res, s') = (case exn of None \<Rightarrow> Inr (length pub) | Some e \<Rightarrow> Inl e,
      if pub = [] then s2 else mark_events_sent (rr_now rr) pub s2)"
    using assms loop by (simp add: run_once_def leased_def)
  then show ?thesis
    using r by (cases exn; cases "pub = []") (auto simp: mark_events_sent_def settle_outbox_append settled_ids_def Un_commute)
qed

lemma leased_rows:
  assumes "leased rl rr s = (evts, s1)"
  shows "length (st_outbox s1) = length (st_outbox s) \<and> st_dead_letters s1 = st_dead_letters s
    \<and> (\<forall>i < length (st_outbox s). ob_evt (st_outbox s1 ! i) = ob_evt (st_outbox s ! i)
         \<and> ob_id (st_outbox s1 ! i) = ob_id (st_outbox s ! i) \<and> ob_sent_at (st_outbox s1 ! i) = ob_sent_at (st_outbox s ! i))"
  using assms by (auto simp: leased_def unsent_events_def Let_def)

subsection \<open>Properties\<close>

text \<open>
  C19. A relay round settles exactly what it delivered or buried: each row keeps its event, a row becomes
  sent exactly if its event was published or buried in this round, every buried event has its dead
  letter, and when the round returns a count, all leased events were settled and the count is the
  number of published ones. A row that was leased and not settled stays unsent.
\<close>

theorem relay_settles_exactly:
  assumes "leased rl rr s = (evts, s1)" and "run_once rl rr s = (res, s')"
  shows "length (st_outbox s') = length (st_outbox s)
    \<and> list_all2 (\<lambda>r r'. ob_id r' = ob_id r \<and> ob_evt r' = ob_evt r
         \<and> ob_sent_at r' = (if event_id (ob_evt r) \<in> settled_ids rr evts then Some (rr_now rr) else ob_sent_at r))
       (st_outbox s) (st_outbox s')
    \<and> (\<exists>ls. st_dead_letters s' = st_dead_letters s @ ls \<and> map dl_event_id ls = map event_id (buried_events rr evts))
    \<and> (\<forall>n. res = Inr n \<longrightarrow> n = length (published_ids rr evts) \<and> settled_ids rr evts = event_id ` set evts)"
proof -
  note o = run_once_outbox [OF assms] and l = leased_rows [OF assms(1)]
  have "list_all2 (\<lambda>r r'. ob_id r' = ob_id r \<and> ob_evt r' = ob_evt r
         \<and> ob_sent_at r' = (if event_id (ob_evt r) \<in> settled_ids rr evts then Some (rr_now rr) else ob_sent_at r))
       (st_outbox s) (st_outbox s')"
    using o l by (simp add: list_all2_conv_all_nth settle_outbox_def settled_ids_def Un_commute)
  moreover have "length (st_outbox s') = length (st_outbox s)" using o l by (simp add: settle_outbox_def)
  moreover have "\<exists>ls. st_dead_letters s' = st_dead_letters s @ ls \<and> map dl_event_id ls = map event_id (buried_events rr evts)"
    using o l by auto
  moreover have "\<forall>n. res = Inr n \<longrightarrow> n = length (published_ids rr evts) \<and> settled_ids rr evts = event_id ` set evts"
    using o by auto
  ultimately show ?thesis by blast
qed

lemma claim_outbox_available:
  assumes "outbox_wf rows" and "r \<in> set rows" and "ob_id r \<in> set (claim_outbox limit now src locked rows)"
  shows "outbox_available now src r \<and> \<not> locked (ob_id r)"
proof -
  from assms(3) have "ob_id r \<in> set (sort (map ob_id (filter (\<lambda>r. outbox_available now src r \<and> \<not> locked (ob_id r)) rows)))"
    unfolding claim_outbox_def by (rule in_set_takeD)
  then obtain r' where "r' \<in> set rows" "ob_id r' = ob_id r" "outbox_available now src r'" "\<not> locked (ob_id r')" by auto
  moreover from this assms(1,2) have "r' = r" by (auto simp: outbox_wf_def distinct_map inj_on_def)
  ultimately show ?thesis by simp
qed

lemma leased_available:
  assumes "outbox_wf (st_outbox s)" and "leased rl rr s = (evts, s1)" and "evt \<in> set evts"
  shows "\<exists>r \<in> set (st_outbox s). ob_evt r = evt \<and> outbox_available (rr_now rr) (map_option JStr (rl_source rl)) r
    \<and> ob_id r \<in> set (claim_outbox (rl_batch rl) (rr_now rr) (map_option JStr (rl_source rl)) (rr_locked rr) (st_outbox s))"
  using assms claim_outbox_available [OF assms(1)] by (fastforce simp: leased_def unsent_events_def Let_def)

lemma leased_row_after:
  assumes "outbox_wf (st_outbox s)" and "leased rl rr s = (evts, s1)" and "evt \<in> set evts"
    and "r \<in> set (st_outbox s1)" and "ob_evt r = evt"
  shows "ob_lease_id r = Some (rr_lease rr) \<and> ob_leased_until r = Some (rr_app_now rr + DEFAULT_OUTBOX_LEASE_SECONDS)"
proof -
  let ?ids = "set (claim_outbox (rl_batch rl) (rr_now rr) (map_option JStr (rl_source rl)) (rr_locked rr) (st_outbox s))"
  let ?f = "\<lambda>r. if ob_id r \<in> ?ids then r\<lparr>ob_lease_id := Some (rr_lease rr),
      ob_leased_until := Some (rr_app_now rr + DEFAULT_OUTBOX_LEASE_SECONDS)\<rparr> else r"
  have s1: "st_outbox s1 = map ?f (st_outbox s)" using assms(2) by (auto simp: leased_def unsent_events_def Let_def)
  obtain q where q: "q \<in> set (st_outbox s)" "ob_evt q = evt" "ob_id q \<in> ?ids"
    using leased_available [OF assms(1-3)] by blast
  from assms(4) s1 obtain p where p: "p \<in> set (st_outbox s)" "r = ?f p" by auto
  then have "ob_evt p = evt" using assms(5) by (auto split: if_splits)
  with p q assms(1) have "p = q" by (auto simp: outbox_wf_def distinct_map inj_on_def)
  with p q show ?thesis by simp
qed

text \<open>
  C20. Two relays do not publish the same event while a lease holds: whatever their filters, batches and
  clocks, a second lease taken before the first one has run out gets none of the first one's events.
\<close>

theorem leases_do_not_overlap:
  assumes "outbox_wf (st_outbox s)" and "leased rl rr s = (evts, s1)" and "leased rl' rr' s1 = (evts', s2)"
    and "rr_now rr' \<le> rr_app_now rr + DEFAULT_OUTBOX_LEASE_SECONDS"
  shows "set evts \<inter> set evts' = {}"
proof (rule ccontr)
  assume "set evts \<inter> set evts' \<noteq> {}"
  then obtain evt where e: "evt \<in> set evts" "evt \<in> set evts'" by blast
  have wf: "outbox_wf (st_outbox s1)"
    using unsent_events_wf assms(1,2) by (metis leased_def snd_conv)
  obtain r where r: "r \<in> set (st_outbox s1)" "ob_evt r = evt" "outbox_available (rr_now rr') (map_option JStr (rl_source rl')) r"
    using leased_available [OF wf assms(3) e(2)] by blast
  from leased_row_after [OF assms(1,2) e(1) r(1,2)] r(3) assms(4) show False by (auto simp: outbox_available_def)
qed

subsection \<open>Draining the outbox\<close>

definition unleased :: "'b store \<Rightarrow> bool" where
  "unleased s \<longleftrightarrow> list_all (\<lambda>r. ob_sent_at r = None \<longrightarrow> ob_lease_id r = None) (st_outbox s)"

definition healthy :: "relay_round \<Rightarrow> bool" where
  "healthy rr \<longleftrightarrow> rr_publish rr = (\<lambda>_. Published) \<and> rr_locked rr = (\<lambda>_. False)"

lemma published_all: "rr_publish rr = (\<lambda>_. Published) \<Longrightarrow> published_ids rr evts = map event_id evts \<and> buried_events rr evts = []"
  by (induction evts) auto

lemma filter_by_id:
  assumes "distinct (map ob_id rows)" and "distinct ids" and "set ids \<subseteq> set (map ob_id rows)"
  shows "length (filter (\<lambda>r. ob_id r \<in> set ids) rows) = length ids"
proof -
  have "set (map ob_id (filter (\<lambda>r. ob_id r \<in> set ids) rows)) = set ids" using assms(3) by auto
  moreover have "distinct (map ob_id (filter (\<lambda>r. ob_id r \<in> set ids) rows))" using assms(1) by (simp add: distinct_map_filter)
  ultimately show ?thesis using assms(2) by (metis distinct_card length_map)
qed

lemma healthy_round:
  assumes "outbox_wf (st_outbox s)" and "unleased s" and "healthy rr" and "rl_source rl = None" and "run_once rl rr s = (res, s')"
  shows "outbox_wf (st_outbox s') \<and> unleased s'
    \<and> outbox_pending_count s' = outbox_pending_count s - min (rl_batch rl) (outbox_pending_count s)"
proof -
  let ?rows = "st_outbox s"
  let ?free = "filter (\<lambda>r. ob_sent_at r = None) ?rows"
  let ?ids = "take (rl_batch rl) (sort (map ob_id ?free))"
  have av: "outbox_available (rr_now rr) None r \<longleftrightarrow> ob_sent_at r = None" if "r \<in> set ?rows" for r
    using assms(2) that by (auto simp: outbox_available_def unleased_def list_all_iff)
  then have claim: "claim_outbox (rl_batch rl) (rr_now rr) None (rr_locked rr) ?rows = ?ids"
    using assms(3) by (auto simp: claim_outbox_def healthy_def cong: filter_cong)
  obtain evts s1 where l: "leased rl rr s = (evts, s1)" by fastforce
  have evts: "evts = map ob_evt (filter (\<lambda>r. ob_id r \<in> set ?ids) ?rows)"
    using l claim assms(4) by (auto simp: leased_def unsent_events_def Let_def)
  have dist: "distinct (map ob_id ?rows)" "inj_on (\<lambda>r. event_id (ob_evt r)) (set ?rows)"
    using assms(1) by (auto simp: outbox_wf_def distinct_map)
  have ids: "distinct ?ids" "set ?ids \<subseteq> set (map ob_id ?free)" "length ?ids = min (rl_batch rl) (length ?free)"
    using dist(1) set_take_subset [of "rl_batch rl" "sort (map ob_id ?free)"] by (auto simp: distinct_map_filter)
  have rows': "st_outbox s' = map (\<lambda>r. if ob_id r \<in> set ?ids
      then r\<lparr>ob_sent_at := Some (rr_now rr), ob_lease_id := None, ob_leased_until := None\<rparr> else r) ?rows"
  proof -
    have hit: "event_id (ob_evt r) \<in> event_id ` set evts \<longleftrightarrow> ob_id r \<in> set ?ids" if "r \<in> set ?rows" for r
      using that dist(2) by (auto simp: evts inj_on_def)
    have s1: "st_outbox s1 = map (\<lambda>r. if ob_id r \<in> set ?ids then r\<lparr>ob_lease_id := Some (rr_lease rr),
        ob_leased_until := Some (rr_app_now rr + DEFAULT_OUTBOX_LEASE_SECONDS)\<rparr> else r) ?rows"
      using l claim assms(4) by (auto simp: leased_def unsent_events_def Let_def)
    have "st_outbox s' = settle_outbox (rr_now rr) (map event_id evts) (st_outbox s1)"
      using run_once_outbox [OF l assms(5)] published_all [of rr evts] assms(3) by (simp add: healthy_def)
    then show ?thesis unfolding s1 settle_outbox_def using hit by (auto simp: image_iff)
  qed
  have "length (filter (\<lambda>r. ob_sent_at r = None) (st_outbox s')) = length (filter (\<lambda>r. ob_id r \<notin> set ?ids) ?free)"
    unfolding rows' by (simp add: filter_map o_def if_distrib cong: if_cong)
      (metis (no_types, lifting))
  also have "\<dots> = length ?free - length (filter (\<lambda>r. ob_id r \<in> set ?ids) ?free)"
    using sum_length_filter_compl [of "\<lambda>r. ob_id r \<in> set ?ids" ?free] by linarith
  also have "length (filter (\<lambda>r. ob_id r \<in> set ?ids) ?free) = length ?ids"
    by (rule filter_by_id) (use dist ids in \<open>auto simp: distinct_map_filter\<close>)
  finally have "outbox_pending_count s' = outbox_pending_count s - min (rl_batch rl) (outbox_pending_count s)"
    using ids(3) by (simp add: outbox_pending_count_def)
  moreover have "outbox_wf (st_outbox s')"
    by (rule iffD2 [OF outbox_wf_cong assms(1)]) (auto simp: rows')
  moreover have "unleased s'" using assms(2) by (auto simp: unleased_def rows' list_all_iff)
  ultimately show ?thesis by blast
qed

fun relay_rounds :: "relay \<Rightarrow> relay_round list \<Rightarrow> 'b store \<Rightarrow> 'b store" where
  "relay_rounds rl [] s = s"
| "relay_rounds rl (rr # rrs) s = relay_rounds rl rrs (snd (run_once rl rr s))"

text \<open>
  C21. A reachable broker empties the outbox: when publishing works, a relay without a source filter
  takes the pending events in batches, and as many rounds as batches are needed leave none pending;
  every round keeps the rows distinct and leaves no stray lease.
\<close>

theorem relay_drains_outbox:
  assumes "outbox_wf (st_outbox s)" and "unleased s" and "list_all healthy rrs" and "rl_source rl = None"
    and "outbox_pending_count s \<le> length rrs * rl_batch rl"
  shows "outbox_pending_count (relay_rounds rl rrs s) = 0 \<and> outbox_wf (st_outbox (relay_rounds rl rrs s)) \<and> unleased (relay_rounds rl rrs s)"
  using assms
proof (induction rrs arbitrary: s)
  case (Cons rr rrs)
  obtain res s' where r: "run_once rl rr s = (res, s')" by fastforce
  from Cons.prems(3) have "healthy rr" by simp
  note h = healthy_round [OF Cons.prems(1,2) this Cons.prems(4) r]
  have "outbox_pending_count s' \<le> length rrs * rl_batch rl" using h Cons.prems(5) by (auto simp: min_def)
  with h Cons r show ?case by simp
qed simp

definition quiet_round :: relay_round where
  "quiet_round = \<lparr>rr_publish = (\<lambda>_. Published), rr_bury_ok = (\<lambda>_. True), rr_now = 5, rr_app_now = 5, rr_lease = ''l'', rr_locked = (\<lambda>_. False)\<rparr>"

definition staged_store :: "unit store" where
  "staged_store = stage_events [sample_envelope, sample_envelope\<lparr>event_id := JStr ''e2''\<rparr>, sample_envelope\<lparr>event_id := JStr ''e3''\<rparr>] (empty_store ())"

lemma staged_wf: "outbox_wf (st_outbox staged_store)"
  unfolding staged_store_def by (rule stage_events_wf) (simp add: empty_store_def outbox_wf_def)

lemma staged_rows: "st_outbox staged_store =
   [\<lparr>ob_id = 1, ob_evt = sample_envelope, ob_lease_id = None, ob_leased_until = None, ob_sent_at = None\<rparr>,
    \<lparr>ob_id = 2, ob_evt = sample_envelope\<lparr>event_id := JStr ''e2''\<rparr>, ob_lease_id = None, ob_leased_until = None, ob_sent_at = None\<rparr>,
    \<lparr>ob_id = 3, ob_evt = sample_envelope\<lparr>event_id := JStr ''e3''\<rparr>, ob_lease_id = None, ob_leased_until = None, ob_sent_at = None\<rparr>]"
  by (simp add: staged_store_def stage_events_def stage_event_def next_outbox_id_def empty_store_def sample_envelope_def)

theorem relay_drains_outbox_witness:
  "outbox_pending_count (relay_rounds \<lparr>rl_source = None, rl_batch = 2\<rparr> [quiet_round, quiet_round] staged_store) = 0"
  using relay_drains_outbox [of staged_store "[quiet_round, quiet_round]" "\<lparr>rl_source = None, rl_batch = 2\<rparr>"] staged_wf
  by (simp add: unleased_def staged_rows healthy_def quiet_round_def outbox_pending_count_def)

theorem leases_do_not_overlap_witness:
  "\<exists>evts s1 evts' s2. leased \<lparr>rl_source = None, rl_batch = 2\<rparr> quiet_round staged_store = (evts, s1)
     \<and> leased \<lparr>rl_source = None, rl_batch = 2\<rparr> quiet_round s1 = (evts', s2) \<and> set evts \<inter> set evts' = {}"
proof -
  obtain evts s1 where a: "leased \<lparr>rl_source = None, rl_batch = 2\<rparr> quiet_round staged_store = (evts, s1)" by fastforce
  obtain evts' s2 where b: "leased \<lparr>rl_source = None, rl_batch = 2\<rparr> quiet_round s1 = (evts', s2)" by fastforce
  have "rr_now quiet_round \<le> rr_app_now quiet_round + DEFAULT_OUTBOX_LEASE_SECONDS"
    by (simp add: quiet_round_def DEFAULT_OUTBOX_LEASE_SECONDS_def)
  from leases_do_not_overlap [OF staged_wf a b this] a b show ?thesis by blast
qed

theorem relay_settles_exactly_witness:
  "\<exists>res s' evts s1. run_once \<lparr>rl_source = None, rl_batch = 2\<rparr> quiet_round staged_store = (res, s')
     \<and> leased \<lparr>rl_source = None, rl_batch = 2\<rparr> quiet_round staged_store = (evts, s1)
     \<and> length (st_outbox s') = 3"
proof -
  obtain evts s1 where a: "leased \<lparr>rl_source = None, rl_batch = 2\<rparr> quiet_round staged_store = (evts, s1)" by fastforce
  obtain res s' where b: "run_once \<lparr>rl_source = None, rl_batch = 2\<rparr> quiet_round staged_store = (res, s')" by fastforce
  from relay_settles_exactly [OF a b] have "length (st_outbox s') = length (st_outbox staged_store)" by simp
  then have "length (st_outbox s') = 3" by (simp add: staged_rows)
  with a b show ?thesis by blast
qed

end
