(* ===== verification/In_Memory_Bus.thy ===== *)
theory In_Memory_Bus
  imports Event_Catalog Event_Envelope "HOL-Library.Multiset"
begin

section \<open>The in-memory event bus\<close>

text \<open>
  \<^verbatim>\<open>src/src/packages/events/in_memory.py\<close>: subscriptions with a queue, deliveries in flight and delayed
  redeliveries, and the bus that fans a published event out to the subscriptions whose pattern matches.
  A delayed redelivery is a pending task; \<open>requeue_after\<close> is the moment it wakes up. Waiting on an
  empty queue is \<open>Fetch_timeout\<close> (or \<open>Fetch_waits\<close> without a timeout): an event that arrives during the
  wait is an enqueue before the fetch. The encoder \<^verbatim>\<open>json.dumps\<close> is an argument.
\<close>

record stored_event =
  se_subject :: string
  se_data :: string

record queued_event =
  qe_stored :: stored_event
  qe_redelivery :: bool

datatype bus_error = Subscription_closed | Bad_batch | Fetch_timeout | Fetch_waits | Negative_delay
  | Not_connected | Bus_closed | Unknown_consumer | Subject_not_text

record mem_sub =
  ms_subject :: string
  ms_durable :: string
  ms_queue :: "queued_event list"
  ms_in_flight :: "(nat \<times> queued_event) list"
  ms_next_delivery_id :: nat
  ms_redelivered :: nat
  ms_delayed :: "(nat \<times> queued_event) list"
    \<comment> \<open>the pending tasks, by the delivery they come from\<close>
  ms_closed :: bool

definition new_sub :: "string \<Rightarrow> string \<Rightarrow> mem_sub" where
  "new_sub subj dur =
     \<lparr>ms_subject = subj, ms_durable = dur, ms_queue = [], ms_in_flight = [], ms_next_delivery_id = 1,
      ms_redelivered = 0, ms_delayed = [], ms_closed = False\<rparr>"

definition sub_enqueue :: "stored_event \<Rightarrow> mem_sub \<Rightarrow> mem_sub" where
  "sub_enqueue e s =
     (if ms_closed s then s else s\<lparr>ms_queue := ms_queue s @ [\<lparr>qe_stored = e, qe_redelivery = False\<rparr>]\<rparr>)"

definition sub_deliver :: "queued_event \<Rightarrow> mem_sub \<Rightarrow> (nat \<times> string) \<times> mem_sub" where
  "sub_deliver q s =
     (let i = ms_next_delivery_id s in
      ((i, se_data (qe_stored q)),
       s\<lparr>ms_next_delivery_id := i + 1, ms_in_flight := ms_in_flight s @ [(i, q)],
         ms_redelivered := ms_redelivered s + (if qe_redelivery q then 1 else 0)\<rparr>))"

fun deliver_list :: "queued_event list \<Rightarrow> mem_sub \<Rightarrow> (nat \<times> string) list \<times> mem_sub" where
  "deliver_list [] s = ([], s)"
| "deliver_list (q # qs) s =
     (case sub_deliver q s of (m, s1) \<Rightarrow> (case deliver_list qs s1 of (ms, s2) \<Rightarrow> (m # ms, s2)))"

definition sub_fetch :: "int \<Rightarrow> bool \<Rightarrow> mem_sub \<Rightarrow> bus_error + (nat \<times> string) list \<times> mem_sub" where
  \<comment> \<open>the flag says whether a timeout is given\<close>
  "sub_fetch batch timed s =
     (if ms_closed s then Inl Subscription_closed
      else if batch < 1 then Inl Bad_batch
      else if ms_queue s = [] then Inl (if timed then Fetch_timeout else Fetch_waits)
      else Inr (deliver_list (take (nat batch) (ms_queue s)) (s\<lparr>ms_queue := drop (nat batch) (ms_queue s)\<rparr>)))"

definition pop_flight :: "nat \<Rightarrow> mem_sub \<Rightarrow> queued_event option \<times> mem_sub" where
  "pop_flight i s = (map_of (ms_in_flight s) i, s\<lparr>ms_in_flight := filter (\<lambda>(j, _). j \<noteq> i) (ms_in_flight s)\<rparr>)"

definition sub_ack :: "nat \<Rightarrow> mem_sub \<Rightarrow> mem_sub" where
  "sub_ack i s = snd (pop_flight i s)"

definition sub_nak :: "nat \<Rightarrow> int \<Rightarrow> mem_sub \<Rightarrow> mem_sub" where
  "sub_nak i delay s =
     (case pop_flight i s of
        (None, s1) \<Rightarrow> s1
      | (Some q, s1) \<Rightarrow>
          (if ms_closed s1 then s1
           else if delay = 0 then s1\<lparr>ms_queue := ms_queue s1 @ [q\<lparr>qe_redelivery := True\<rparr>]\<rparr>
           else s1\<lparr>ms_delayed := ms_delayed s1 @ [(i, q\<lparr>qe_redelivery := True\<rparr>)]\<rparr>))"

definition requeue_after :: "nat \<Rightarrow> mem_sub \<Rightarrow> mem_sub" where
  "requeue_after i s =
     (case map_of (ms_delayed s) i of
        None \<Rightarrow> s
      | Some q \<Rightarrow>
          (let s1 = s\<lparr>ms_delayed := filter (\<lambda>(j, _). j \<noteq> i) (ms_delayed s)\<rparr> in
           if ms_closed s1 then s1 else s1\<lparr>ms_queue := ms_queue s1 @ [q]\<rparr>))"

definition sub_close :: "mem_sub \<Rightarrow> mem_sub" where
  "sub_close s = s\<lparr>ms_closed := True, ms_delayed := []\<rparr>"

record mem_message =
  mm_delivery_id :: nat
  mm_settled :: bool

definition message_ack :: "mem_message \<Rightarrow> mem_sub \<Rightarrow> mem_message \<times> mem_sub" where
  "message_ack m s =
     (if mm_settled m then (m, s) else (m\<lparr>mm_settled := True\<rparr>, sub_ack (mm_delivery_id m) s))"

definition message_nak :: "int \<Rightarrow> mem_message \<Rightarrow> mem_sub \<Rightarrow> bus_error + mem_message \<times> mem_sub" where
  "message_nak delay m s =
     (if delay < 0 then Inl Negative_delay
      else if mm_settled m then Inr (m, s)
      else Inr (m\<lparr>mm_settled := True\<rparr>, sub_nak (mm_delivery_id m) delay s))"

record consumer_metrics =
  cm_stream :: string
  cm_subject :: string
  cm_durable :: string
  cm_pending :: int
  cm_ack_pending :: int
  cm_redelivered :: int

definition STREAM_NAME :: string where
  "STREAM_NAME = ''SERVICE_EVENTS''"

definition sub_metrics :: "mem_sub \<Rightarrow> consumer_metrics" where
  \<comment> \<open>\<^verbatim>\<open>_scheduled\<close> is the number of pending tasks of an open subscription\<close>
  "sub_metrics s =
     \<lparr>cm_stream = STREAM_NAME, cm_subject = ms_subject s, cm_durable = ms_durable s,
      cm_pending = int (length (ms_queue s)) + int (length (ms_delayed s)),
      cm_ack_pending = int (length (ms_in_flight s)), cm_redelivered = int (ms_redelivered s)\<rparr>"

subsection \<open>Subject patterns\<close>

fun match_tokens :: "string list \<Rightarrow> string list \<Rightarrow> bool" where
  \<comment> \<open>the loop over the pattern's tokens, with the subject's tokens from the same index on\<close>
  "match_tokens [] ts \<longleftrightarrow> ts = []"
| "match_tokens (p # ps) ts \<longleftrightarrow>
     (if p = ''>'' then ps = [] \<and> ts \<noteq> []
      else case ts of
             [] \<Rightarrow> False
           | t # ts' \<Rightarrow> if p \<noteq> ''*'' \<and> p \<noteq> t then False else match_tokens ps ts')"

definition subject_matches :: "string \<Rightarrow> string \<Rightarrow> bool" where
  "subject_matches pattern subj \<longleftrightarrow> match_tokens (py_split CHR ''.'' pattern) (py_split CHR ''.'' subj)"

subsection \<open>The bus\<close>

record mem_bus =
  mb_connected :: bool
  mb_closed :: bool
  mb_events :: "stored_event list"
  mb_subs :: "((string \<times> string) \<times> mem_sub) list"

definition new_bus :: mem_bus where
  "new_bus = \<lparr>mb_connected = False, mb_closed = False, mb_events = [], mb_subs = []\<rparr>"

definition bus_connect :: "mem_bus \<Rightarrow> bus_error + mem_bus" where
  "bus_connect b = (if mb_closed b then Inl Bus_closed else Inr (b\<lparr>mb_connected := True\<rparr>))"

definition publish_envelope :: "(jdict \<Rightarrow> string) \<Rightarrow> envelope \<Rightarrow> mem_bus \<Rightarrow> bus_error + mem_bus" where
  "publish_envelope dumps evt b =
     (if \<not> mb_connected b then Inl Not_connected
      else case as_str (subject evt) of
             None \<Rightarrow> Inl Subject_not_text
           | Some subj \<Rightarrow>
               (let e = \<lparr>se_subject = subj, se_data = dumps (to_dict evt)\<rparr> in
                Inr (b\<lparr>mb_events := mb_events b @ [e],
                       mb_subs := map (\<lambda>(k, s). (k, if subject_matches (ms_subject s) subj then sub_enqueue e s else s)) (mb_subs b)\<rparr>)))"

definition bus_subscribe :: "string \<Rightarrow> string \<Rightarrow> mem_bus \<Rightarrow> bus_error + mem_sub \<times> mem_bus" where
  "bus_subscribe subj dur b =
     (if \<not> mb_connected b then Inl Not_connected
      else case map_of (mb_subs b) (subj, dur) of
             Some s \<Rightarrow> Inr (s, b)
           | None \<Rightarrow>
               (let s = foldl (\<lambda>s e. if subject_matches subj (se_subject e) then sub_enqueue e s else s) (new_sub subj dur) (mb_events b)
                in Inr (s, b\<lparr>mb_subs := mb_subs b @ [((subj, dur), s)]\<rparr>)))"

definition bus_consumer_metrics :: "string \<Rightarrow> string \<Rightarrow> mem_bus \<Rightarrow> bus_error + consumer_metrics" where
  "bus_consumer_metrics subj dur b =
     (if \<not> mb_connected b then Inl Not_connected
      else case map_of (mb_subs b) (subj, dur) of None \<Rightarrow> Inl Unknown_consumer | Some s \<Rightarrow> Inr (sub_metrics s))"

definition bus_close :: "mem_bus \<Rightarrow> mem_bus" where
  "bus_close b =
     (if mb_closed b then b
      else b\<lparr>mb_connected := False, mb_closed := True, mb_subs := map (\<lambda>(k, s). (k, sub_close s)) (mb_subs b)\<rparr>)"

subsection \<open>What a pattern means\<close>

definition token_ok :: "string \<Rightarrow> string \<Rightarrow> bool" where
  "token_ok p t \<longleftrightarrow> p = ''*'' \<or> p = t"

text \<open>
  C22. Pattern matching is that of the broker's wildcards: a pattern without \<open>>\<close> matches subjects with as
  many tokens, each equal or under a star; a pattern ending in \<open>>\<close> matches subjects that have at least
  one token more than the part before it and agree with that part; a \<open>>\<close> anywhere else matches nothing.
\<close>

theorem subject_matches_iff:
  "subject_matches pattern subj \<longleftrightarrow>
     (let ps = py_split CHR ''.'' pattern; ts = py_split CHR ''.'' subj in
      if ''>'' \<notin> set ps then list_all2 token_ok ps ts
      else last ps = ''>'' \<and> ''>'' \<notin> set (butlast ps) \<and> length (butlast ps) < length ts
           \<and> list_all2 token_ok (butlast ps) (take (length (butlast ps)) ts))"
proof -
  have "match_tokens ps ts \<longleftrightarrow>
     (if ''>'' \<notin> set ps then list_all2 token_ok ps ts
      else last ps = ''>'' \<and> ''>'' \<notin> set (butlast ps) \<and> length (butlast ps) < length ts
           \<and> list_all2 token_ok (butlast ps) (take (length (butlast ps)) ts))" for ps ts
  proof (induction ps arbitrary: ts)
    case (Cons p ps)
    show ?case
    proof (cases "p = ''>''")
      case True
      then show ?thesis by (cases ps) auto
    next
      case False
      show ?thesis
      proof (cases ts)
        case (Cons t ts')
        have "match_tokens (p # ps) ts \<longleftrightarrow> token_ok p t \<and> match_tokens ps ts'"
          using False Cons by (simp add: token_ok_def)
        moreover have "''>'' \<in> set ps \<Longrightarrow> ps \<noteq> []" by auto
        ultimately show ?thesis
          using False Cons Cons.IH [of ts'] by (auto simp del: length_butlast match_tokens.simps)
      qed (use False in simp)
    qed
  qed simp
  then show ?thesis by (simp add: subject_matches_def Let_def)
qed

lemma split_stream_pattern:
  assumes "CHR ''.'' \<notin> set w"
  shows "py_split CHR ''.'' (w @ ''.>'') = [w, ''>'']"
  using py_split_append [OF assms, of "''>''"] by simp

lemma stream_pattern_matches:
  assumes "2 \<le> length (py_split CHR ''.'' v)" and "hd (py_split CHR ''.'' v) \<noteq> ''>''"
  shows "subject_matches (hd (py_split CHR ''.'' v) @ ''.>'') v"
proof -
  obtain w t ts where v: "py_split CHR ''.'' v = w # t # ts"
    using assms(1) by (cases "py_split CHR ''.'' v"; cases "tl (py_split CHR ''.'' v)") auto
  then have "CHR ''.'' \<notin> set w" using py_split_no_sep [of w "CHR ''.''" v] by simp
  from split_stream_pattern [OF this] v assms(2) show ?thesis by (simp add: subject_matches_def)
qed

lemma subjects_have_domain:
  "list_all (\<lambda>(_, v). 2 \<le> length (py_split CHR ''.'' v) \<and> hd (py_split CHR ''.'' v) \<noteq> ''>'') EVENT_SUBJECTS"
  by code_simp

text \<open>
  No event misses the stream: every subject of the catalogue is matched by one of the wildcard
  subjects the stream is configured with, so whatever a service publishes is stored by the broker.
\<close>

theorem stream_covers_catalogue:
  assumes "(s, b) \<in> set catalogue"
  shows "\<exists>p \<in> set derived_stream_subjects. subject_matches p s"
proof -
  have "map fst catalogue = map snd EVENT_SUBJECTS" by (simp add: catalogue_def EVENT_SUBJECTS_def)
  then have "s \<in> set (map snd EVENT_SUBJECTS)" using assms by (metis image_eqI list.set_map fst_conv)
  then obtain n where n: "(n, s) \<in> set EVENT_SUBJECTS" by auto
  then have "hd (py_split CHR ''.'' s) @ ''.>'' \<in> set derived_stream_subjects"
    by (force simp: derived_stream_subjects_def)
  moreover have "subject_matches (hd (py_split CHR ''.'' s) @ ''.>'') s"
    using n subjects_have_domain by (intro stream_pattern_matches) (auto simp: list_all_iff)
  ultimately show ?thesis by blast
qed

theorem stream_covers_catalogue_witness:
  "\<exists>p \<in> set derived_stream_subjects. subject_matches p ''rca.completed''"
  by (rule stream_covers_catalogue [of _ RcaCompletedBody]) (simp add: catalogue_def)

subsection \<open>At-least-once delivery\<close>

text \<open>
  What a worker relies on: a subscription holds a bag of events that only enqueueing fills and only
  acknowledging empties; fetching, sending back and waking up a delayed event move events around
  inside it. The locale derives the balance over any sequence of operations from these laws.
\<close>

datatype 'd sub_op = Enqueue 'd | Fetch int | Ack_op nat | Nak_op nat int | Wake nat

locale at_least_once =
  fixes ok :: "'s \<Rightarrow> bool"
    and held :: "'s \<Rightarrow> 'd multiset"
    and flight :: "'s \<Rightarrow> nat \<Rightarrow> 'd option"
    and run :: "'d sub_op \<Rightarrow> 's \<Rightarrow> 's"
  assumes ok_run: "ok s \<Longrightarrow> ok (run op s)"
    and held_enqueue: "ok s \<Longrightarrow> held (run (Enqueue d) s) = add_mset d (held s)"
    and held_fetch: "ok s \<Longrightarrow> held (run (Fetch n) s) = held s"
    and held_ack: "ok s \<Longrightarrow> held s = held (run (Ack_op i) s) + (case flight s i of None \<Rightarrow> {#} | Some d \<Rightarrow> {#d#})"
    and held_nak: "ok s \<Longrightarrow> held (run (Nak_op i n) s) = held s"
    and held_wake: "ok s \<Longrightarrow> held (run (Wake i) s) = held s"
begin

fun enqueued :: "'d sub_op list \<Rightarrow> 'd multiset" where
  "enqueued [] = {#}"
| "enqueued (op # ops) = (case op of Enqueue d \<Rightarrow> {#d#} | _ \<Rightarrow> {#}) + enqueued ops"

fun acked :: "'d sub_op list \<Rightarrow> 's \<Rightarrow> 'd multiset" where
  "acked [] s = {#}"
| "acked (op # ops) s =
     (case op of Ack_op i \<Rightarrow> (case flight s i of None \<Rightarrow> {#} | Some d \<Rightarrow> {#d#}) | _ \<Rightarrow> {#}) + acked ops (run op s)"

lemma balance:
  "ok s \<Longrightarrow> held s + enqueued ops = acked ops s + held (foldl (\<lambda>s op. run op s) s ops)"
proof (induction ops arbitrary: s)
  case (Cons op ops)
  note IH = Cons.IH [OF ok_run [OF Cons.prems, of op]]
  show ?case
  proof (cases op)
    case (Ack_op i)
    with held_ack [OF Cons.prems, of i] IH show ?thesis by (simp add: ac_simps)
  qed (use IH held_enqueue [OF Cons.prems] held_fetch [OF Cons.prems] held_nak [OF Cons.prems] held_wake [OF Cons.prems] in auto)
qed simp

end

definition sub_inv :: "mem_sub \<Rightarrow> bool" where
  "sub_inv s \<longleftrightarrow>
     \<not> ms_closed s \<and> distinct (map fst (ms_in_flight s @ ms_delayed s))
     \<and> list_all (\<lambda>i. i < ms_next_delivery_id s) (map fst (ms_in_flight s @ ms_delayed s))"

definition sub_held :: "mem_sub \<Rightarrow> stored_event multiset" where
  "sub_held s = mset (map qe_stored (ms_queue s)) + mset (map (qe_stored \<circ> snd) (ms_in_flight s))
     + mset (map (qe_stored \<circ> snd) (ms_delayed s))"

definition sub_flight :: "mem_sub \<Rightarrow> nat \<Rightarrow> stored_event option" where
  "sub_flight s i = map_option qe_stored (map_of (ms_in_flight s) i)"

fun sub_run :: "stored_event sub_op \<Rightarrow> mem_sub \<Rightarrow> mem_sub" where
  "sub_run (Enqueue e) s = sub_enqueue e s"
| "sub_run (Fetch n) s = (case sub_fetch n True s of Inr (_, s') \<Rightarrow> s' | Inl _ \<Rightarrow> s)"
| "sub_run (Ack_op i) s = sub_ack i s"
| "sub_run (Nak_op i n) s = sub_nak i n s"
| "sub_run (Wake i) s = requeue_after i s"

lemma mset_pop:
  assumes "distinct (map fst xs)"
  shows "mset (map f xs) = mset (map f (filter (\<lambda>(j, _). j \<noteq> i) xs)) + (case map_of xs i of None \<Rightarrow> {#} | Some q \<Rightarrow> {#f (i, q)#})"
  using assms
proof (induction xs)
  case (Cons x xs)
  then show ?case
  proof (cases "fst x = i")
    case True
    then have "i \<notin> fst ` set xs" using Cons.prems by simp
    then have "filter (\<lambda>(j, _). j \<noteq> i) xs = xs" by (induction xs) auto
    with True show ?thesis by (cases x) auto
  next
    case False
    with Cons show ?thesis by (cases x) auto
  qed
qed simp

lemma deliver_list_state:
  "ms_queue (snd (deliver_list qs s)) = ms_queue s \<and> ms_delayed (snd (deliver_list qs s)) = ms_delayed s
   \<and> ms_closed (snd (deliver_list qs s)) = ms_closed s
   \<and> ms_next_delivery_id (snd (deliver_list qs s)) = ms_next_delivery_id s + length qs
   \<and> ms_in_flight (snd (deliver_list qs s)) = ms_in_flight s @ zip [ms_next_delivery_id s..<ms_next_delivery_id s + length qs] qs
   \<and> fst (deliver_list qs s) = zip [ms_next_delivery_id s..<ms_next_delivery_id s + length qs] (map (se_data \<circ> qe_stored) qs)"
proof (induction qs arbitrary: s)
  case (Cons q qs)
  let ?s = "snd (sub_deliver q s)"
  have "[ms_next_delivery_id s..<ms_next_delivery_id s + length (q # qs)]
      = ms_next_delivery_id s # [Suc (ms_next_delivery_id s)..<Suc (ms_next_delivery_id s) + length qs]"
    by (subst upt_conv_Cons) (simp_all del: upt.simps)
  with Cons [of ?s] show ?case by (simp add: sub_deliver_def Let_def split_def)
qed simp

lemma keys_pop: "fst ` set (filter (\<lambda>(j, _). j \<noteq> i) xs) = fst ` set xs - {i}"
  by force

lemma distinct_pop: "distinct (map fst xs) \<Longrightarrow> distinct (map fst (filter (\<lambda>(j, _). j \<noteq> i) xs))"
  by (simp add: distinct_map_filter)

lemma all_pop: "list_all P xs \<Longrightarrow> list_all P (filter (\<lambda>(j, _). j \<noteq> i) xs)"
  by (auto simp: list_all_iff)

lemma fetch_inv:
  assumes "sub_inv s" and "sub_fetch n timed s = Inr (ms, s')"
  shows "sub_inv s' \<and> sub_held s' = sub_held s"
proof -
  let ?qs = "take (nat n) (ms_queue s)" and ?s = "s\<lparr>ms_queue := drop (nat n) (ms_queue s)\<rparr>"
  have s': "s' = snd (deliver_list ?qs ?s)"
    using assms(2) by (auto simp: sub_fetch_def split: if_splits)
  note d = deliver_list_state [of ?qs ?s, folded s']
  let ?new = "zip [ms_next_delivery_id s..<ms_next_delivery_id s + length ?qs] ?qs"
  have fst_new: "map fst ?new = [ms_next_delivery_id s..<ms_next_delivery_id s + length ?qs]" by simp
  have bound: "\<forall>i \<in> set (map fst (ms_in_flight s)). i < ms_next_delivery_id s"
    "\<forall>i \<in> set (map fst (ms_delayed s)). i < ms_next_delivery_id s"
    using assms(1) by (auto simp: sub_inv_def list_all_iff)
  have keys: "map fst (ms_in_flight s') = map fst (ms_in_flight s) @ [ms_next_delivery_id s..<ms_next_delivery_id s + length ?qs]"
    "map fst (ms_delayed s') = map fst (ms_delayed s)"
    using d fst_new by (simp_all del: map_fst_zip)
  have nx: "ms_next_delivery_id s' = ms_next_delivery_id s + length ?qs" "ms_closed s' = ms_closed s" using d by simp_all
  have old: "distinct (map fst (ms_in_flight s))" "distinct (map fst (ms_delayed s))"
    "set (map fst (ms_in_flight s)) \<inter> set (map fst (ms_delayed s)) = {}" "\<not> ms_closed s"
    using assms(1) by (simp_all add: sub_inv_def)
  have "distinct (map fst (ms_in_flight s') @ map fst (ms_delayed s'))"
    unfolding keys using old(1-3) bound by (simp del: set_map) fastforce
  moreover have "list_all (\<lambda>i. i < ms_next_delivery_id s') (map fst (ms_in_flight s') @ map fst (ms_delayed s'))"
    unfolding keys nx using bound by (auto simp: list_all_iff simp del: set_map)
  ultimately have "sub_inv s'"
    using old(4) nx(2) by (simp add: sub_inv_def)
  moreover have "map (qe_stored \<circ> snd) ?new = map qe_stored ?qs"
    by (metis length_upt add_diff_cancel_left' map_map map_snd_zip)
  then have new: "mset (map (qe_stored \<circ> snd) ?new) = mset (map qe_stored ?qs)" by (simp only:)
  have all: "mset (map qe_stored (ms_queue s)) = mset (map qe_stored ?qs) + mset (map qe_stored (drop (nat n) (ms_queue s)))"
    by (metis append_take_drop_id map_append mset_append)
  have "sub_held s' = mset (map qe_stored (drop (nat n) (ms_queue s))) + (mset (map (qe_stored \<circ> snd) (ms_in_flight s))
      + mset (map (qe_stored \<circ> snd) ?new)) + mset (map (qe_stored \<circ> snd) (ms_delayed s))"
    using d by (simp add: sub_held_def)
  then have "sub_held s' = sub_held s" unfolding new sub_held_def all by (simp add: ac_simps)
  ultimately show ?thesis by blast
qed

lemma inv_parts:
  "sub_inv s \<longleftrightarrow> \<not> ms_closed s \<and> distinct (map fst (ms_in_flight s)) \<and> distinct (map fst (ms_delayed s))
     \<and> fst ` set (ms_in_flight s) \<inter> fst ` set (ms_delayed s) = {}
     \<and> (\<forall>i \<in> fst ` set (ms_in_flight s) \<union> fst ` set (ms_delayed s). i < ms_next_delivery_id s)"
  by (auto simp: sub_inv_def list_all_iff)

lemma held_pop:
  assumes "sub_inv s"
  shows "sub_held s = sub_held (snd (pop_flight i s)) + (case sub_flight s i of None \<Rightarrow> {#} | Some d \<Rightarrow> {#d#})"
proof -
  have "distinct (map fst (ms_in_flight s))" using assms by (simp add: inv_parts)
  from mset_pop [OF this, of "qe_stored \<circ> snd" i] show ?thesis
    by (simp add: sub_held_def pop_flight_def sub_flight_def split: option.splits)
qed

lemma pop_inv: "sub_inv s \<Longrightarrow> sub_inv (snd (pop_flight i s))"
  by (auto simp: inv_parts pop_flight_def keys_pop distinct_pop simp del: set_filter)

lemma nak_inv:
  assumes "sub_inv s"
  shows "sub_inv (sub_nak i n s) \<and> sub_held (sub_nak i n s) = sub_held s"
proof (cases "map_of (ms_in_flight s) i")
  case None
  with held_pop [OF assms, of i] pop_inv [OF assms, of i] show ?thesis
    by (simp add: sub_nak_def pop_flight_def sub_flight_def)
next
  case (Some q)
  then have mem: "i \<in> fst ` set (ms_in_flight s)" by (force dest: map_of_SomeD)
  obtain s1 where p: "pop_flight i s = (Some q, s1)" using Some by (simp add: pop_flight_def)
  have inv: "sub_inv s1" and held: "sub_held s = sub_held s1 + {#qe_stored q#}"
    using pop_inv [OF assms, of i] held_pop [OF assms, of i] p Some by (simp_all add: sub_flight_def)
  have s1: "ms_delayed s1 = ms_delayed s" "ms_next_delivery_id s1 = ms_next_delivery_id s" "i \<notin> fst ` set (ms_in_flight s1)"
    using p by (auto simp: pop_flight_def)
  have new: "i \<notin> fst ` set (ms_delayed s)" "i < ms_next_delivery_id s" "\<not> ms_closed s1"
    using assms mem inv by (auto simp: inv_parts)
  show ?thesis
  proof (cases "n = 0")
    case True
    with inv new held p show ?thesis by (simp add: sub_nak_def inv_parts sub_held_def)
  next
    case False
    with inv new s1 held p show ?thesis by (simp add: sub_nak_def inv_parts sub_held_def)
  qed
qed

lemma wake_inv:
  assumes "sub_inv s"
  shows "sub_inv (requeue_after i s) \<and> sub_held (requeue_after i s) = sub_held s"
proof (cases "map_of (ms_delayed s) i")
  case (Some q)
  have "distinct (map fst (ms_delayed s))" using assms by (simp add: inv_parts)
  from mset_pop [OF this, of "qe_stored \<circ> snd" i] Some assms
  have "sub_held (requeue_after i s) = sub_held s"
    by (simp add: requeue_after_def sub_held_def inv_parts Let_def ac_simps)
  moreover have "sub_inv (requeue_after i s)"
    using assms Some by (auto simp: requeue_after_def inv_parts keys_pop distinct_pop Let_def simp del: set_filter)
  ultimately show ?thesis by blast
qed (use assms in \<open>simp add: requeue_after_def\<close>)

lemma enqueue_inv: "sub_inv s \<Longrightarrow> sub_inv (sub_enqueue e s) \<and> sub_held (sub_enqueue e s) = add_mset e (sub_held s)"
  by (simp add: sub_enqueue_def inv_parts sub_held_def)

interpretation mem_queue: at_least_once sub_inv sub_held sub_flight sub_run
proof (unfold_locales, goal_cases)
  case (1 s op)
  then show ?case
    by (cases op) (auto simp: sub_ack_def pop_inv nak_inv wake_inv enqueue_inv split: sum.splits dest: fetch_inv)
next
  case (2 s d)
  then show ?case by (simp add: enqueue_inv)
next
  case (3 s n)
  then show ?case by (auto split: sum.splits dest: fetch_inv)
next
  case (4 s i)
  then show ?case using held_pop by (simp add: sub_ack_def)
next
  case (5 s i n)
  then show ?case by (simp add: nak_inv)
next
  case (6 s i)
  then show ?case by (simp add: wake_inv)
qed

fun enqueued_events :: "stored_event sub_op list \<Rightarrow> stored_event multiset" where
  "enqueued_events [] = {#}"
| "enqueued_events (op # ops) = (case op of Enqueue e \<Rightarrow> {#e#} | _ \<Rightarrow> {#}) + enqueued_events ops"

fun acked_events :: "stored_event sub_op list \<Rightarrow> mem_sub \<Rightarrow> stored_event multiset" where
  "acked_events [] s = {#}"
| "acked_events (op # ops) s =
     (case op of Ack_op i \<Rightarrow> (case sub_flight s i of None \<Rightarrow> {#} | Some e \<Rightarrow> {#e#}) | _ \<Rightarrow> {#}) + acked_events ops (sub_run op s)"

lemma enqueued_events_eq: "enqueued_events ops = mem_queue.enqueued ops"
  by (induction ops) (simp_all add: mem_queue.enqueued.simps)

lemma acked_events_eq: "acked_events ops s = mem_queue.acked ops s"
  by (induction ops arbitrary: s) (simp_all add: mem_queue.acked.simps)

text \<open>
  C23. The in-memory subscription delivers at least once: over any sequence of arrivals, fetches,
  acknowledgements, negative acknowledgements with and without delay and wake-ups of delayed events,
  what arrived is exactly what was acknowledged plus what is still queued, in flight or delayed; the
  reported metrics add up to the events still held.
\<close>

theorem subscription_keeps_events:
  assumes "s = foldl (\<lambda>s op. sub_run op s) (new_sub subj dur) ops"
  shows "enqueued_events ops = acked_events ops (new_sub subj dur) + sub_held s
    \<and> cm_pending (sub_metrics s) + cm_ack_pending (sub_metrics s) = int (size (sub_held s))"
proof -
  have "sub_inv (new_sub subj dur)" by (simp add: inv_parts new_sub_def)
  from mem_queue.balance [OF this, of ops] show ?thesis
    by (simp add: assms enqueued_events_eq acked_events_eq sub_held_def [of "new_sub _ _"] new_sub_def [of subj dur])
      (simp add: sub_metrics_def sub_held_def)
qed

definition sample_event :: stored_event where
  "sample_event = \<lparr>se_subject = ''git.changed'', se_data = ''x''\<rparr>"

theorem subscription_keeps_events_witness:
  "sub_held (foldl (\<lambda>s op. sub_run op s) (new_sub ''git.>'' ''d'')
     [Enqueue sample_event, Enqueue sample_event, Fetch 1, Nak_op 1 5, Fetch 1, Ack_op 2, Wake 1]) = {#sample_event#}"
proof -
  let ?ops = "[Enqueue sample_event, Enqueue sample_event, Fetch 1, Nak_op 1 5, Fetch 1, Ack_op 2, Wake 1]"
  have "enqueued_events ?ops = {#sample_event, sample_event#}" by simp
  moreover have "acked_events ?ops (new_sub ''git.>'' ''d'') = {#sample_event#}"
    by (simp add: new_sub_def sub_flight_def sub_fetch_def sub_enqueue_def sub_deliver_def sub_nak_def pop_flight_def Let_def)
  ultimately show ?thesis using subscription_keeps_events [OF refl, of ?ops "''git.>''" "''d''"] by simp
qed

end
