(* ===== verification/Event_Pipeline.thy ===== *)
theory Event_Pipeline
  imports Worker_Properties Outbox_Relay In_Memory_Bus
begin

section \<open>From a handler to a subscription\<close>

text \<open>
  The worker, the outbox, the relay and the in-memory bus together. A step is one delivery to any worker,
  one relay round that publishes to the bus, a new subscription, or one operation of a subscriber; steps
  interleave freely. The state carries two histories next to the components: the events that handlers
  committed, and the messages each subscription has acknowledged. The publisher of the relay, an
  argument in \<open>Outbox_Relay\<close>, is here \<open>publish_envelope\<close> of the bus.
\<close>

definition outcome_of :: "(envelope \<Rightarrow> 's \<Rightarrow> 'e + 's) \<Rightarrow> 's \<Rightarrow> envelope \<Rightarrow> publish_outcome" where
  \<comment> \<open>the exceptions of the in-memory bus are not those of the broker's payload limit\<close>
  "outcome_of publish b evt = (case publish evt b of Inl _ \<Rightarrow> Publish_error ''RuntimeError'' [] | Inr _ \<Rightarrow> Published)"

fun publish_all :: "(envelope \<Rightarrow> 's \<Rightarrow> 'e + 's) \<Rightarrow> envelope list \<Rightarrow> 's \<Rightarrow> 's" where
  \<comment> \<open>the publications of one round, up to the first that raises\<close>
  "publish_all publish [] b = b"
| "publish_all publish (evt # evts) b =
     (case publish evt b of Inl _ \<Rightarrow> b | Inr b' \<Rightarrow> publish_all publish evts b')"

definition on_sub :: "string \<times> string \<Rightarrow> (mem_sub \<Rightarrow> mem_sub) \<Rightarrow> mem_bus \<Rightarrow> mem_bus" where
  \<comment> \<open>an operation of the subscriber that holds the subscription\<close>
  "on_sub k f b = b\<lparr>mb_subs := map (\<lambda>(j, s). (j, if j = k then f s else s)) (mb_subs b)\<rparr>"

record 'b pipeline =
  pi_store :: "'b store"
  pi_bus :: mem_bus
  pi_staged :: "envelope list"
  pi_acked :: "string \<times> string \<Rightarrow> stored_event multiset"

inductive pipeline_step :: "(jdict \<Rightarrow> string) \<Rightarrow> 'b pipeline \<Rightarrow> 'b pipeline \<Rightarrow> bool" for dumps where
  worker: "pipeline_step dumps p (p\<lparr>pi_store := deliver stale spec decode x (pi_store p),
     pi_staged := pi_staged p @ (case commit_of stale spec decode (fst x) (snd x) (pi_store p) of
       None \<Rightarrow> [] | Some (_, evts, _) \<Rightarrow> evts)\<rparr>)"
| relay: "rr_publish rr = outcome_of (publish_envelope dumps) (pi_bus p) \<Longrightarrow> leased rl rr (pi_store p) = (evts, s1) \<Longrightarrow>
     run_once rl rr (pi_store p) = (res, s') \<Longrightarrow>
     pipeline_step dumps p (p\<lparr>pi_store := s', pi_bus := publish_all (publish_envelope dumps) evts (pi_bus p)\<rparr>)"
| subscribe: "bus_subscribe subj dur (pi_bus p) = Inr (s, b) \<Longrightarrow> pipeline_step dumps p (p\<lparr>pi_bus := b\<rparr>)"
| subscriber: "(k, s) \<in> set (mb_subs (pi_bus p)) \<Longrightarrow> op \<in> {Fetch n, Nak_op i n, Wake i} \<Longrightarrow>
     pipeline_step dumps p (p\<lparr>pi_bus := on_sub k (sub_run op) (pi_bus p)\<rparr>)"
| acknowledge: "(k, s) \<in> set (mb_subs (pi_bus p)) \<Longrightarrow>
     pipeline_step dumps p (p\<lparr>pi_bus := on_sub k (sub_run (Ack_op i)) (pi_bus p),
       pi_acked := (pi_acked p)(k := pi_acked p k + (case sub_flight s i of None \<Rightarrow> {#} | Some e \<Rightarrow> {#e#}))\<rparr>)"

definition pipeline_start :: "'b \<Rightarrow> 'b pipeline" where
  "pipeline_start b = \<lparr>pi_store = empty_store b, pi_bus = new_bus\<lparr>mb_connected := True\<rparr>, pi_staged = [], pi_acked = (\<lambda>_. {#})\<rparr>"

inductive pipeline_reachable :: "(jdict \<Rightarrow> string) \<Rightarrow> 'b pipeline \<Rightarrow> bool" for dumps where
  begins: "pipeline_reachable dumps (pipeline_start b)"
| goes_on: "pipeline_reachable dumps p \<Longrightarrow> pipeline_step dumps p p' \<Longrightarrow> pipeline_reachable dumps p'"

subsection \<open>What the relay relies on\<close>

text \<open>
  The contract between the relay and a broker: an accepted event is appended to the log of the broker,
  and accepting one event does not change which others are accepted.
\<close>

locale broker =
  fixes publish :: "envelope \<Rightarrow> 's \<Rightarrow> 'e + 's"
    and log :: "'s \<Rightarrow> 'm list"
    and msg :: "envelope \<Rightarrow> 'm"
  assumes logged: "publish evt b = Inr b' \<Longrightarrow> log b' = log b @ [msg evt]"
    and steady: "publish evt b = Inr b' \<Longrightarrow> isl (publish evt' b') = isl (publish evt' b)"
begin

lemma log_kept: "m \<in> set (log b) \<Longrightarrow> m \<in> set (log (publish_all publish evts b))"
  by (induction evts arbitrary: b) (auto split: sum.splits simp: logged)

lemma outcome_steady:
  assumes "publish evt b = Inr b'"
  shows "outcome_of publish b' = outcome_of publish b"
proof
  fix evt'
  show "outcome_of publish b' evt' = outcome_of publish b evt'"
    using steady [OF assms, of evt'] by (cases "publish evt' b'"; cases "publish evt' b") (simp_all add: outcome_of_def)
qed

lemma settled_logged:
  assumes "rr_publish rr = outcome_of publish b" and "i \<in> settled_ids rr evts"
  shows "\<exists>evt \<in> set evts. event_id evt = i \<and> msg evt \<in> set (log (publish_all publish evts b))"
  using assms
proof (induction evts arbitrary: b)
  case (Cons evt evts)
  show ?case
  proof (cases "publish evt b")
    case (Inl err)
    with Cons.prems show ?thesis
      by (simp add: settled_ids_def outcome_of_def is_non_retryable_def NON_RETRYABLE_PUBLISH_ERRORS_def)
  next
    case (Inr b')
    have rr: "rr_publish rr = outcome_of publish b'" using Cons.prems(1) outcome_steady [OF Inr] by simp
    from Cons.prems Inr have "i = event_id evt \<or> i \<in> settled_ids rr evts"
      by (auto simp: settled_ids_def outcome_of_def)
    then show ?thesis
    proof
      assume "i = event_id evt"
      moreover have "msg evt \<in> set (log (publish_all publish evts b'))" by (rule log_kept) (simp add: logged [OF Inr])
      ultimately show ?thesis using Inr by auto
    next
      assume "i \<in> settled_ids rr evts"
      from Cons.IH [OF rr this] Inr show ?thesis by auto
    qed
  qed
qed (simp add: settled_ids_def)

end

subsection \<open>The bus keeps its books\<close>

definition for_sub :: "string \<times> string \<Rightarrow> mem_bus \<Rightarrow> stored_event multiset" where
  \<comment> \<open>what was published for a subscription\<close>
  "for_sub k b = mset (filter (\<lambda>e. subject_matches (fst k) (se_subject e)) (mb_events b))"

definition bus_ok :: "(string \<times> string \<Rightarrow> stored_event multiset) \<Rightarrow> mem_bus \<Rightarrow> bool" where
  "bus_ok acked b \<longleftrightarrow> mb_connected b \<and> distinct (map fst (mb_subs b))
     \<and> (\<forall>k. k \<notin> fst ` set (mb_subs b) \<longrightarrow> acked k = {#})
     \<and> (\<forall>(k, s) \<in> set (mb_subs b). sub_inv s \<and> ms_subject s = fst k \<and> for_sub k b = acked k + sub_held s)"

definition message_of :: "(jdict \<Rightarrow> string) \<Rightarrow> envelope \<Rightarrow> stored_event" where
  "message_of dumps evt = \<lparr>se_subject = the (as_str (subject evt)), se_data = dumps (to_dict evt)\<rparr>"

lemma publish_effect:
  assumes "publish_envelope dumps evt b = Inr b'"
  shows "mb_events b' = mb_events b @ [message_of dumps evt]" "mb_connected b'"
    "mb_subs b' = map (\<lambda>(k, s). (k, if subject_matches (ms_subject s) (se_subject (message_of dumps evt))
       then sub_enqueue (message_of dumps evt) s else s)) (mb_subs b)"
  using assms by (auto simp: publish_envelope_def message_of_def Let_def split: if_splits option.splits)

interpretation mem_broker: broker "publish_envelope dumps" mb_events "message_of dumps" for dumps
proof (unfold_locales, goal_cases)
  case (1 evt b b')
  then show ?case by (rule publish_effect(1))
next
  case (2 evt b b' evt')
  moreover have "mb_connected b" using 2 by (simp add: publish_envelope_def split: if_splits)
  ultimately show ?case using publish_effect(2) [OF 2] by (auto simp: publish_envelope_def Let_def split: option.splits)
qed

lemma publish_bus_ok:
  assumes "bus_ok acked b" and "publish_envelope dumps evt b = Inr b'"
  shows "bus_ok acked b'"
proof -
  note eff = publish_effect [OF assms(2)]
  have fst: "map fst (mb_subs b') = map fst (mb_subs b)" by (auto simp: eff(3))
  have "sub_inv s' \<and> ms_subject s' = fst k \<and> for_sub k b' = acked k + sub_held s'" if in': "(k, s') \<in> set (mb_subs b')" for k s'
  proof -
    from in' obtain s where s: "(k, s) \<in> set (mb_subs b)"
      and s': "s' = (if subject_matches (ms_subject s) (se_subject (message_of dumps evt)) then sub_enqueue (message_of dumps evt) s else s)"
      by (auto simp: eff(3))
    from s assms(1) have "sub_inv s \<and> ms_subject s = fst k \<and> for_sub k b = acked k + sub_held s" by (auto simp: bus_ok_def)
    moreover have "ms_subject (sub_enqueue e s) = ms_subject s" for e by (simp add: sub_enqueue_def)
    ultimately show ?thesis using enqueue_inv [of s] by (simp add: s' for_sub_def eff(1))
  qed
  moreover have "fst ` set (mb_subs b') = fst ` set (mb_subs b)" using fst by (metis list.set_map)
  ultimately show ?thesis using assms(1) eff(2) fst by (auto simp: bus_ok_def)
qed

lemma publish_all_bus_ok: "bus_ok acked b \<Longrightarrow> bus_ok acked (publish_all (publish_envelope dumps) evts b)"
  by (induction evts arbitrary: b) (auto split: sum.splits dest: publish_bus_ok)

lemma replay_enqueues:
  fixes es :: "stored_event list"
  assumes "sub_inv s" and "ms_subject s = subj"
  defines "s' \<equiv> foldl (\<lambda>s e. if subject_matches subj (se_subject e) then sub_enqueue e s else s) s es"
  shows "sub_inv s' \<and> ms_subject s' = subj \<and> sub_held s' = sub_held s + mset (filter (\<lambda>e. subject_matches subj (se_subject e)) es)"
  using assms(1,2) unfolding s'_def
proof (induction es arbitrary: s)
  case (Cons e es)
  have "ms_subject (sub_enqueue e s) = ms_subject s" by (simp add: sub_enqueue_def)
  with Cons.IH [of s] Cons.IH [of "sub_enqueue e s"] Cons.prems enqueue_inv [of s e] show ?case by auto
qed simp

lemma subscribe_bus_ok:
  assumes "bus_ok acked b" and "bus_subscribe subj dur b = Inr (s, b')"
  shows "bus_ok acked b' \<and> mb_events b' = mb_events b"
proof (cases "map_of (mb_subs b) (subj, dur)")
  case None
  let ?s = "foldl (\<lambda>s e. if subject_matches subj (se_subject e) then sub_enqueue e s else s) (new_sub subj dur) (mb_events b)"
  have b': "b' = b\<lparr>mb_subs := mb_subs b @ [((subj, dur), ?s)]\<rparr>"
    using assms None by (auto simp: bus_subscribe_def Let_def split: if_splits)
  have new: "(subj, dur) \<notin> fst ` set (mb_subs b)" using None by (simp add: map_of_eq_None_iff)
  have "sub_inv (new_sub subj dur)" "ms_subject (new_sub subj dur) = subj" "sub_held (new_sub subj dur) = {#}"
    by (simp_all add: inv_parts new_sub_def sub_held_def)
  with replay_enqueues [of "new_sub subj dur" subj "mb_events b"]
  have "sub_inv ?s \<and> ms_subject ?s = subj \<and> sub_held ?s = for_sub (subj, dur) b" by (simp add: for_sub_def)
  moreover have "acked (subj, dur) = {#}" "distinct (map fst (mb_subs b'))"
    using assms(1) new by (auto simp: bus_ok_def b')
  moreover have "for_sub k b' = for_sub k b" for k by (simp add: for_sub_def b')
  ultimately show ?thesis using assms(1) by (auto simp: bus_ok_def b')
qed (use assms in \<open>auto simp: bus_subscribe_def split: if_splits\<close>)

lemma sub_run_subject: "ms_subject (sub_run op s) = ms_subject s"
proof -
  have deliver: "ms_subject (snd (deliver_list qs s)) = ms_subject s" for qs s
    by (induction qs arbitrary: s) (simp_all add: sub_deliver_def Let_def case_prod_beta)
  show ?thesis
  proof (cases op)
    case (Fetch n)
    then show ?thesis using deliver [of "take (nat n) (ms_queue s)" "s\<lparr>ms_queue := drop (nat n) (ms_queue s)\<rparr>"]
      by (auto simp: sub_fetch_def split: sum.splits if_splits prod.splits)
  qed (auto simp: sub_enqueue_def sub_ack_def sub_nak_def pop_flight_def requeue_after_def Let_def split: option.splits)
qed

lemma subscriber_bus_ok:
  assumes "bus_ok acked b" and "(k, s) \<in> set (mb_subs b)"
    and "acked k + sub_held s = acked' + sub_held (sub_run op s)"
  shows "bus_ok (acked(k := acked')) (on_sub k (sub_run op) b)"
proof -
  let ?b = "on_sub k (sub_run op) b"
  have unique: "s' = s" if "(k, s') \<in> set (mb_subs b)" for s'
    using assms(1,2) that by (auto simp: bus_ok_def dest: eq_key_imp_eq_value)
  have keys: "map fst (mb_subs ?b) = map fst (mb_subs b)" by (auto simp: on_sub_def)
  have same: "for_sub j ?b = for_sub j b" "mb_connected ?b = mb_connected b" for j by (simp_all add: for_sub_def on_sub_def)
  have subs: "sub_inv t' \<and> ms_subject t' = fst j \<and> for_sub j ?b = (acked(k := acked')) j + sub_held t'"
    if "(j, t') \<in> set (mb_subs ?b)" for j t'
  proof -
    from that obtain t where t: "(j, t) \<in> set (mb_subs b)" "t' = (if j = k then sub_run op t else t)" by (auto simp: on_sub_def)
    from t(1) assms(1) have ok: "sub_inv t \<and> ms_subject t = fst j \<and> for_sub j b = acked j + sub_held t" by (auto simp: bus_ok_def)
    show ?thesis
    proof (cases "j = k")
      case True
      with unique t(1) have "t = s" by simp
      with True t(2) ok assms(3) mem_queue.ok_run [of t op] show ?thesis by (simp add: sub_run_subject same)
    next
      case False
      with t(2) ok show ?thesis by (simp add: same)
    qed
  qed
  have "fst ` set (mb_subs ?b) = fst ` set (mb_subs b)" using keys by (metis list.set_map)
  moreover have "k \<in> fst ` set (mb_subs b)" using assms(2) by force
  ultimately have "j \<notin> fst ` set (mb_subs ?b) \<Longrightarrow> (acked(k := acked')) j = {#}" for j
    using assms(1) unfolding bus_ok_def by (metis fun_upd_apply)
  moreover have "distinct (map fst (mb_subs ?b)) \<and> mb_connected ?b" using assms(1) keys same(2) by (simp add: bus_ok_def)
  ultimately show ?thesis using subs unfolding bus_ok_def by blast
qed

subsection \<open>Nothing is lost on the way\<close>

lemma staged_rows_kept:
  "set rows \<subseteq> set (foldl stage_event rows evts)"
  "r \<in> set (foldl stage_event rows evts) \<Longrightarrow> r \<in> set rows \<or> ob_sent_at r = None"
  "event_id ` set evts \<subseteq> (\<lambda>r. event_id (ob_evt r)) ` set (foldl stage_event rows evts)"
proof -
  have one: "set rows \<subseteq> set (stage_event rows e)" "r \<in> set (stage_event rows e) \<Longrightarrow> r \<in> set rows \<or> ob_sent_at r = None"
    "event_id e \<in> (\<lambda>r. event_id (ob_evt r)) ` set (stage_event rows e)" for rows e r
    by (auto simp: stage_event_def split: if_splits)
  have keep: "set rows \<subseteq> set (foldl stage_event rows evts)" for rows evts
  proof (induction evts arbitrary: rows)
    case (Cons e evts)
    from one(1) [of rows e] Cons.IH [of "stage_event rows e"] show ?case by simp
  qed simp
  then show "set rows \<subseteq> set (foldl stage_event rows evts)" .
  show "r \<in> set (foldl stage_event rows evts) \<Longrightarrow> r \<in> set rows \<or> ob_sent_at r = None"
  proof (induction evts arbitrary: rows)
    case (Cons e evts)
    from Cons.IH [of "stage_event rows e"] Cons.prems one(2) [of r rows e] show ?case by auto
  qed simp
  show "event_id ` set evts \<subseteq> (\<lambda>r. event_id (ob_evt r)) ` set (foldl stage_event rows evts)"
  proof (induction evts arbitrary: rows)
    case (Cons e evts)
    from one(3) [of e rows] keep [of "stage_event rows e" evts] Cons.IH [of "stage_event rows e"] show ?case by auto
  qed simp
qed

definition pipeline_ok :: "(jdict \<Rightarrow> string) \<Rightarrow> 'b pipeline \<Rightarrow> bool" where
  "pipeline_ok dumps p \<longleftrightarrow> bus_ok (pi_acked p) (pi_bus p) \<and> outbox_wf (st_outbox (pi_store p))
     \<and> (\<forall>r \<in> set (st_outbox (pi_store p)). ob_sent_at r \<noteq> None \<longrightarrow> message_of dumps (ob_evt r) \<in> set (mb_events (pi_bus p)))
     \<and> event_id ` set (pi_staged p) \<subseteq> (\<lambda>r. event_id (ob_evt r)) ` set (st_outbox (pi_store p))"

lemma pipeline_okD:
  assumes "pipeline_ok dumps p"
  shows "bus_ok (pi_acked p) (pi_bus p)" "outbox_wf (st_outbox (pi_store p))"
    "\<And>r. r \<in> set (st_outbox (pi_store p)) \<Longrightarrow> ob_sent_at r \<noteq> None \<Longrightarrow> message_of dumps (ob_evt r) \<in> set (mb_events (pi_bus p))"
    "event_id ` set (pi_staged p) \<subseteq> (\<lambda>r. event_id (ob_evt r)) ` set (st_outbox (pi_store p))"
  using assms unfolding pipeline_ok_def by simp_all

lemma worker_ok:
  assumes "pipeline_ok dumps p"
  shows "pipeline_ok dumps (p\<lparr>pi_store := deliver stale spec decode x (pi_store p),
     pi_staged := pi_staged p @ (case commit_of stale spec decode (fst x) (snd x) (pi_store p) of
       None \<Rightarrow> [] | Some (_, evts, _) \<Rightarrow> evts)\<rparr>)"
proof (cases "commit_of stale spec decode (fst x) (snd x) (pi_store p)")
  case None
  have "st_outbox (deliver stale spec decode x (pi_store p)) = st_outbox (pi_store p)"
    using no_commit_no_effect [OF None] by (simp add: same_data_def)
  with assms None show ?thesis unfolding pipeline_ok_def by simp
next
  case (Some e)
  obtain k evts b where e: "e = (k, evts, b)" by (cases e)
  let ?rows = "st_outbox (pi_store p)"
  have rows: "st_outbox (deliver stale spec decode x (pi_store p)) = foldl stage_event ?rows evts"
    using commit_effect(2) [OF Some [unfolded e]] .
  note kept = staged_rows_kept [where rows = ?rows and evts = evts]
  have "outbox_wf (foldl stage_event ?rows evts)"
    using stage_events_wf [of "pi_store p" evts] assms by (simp add: pipeline_ok_def stage_events_def)
  moreover have "\<forall>r \<in> set (foldl stage_event ?rows evts). ob_sent_at r \<noteq> None \<longrightarrow>
      message_of dumps (ob_evt r) \<in> set (mb_events (pi_bus p))"
  proof (intro ballI impI)
    fix r
    assume r: "r \<in> set (foldl stage_event ?rows evts)" "ob_sent_at r \<noteq> None"
    from kept(2) [OF r(1)] r(2) have "r \<in> set ?rows" by simp
    then show "message_of dumps (ob_evt r) \<in> set (mb_events (pi_bus p))" by (rule pipeline_okD(3) [OF assms _ r(2)])
  qed
  moreover have "event_id ` set (pi_staged p @ evts) \<subseteq> (\<lambda>r. event_id (ob_evt r)) ` set (foldl stage_event ?rows evts)"
  proof -
    from order_trans [OF pipeline_okD(4) [OF assms] image_mono [OF kept(1)]] kept(3) show ?thesis by (simp only: set_append image_Un Un_least)
  qed
  ultimately show ?thesis using pipeline_okD(1) [OF assms] by (simp add: pipeline_ok_def Some e rows)
qed

lemma relay_ok:
  assumes ok: "pipeline_ok dumps p" and rr: "rr_publish rr = outcome_of (publish_envelope dumps) (pi_bus p)"
    and l: "leased rl rr (pi_store p) = (evts, s1)" and r: "run_once rl rr (pi_store p) = (res, s')"
  shows "pipeline_ok dumps (p\<lparr>pi_store := s', pi_bus := publish_all (publish_envelope dumps) evts (pi_bus p)\<rparr>)"
proof -
  let ?rows = "st_outbox (pi_store p)"
  have settle: "st_outbox s' = settle_outbox (rr_now rr) (map event_id (buried_events rr evts) @ published_ids rr evts) (st_outbox s1)"
    using run_once_outbox [OF l r] by blast
  have kept: "map ob_id (st_outbox s1) = map ob_id ?rows" "map ob_evt (st_outbox s1) = map ob_evt ?rows"
    and evts: "set evts \<subseteq> ob_evt ` set ?rows"
    using l unsent_events_keeps by (auto simp: leased_def unsent_events_def Let_def)
  have maps: "map ob_id (st_outbox s') = map ob_id ?rows" "map ob_evt (st_outbox s') = map ob_evt ?rows"
    by (simp_all add: settle settle_outbox_keeps kept)
  have wf: "outbox_wf ?rows" by (rule pipeline_okD(2) [OF ok])
  have arrived: "message_of dumps (ob_evt r') \<in> set (mb_events (publish_all (publish_envelope dumps) evts (pi_bus p)))"
    if sent: "r' \<in> set (st_outbox s')" "ob_sent_at r' \<noteq> None" for r'
  proof -
    from sent obtain i where i: "i < length ?rows" "r' = st_outbox s' ! i" using maps(1) by (metis in_set_conv_nth length_map)
    let ?r = "?rows ! i"
    have same: "ob_evt r' = ob_evt ?r" using maps(2) i by (metis length_map nth_map)
    have "ob_sent_at r' = (if event_id (ob_evt ?r) \<in> settled_ids rr evts then Some (rr_now rr) else ob_sent_at ?r)"
      using leased_rows [OF l] i by (auto simp: settle settle_outbox_def settled_ids_def)
    then consider "event_id (ob_evt ?r) \<in> settled_ids rr evts" | "ob_sent_at ?r \<noteq> None" using sent(2) by metis
    then show ?thesis
    proof cases
      case 1
      from mem_broker.settled_logged [OF rr 1] obtain evt where evt: "evt \<in> set evts" "event_id evt = event_id (ob_evt ?r)"
        "message_of dumps evt \<in> set (mb_events (publish_all (publish_envelope dumps) evts (pi_bus p)))" by blast
      moreover from evt(1) evts obtain r0 where r0: "r0 \<in> set ?rows" "evt = ob_evt r0" by blast
      moreover have "r0 = ?r"
        using wf r0 evt(2) nth_mem [OF i(1)] unfolding outbox_wf_def distinct_map inj_on_def by blast
      ultimately show ?thesis using same by simp
    next
      case 2
      with pipeline_okD(3) [OF ok nth_mem [OF i(1)]] same show ?thesis by (simp add: mem_broker.log_kept)
    qed
  qed
  have "(\<lambda>r. event_id (ob_evt r)) ` set (st_outbox s') = event_id ` set (map ob_evt (st_outbox s'))" by auto
  also have "\<dots> = (\<lambda>r. event_id (ob_evt r)) ` set ?rows" by (simp only: maps) auto
  finally show ?thesis
    using pipeline_okD(1,4) [OF ok] wf arrived outbox_wf_cong [OF maps] by (simp add: pipeline_ok_def publish_all_bus_ok)
qed

lemma pipeline_step_ok: "pipeline_step dumps p p' \<Longrightarrow> pipeline_ok dumps p \<Longrightarrow> pipeline_ok dumps p'"
proof (induction rule: pipeline_step.induct)
  case (worker p stale spec decode x)
  then show ?case by (rule worker_ok)
next
  case (relay rr p rl evts s1 res s')
  then show ?case using relay_ok by blast
next
  case (subscribe subj dur p s b)
  then show ?case using subscribe_bus_ok by (fastforce simp: pipeline_ok_def)
next
  case (subscriber k s p op n i)
  then have "sub_inv s" using pipeline_okD(1) [of dumps p] by (auto simp: bus_ok_def)
  with subscriber(2) have "sub_held (sub_run op s) = sub_held s"
    using mem_queue.held_fetch mem_queue.held_nak mem_queue.held_wake by blast
  with subscriber subscriber_bus_ok [of "pi_acked p" "pi_bus p" k s "pi_acked p k" op] show ?case
    by (auto simp: pipeline_ok_def on_sub_def)
next
  case (acknowledge k s p i)
  then have "sub_inv s" using pipeline_okD(1) [of dumps p] by (auto simp: bus_ok_def)
  from mem_queue.held_ack [OF this, of i] acknowledge subscriber_bus_ok [of "pi_acked p" "pi_bus p" k s _ "Ack_op i"] show ?case
    by (auto simp: pipeline_ok_def on_sub_def ac_simps)
qed

text \<open>
  C14. No event is lost between a handler and a subscriber. Whatever workers, relays and subscribers do,
  in any order, an event that a handler committed has its row in the outbox; that row is still pending,
  or its message was acknowledged by, or is still held for, every subscription whose pattern matches,
  also one that subscribed later. What a subscription acknowledged and holds is exactly what was
  published for it.\<close>
theorem no_event_is_lost:
  assumes "pipeline_reachable dumps p" and "evt \<in> set (pi_staged p)"
  shows "\<exists>r \<in> set (st_outbox (pi_store p)). event_id (ob_evt r) = event_id evt
    \<and> (\<forall>(k, s) \<in> set (mb_subs (pi_bus p)).
         for_sub k (pi_bus p) = pi_acked p k + sub_held s
         \<and> (subject_matches (fst k) (se_subject (message_of dumps (ob_evt r))) \<longrightarrow>
              ob_sent_at r = None \<or> message_of dumps (ob_evt r) \<in># pi_acked p k + sub_held s))"
proof -
  have ok: "pipeline_ok dumps p"
    using assms(1)
  proof induction
    case (begins b)
    then show ?case by (simp add: pipeline_ok_def bus_ok_def pipeline_start_def new_bus_def empty_store_def outbox_wf_def)
  next
    case (goes_on p p')
    then show ?case using pipeline_step_ok by blast
  qed
  with assms(2) obtain r where r: "r \<in> set (st_outbox (pi_store p))" "event_id (ob_evt r) = event_id evt"
    using pipeline_okD(4) [OF ok] by fastforce
  let ?m = "message_of dumps (ob_evt r)"
  have "for_sub k (pi_bus p) = pi_acked p k + sub_held s
      \<and> (subject_matches (fst k) (se_subject ?m) \<longrightarrow> ob_sent_at r = None \<or> ?m \<in># pi_acked p k + sub_held s)"
    if "(k, s) \<in> set (mb_subs (pi_bus p))" for k s
  proof -
    have balance: "for_sub k (pi_bus p) = pi_acked p k + sub_held s" using pipeline_okD(1) [OF ok] that by (auto simp: bus_ok_def)
    moreover have "?m \<in># for_sub k (pi_bus p)" if "subject_matches (fst k) (se_subject ?m)" "ob_sent_at r \<noteq> None"
      using pipeline_okD(3) [OF ok r(1) that(2)] that(1) by (simp add: for_sub_def)
    ultimately show ?thesis by metis
  qed
  with r show ?thesis by blast
qed

subsection \<open>A commit that reaches its subscriber\<close>

definition child_envelope :: envelope where
  "child_envelope = sample_envelope\<lparr>event_id := JStr ''e2''\<rparr>"

definition handled_delivery :: "unit delivery" where
  "handled_delivery = failing_delivery\<lparr>dv_handler := (\<lambda>_ b. Inr ([child_envelope], b))\<rparr>"

definition sample_relay :: relay where
  "sample_relay = \<lparr>rl_source = None, rl_batch = 2\<rparr>"

definition bus_round :: "mem_bus \<Rightarrow> relay_round" where
  "bus_round b = quiet_round\<lparr>rr_publish := outcome_of (publish_envelope (\<lambda>_. ''x'')) b\<rparr>"

lemma sample_commit:
  "commit_of 90 sample_spec sample_decode False handled_delivery (empty_store ()) = Some ((JStr ''e1'', ''rca-worker''), [child_envelope], ())"
  using sample_consumer
  by (simp add: commit_of_def handled_delivery_def failing_delivery_def sample_decode_def ledger_begin_def begin_event_processing_def
      claim_event_processing_def record_event_def empty_store_def) (simp add: sample_envelope_def)

lemma sample_outbox: "st_outbox (deliver 90 sample_spec sample_decode (False, handled_delivery) (empty_store ()))
   = [\<lparr>ob_id = 1, ob_evt = child_envelope, ob_lease_id = None, ob_leased_until = None, ob_sent_at = None\<rparr>]"
  using commit_effect(2) [of 90 sample_spec sample_decode "(False, handled_delivery)" "empty_store ()"] sample_commit
  by (simp add: stage_event_def next_outbox_id_def empty_store_def)

lemma sample_round:
  fixes s :: "unit store"
  assumes "st_outbox s = [\<lparr>ob_id = 1, ob_evt = child_envelope, ob_lease_id = None, ob_leased_until = None, ob_sent_at = None\<rparr>]"
    and "mb_connected b" and "run_once sample_relay (bus_round b) s = (res, s')"
  shows "st_outbox s' = [\<lparr>ob_id = 1, ob_evt = child_envelope, ob_lease_id = None, ob_leased_until = None, ob_sent_at = Some 5\<rparr>]"
proof -
  obtain s1 where l: "leased sample_relay (bus_round b) s = ([child_envelope], s1)"
    and s1: "st_outbox s1 = [\<lparr>ob_id = 1, ob_evt = child_envelope, ob_lease_id = Some ''l'', ob_leased_until = Some 65, ob_sent_at = None\<rparr>]"
    using assms(1) by (simp add: leased_def unsent_events_def claim_outbox_def outbox_available_def sample_relay_def bus_round_def
        quiet_round_def DEFAULT_OUTBOX_LEASE_SECONDS_def)
  have "published_ids (bus_round b) [child_envelope] = [JStr ''e2''] \<and> buried_events (bus_round b) [child_envelope] = []"
    using assms(2) by (simp add: bus_round_def outcome_of_def publish_envelope_def child_envelope_def sample_envelope_def Let_def)
  with run_once_outbox [OF l assms(3)] show ?thesis
    by (simp add: s1 settle_outbox_def bus_round_def quiet_round_def) (simp add: child_envelope_def)
qed

theorem no_event_is_lost_witness:
  "\<exists>(p :: unit pipeline) s. pipeline_reachable (\<lambda>_. ''x'') p \<and> pi_staged p = [child_envelope]
     \<and> mb_subs (pi_bus p) = [((''git.>'', ''d''), s)]
     \<and> message_of (\<lambda>_. ''x'') child_envelope \<in># pi_acked p (''git.>'', ''d'') + sub_held s"
proof -
  let ?dumps = "\<lambda>_. ''x''" and ?k = "(''git.>'', ''d'')" and ?x = "(False, handled_delivery)"
  let ?sub = "new_sub ''git.>'' ''d''"
  define b where "b = new_bus\<lparr>mb_connected := True, mb_subs := [(?k, ?sub)]\<rparr>"
  define p1 where "p1 = (pipeline_start ())\<lparr>pi_bus := b\<rparr>"
  have "bus_subscribe ''git.>'' ''d'' (pi_bus (pipeline_start ())) = Inr (?sub, b)"
    by (simp add: bus_subscribe_def pipeline_start_def new_bus_def b_def Let_def)
  then have r1: "pipeline_reachable ?dumps p1"
    unfolding p1_def by (rule pipeline_reachable.goes_on [OF pipeline_reachable.begins pipeline_step.subscribe])
  define s2 where "s2 = deliver 90 sample_spec sample_decode ?x (empty_store ())"
  have p1: "pi_store p1 = empty_store ()" "pi_bus p1 = b" "pi_staged p1 = []" by (simp_all add: p1_def pipeline_start_def)
  define p2 where "p2 = p1\<lparr>pi_store := s2, pi_staged := [child_envelope]\<rparr>"
  have r2: "pipeline_reachable ?dumps p2"
    using pipeline_reachable.goes_on [OF r1 pipeline_step.worker [of ?dumps p1 90 sample_spec sample_decode ?x]]
    by (simp add: p1 sample_commit p2_def s2_def)
  have p2: "pi_store p2 = s2" "pi_bus p2 = b" by (simp_all add: p2_def p1)
  obtain evts s1 where l: "leased sample_relay (bus_round b) s2 = (evts, s1)" by fastforce
  obtain res s3 where run: "run_once sample_relay (bus_round b) s2 = (res, s3)" by fastforce
  define p3 where "p3 = p2\<lparr>pi_store := s3, pi_bus := publish_all (publish_envelope ?dumps) evts b\<rparr>"
  have rr: "rr_publish (bus_round b) = outcome_of (publish_envelope ?dumps) (pi_bus p2)" by (simp add: bus_round_def p2)
  have r3: "pipeline_reachable ?dumps p3"
    using pipeline_reachable.goes_on [OF r2 pipeline_step.relay [OF rr]] l run by (simp add: p2 p3_def)
  have sent: "st_outbox (pi_store p3) = [\<lparr>ob_id = 1, ob_evt = child_envelope, ob_lease_id = None, ob_leased_until = None, ob_sent_at = Some 5\<rparr>]"
    using sample_round [OF sample_outbox _ run [unfolded s2_def]] by (simp add: p3_def b_def)
  have keys: "map fst (mb_subs (publish_all (publish_envelope ?dumps) evts b)) = map fst (mb_subs b)" for evts b
    by (induction evts arbitrary: b) (auto split: sum.splits simp: publish_effect(3) comp_def case_prod_beta)
  from keys [of evts b] obtain s where subs: "mb_subs (pi_bus p3) = [(?k, s)]" by (auto simp: p3_def b_def)
  have staged: "pi_staged p3 = [child_envelope]" by (simp add: p3_def p2_def)
  have "subject_matches ''git.>'' (se_subject (message_of ?dumps child_envelope))" by code_simp
  with no_event_is_lost [OF r3, of child_envelope] staged sent subs
  have "message_of ?dumps child_envelope \<in># pi_acked p3 ?k + sub_held s" by simp
  with r3 staged subs show ?thesis by blast
qed

end
