(* ===== verification/Worker_Machine.thy ===== *)
theory Worker_Machine
  imports Worker_Properties
begin

section \<open>Interleaved workers\<close>

text \<open>
  Replicas of the workers share the tables. Claiming an event commits by itself
  (\<open>ledger_begin\<close>), then the handler runs, and its outcome is written by \<open>handle_claimed\<close> in a later
  transaction: between the two, other workers may claim, settle or crash. This theory is the
  step relation of that interleaving. A holder is a worker between its claim and its outcome, and
  time advances only as far as every holder stays within \<open>limit\<close> of its claim, the time the
  timeouts of \<^verbatim>\<open>EventProcessor.process\<close> allow. When \<open>limit\<close> does not exceed the freshness window
  \<open>stale\<close> of a claim, no event has two holders and none takes effect twice
  (\<open>workers_exclude_each_other\<close>); the window between the two is where it fails
  (\<open>slow_capture_overlaps\<close>: the start-up check compares the window with the handler's timeout only,
  not with the timeout of the dead-letter capture that follows it).
\<close>

subsection \<open>States and steps\<close>

record holder =
  h_evt :: envelope
  h_consumer :: string
  h_attempts :: int
  h_since :: int

definition h_key :: "holder \<Rightarrow> event_key" where
  "h_key h = (event_id (h_evt h), h_consumer h)"

record 'b machine =
  m_clock :: int
  m_store :: "'b store"
  m_holders :: "holder list"
  m_commits :: "event_key list"

definition commits_now :: "'b delivery \<Rightarrow> envelope \<Rightarrow> 'b store \<Rightarrow> bool" where
  \<comment> \<open>the handler returned and its transaction commits\<close>
  "commits_now d evt s \<longleftrightarrow> (case dv_handler d evt (st_business s) of Inl _ \<Rightarrow> False | Inr _ \<Rightarrow> dv_commit d = None)"

inductive step :: "int \<Rightarrow> int \<Rightarrow> 'b machine \<Rightarrow> 'b machine \<Rightarrow> bool" for stale limit where
  tick: "m_clock m \<le> t \<Longrightarrow> \<forall>h \<in> set (m_holders m). t \<le> h_since h + limit \<Longrightarrow>
     step stale limit m (m\<lparr>m_clock := t\<rparr>)"
| claim: "ledger_begin stale (m_clock m) c evt (m_store m) = (r, s) \<Longrightarrow> rec_status r = Stored PROCESSING \<Longrightarrow>
     step stale limit m (m\<lparr>m_store := s, m_holders := m_holders m @
       [\<lparr>h_evt = evt, h_consumer = c, h_attempts = rec_attempts r, h_since = m_clock m\<rparr>]\<rparr>)"
| refuse: "ledger_begin stale (m_clock m) c evt (m_store m) = (r, s) \<Longrightarrow> rec_status r \<noteq> Stored PROCESSING \<Longrightarrow>
     step stale limit m (m\<lparr>m_store := s\<rparr>)"
| settle: "m_holders m = hs @ h # hs' \<Longrightarrow> dv_claim_at d = h_since h \<Longrightarrow> dv_done_at d = m_clock m \<Longrightarrow>
     handle_claimed spec d (h_evt h) (h_consumer h) (h_attempts h) (m_store m) = (answered, s) \<Longrightarrow>
     step stale limit m (m\<lparr>m_store := s, m_holders := hs @ hs',
       m_commits := m_commits m @ (if commits_now d (h_evt h) (m_store m) then [h_key h] else [])\<rparr>)"
| crash: "m_holders m = hs @ h # hs' \<Longrightarrow> step stale limit m (m\<lparr>m_holders := hs @ hs'\<rparr>)"

inductive reachable :: "int \<Rightarrow> int \<Rightarrow> 'b store \<Rightarrow> 'b machine \<Rightarrow> bool" for stale limit s0 where
  start: "reachable stale limit s0 \<lparr>m_clock = t, m_store = s0, m_holders = [], m_commits = []\<rparr>"
| next_step: "reachable stale limit s0 m \<Longrightarrow> step stale limit m m' \<Longrightarrow> reachable stale limit s0 m'"

subsection \<open>The rows of other events\<close>

lemma closing_rows:
  "k \<noteq> (event_id e, c) \<Longrightarrow> st_processing (ledger_finish now c e d s) k = st_processing s k"
  "k \<noteq> (event_id e, c) \<Longrightarrow> st_processing (ledger_retry now c e er d s) k = st_processing s k"
  "k \<noteq> (event_id e, c) \<Longrightarrow> st_processing (ledger_dead_letter now c e er d s) k = st_processing s k"
  by (simp_all add: closing_defs update_processing_row)

lemma fail_rows:
  assumes "fail spec d evt c err n s = (r, s')" "k \<noteq> (event_id evt, c)"
  shows "st_processing s' k = st_processing s k"
proof -
  let ?cap = "capture (dv_capture d) (dv_done_at d) (dv_ctx d) (service_name spec) (dv_created d) evt c err n s"
  obtain ok s1 where cap: "?cap = (ok, s1)" by (cases ?cap)
  have "st_processing s1 = st_processing s" using capture_frame(1) by (metis cap snd_conv)
  then show ?thesis
    using assms cap by (auto simp: fail_def Let_def closing_rows split: if_splits)
qed

lemma handle_claimed_rows:
  assumes "handle_claimed spec d evt c n s = (r, s')" "k \<noteq> (event_id evt, c)"
  shows "st_processing s' k = st_processing s k"
  using assms fail_rows [of spec d evt c _ n s r s' k]
  by (auto simp: handle_claimed_def closing_rows stage_events_def split: sum.splits option.splits)

lemma handle_claimed_commits:
  assumes "handle_claimed spec d evt c n s = (r, s')" "view s (event_id evt, c) = Some (PROCESSING, n)"
  shows "commits_now d evt s \<Longrightarrow> view s' (event_id evt, c) = Some (PROCESSED, n)"
  using assms by (auto simp: handle_claimed_def commits_now_def closing_view split: sum.splits prod.splits)

lemma ledger_begin_rows:
  assumes "ledger_begin stale now c evt s = (r, s1)"
  shows "k \<noteq> (event_id evt, c) \<Longrightarrow> st_processing s1 k = st_processing s k"
    "rec_status r \<noteq> Stored PROCESSING \<Longrightarrow> st_processing s1 = st_processing s"
    "rec_status r = Stored PROCESSING \<Longrightarrow> (\<exists>row. st_processing s1 (event_id evt, c) = Some row
        \<and> pr_status row = PROCESSING \<and> pr_attempts row = rec_attempts r \<and> pr_updated_at row = now)
      \<and> (\<forall>row. st_processing s (event_id evt, c) = Some row \<longrightarrow> claimable stale now row)"
  using assms
  by (auto simp: ledger_begin_def begin_event_processing_def claim_event_processing_def get_event_processing_def
      split: option.splits prod.splits if_splits)

subsection \<open>The invariant\<close>

definition holds_row :: "'b store \<Rightarrow> holder \<Rightarrow> bool" where
  "holds_row s h \<longleftrightarrow> (\<exists>row. st_processing s (h_key h) = Some row \<and> pr_status row = PROCESSING
     \<and> pr_attempts row = h_attempts h \<and> pr_updated_at row = h_since h)"

definition committed_row :: "'b store \<Rightarrow> event_key \<Rightarrow> bool" where
  "committed_row s k \<longleftrightarrow> (\<exists>row. st_processing s k = Some row \<and> pr_status row = PROCESSED)"

definition inv :: "int \<Rightarrow> 'b machine \<Rightarrow> bool" where
  "inv limit m \<longleftrightarrow> distinct (map h_key (m_holders m))
     \<and> (\<forall>h \<in> set (m_holders m). holds_row (m_store m) h \<and> m_clock m \<le> h_since h + limit)
     \<and> distinct (m_commits m) \<and> (\<forall>k \<in> set (m_commits m). committed_row (m_store m) k)"

lemma holds_view: "holds_row s h \<Longrightarrow> view s (h_key h) = Some (PROCESSING, h_attempts h)"
  by (auto simp: holds_row_def view_def)

lemma committed_view: "committed_row s k \<longleftrightarrow> (\<exists>n. view s k = Some (PROCESSED, n))"
  by (auto simp: committed_row_def view_def)

lemma rows_cong:
  assumes "st_processing s' k = st_processing s k"
  shows "h_key h = k \<Longrightarrow> holds_row s' h \<longleftrightarrow> holds_row s h" "committed_row s' k \<longleftrightarrow> committed_row s k"
  using assms by (auto simp: holds_row_def committed_row_def)

lemma holder_not_committed: "holds_row s h \<Longrightarrow> \<not> committed_row s (h_key h)"
  by (auto simp: holds_row_def committed_row_def)

lemma not_claimable: "claimable stale now row \<Longrightarrow> limit \<le> stale \<Longrightarrow> pr_status row = PROCESSING \<Longrightarrow>
    \<not> now \<le> pr_updated_at row + limit"
  by (auto simp: claimable_def)

lemma inv_claim:
  assumes inv: "inv limit m" and wait: "limit \<le> stale" "0 \<le> limit"
    and beg: "ledger_begin stale (m_clock m) c evt (m_store m) = (r, s)" "rec_status r = Stored PROCESSING"
  shows "inv limit (m\<lparr>m_store := s, m_holders := m_holders m @
       [\<lparr>h_evt = evt, h_consumer = c, h_attempts = rec_attempts r, h_since = m_clock m\<rparr>]\<rparr>)"
proof -
  let ?k = "(event_id evt, c)"
  let ?h = "\<lparr>h_evt = evt, h_consumer = c, h_attempts = rec_attempts r, h_since = m_clock m\<rparr>"
  note rows = ledger_begin_rows [OF beg(1)]
  have free: "?k \<notin> h_key ` set (m_holders m)"
  proof
    assume "?k \<in> h_key ` set (m_holders m)"
    then obtain h row where "h \<in> set (m_holders m)" "st_processing (m_store m) ?k = Some row"
        "pr_status row = PROCESSING" "pr_updated_at row = h_since h"
      using inv by (auto simp: inv_def holds_row_def)
    moreover from this have "claimable stale (m_clock m) row" using rows(3) [OF beg(2)] by blast
    ultimately show False using inv wait(1) not_claimable unfolding inv_def by metis
  qed
  have open_key: "\<not> committed_row (m_store m) ?k"
    using rows(3) [OF beg(2)] by (auto simp: committed_row_def claimable_def TERMINAL_STATUSES_def)
  have "holds_row s ?h" using rows(3) [OF beg(2)] by (auto simp: holds_row_def h_key_def)
  moreover have "holds_row s h" if "h \<in> set (m_holders m)" for h
    using that free inv rows_cong(1) [OF rows(1)] unfolding inv_def by (metis imageI)
  moreover have "committed_row s k" if "k \<in> set (m_commits m)" for k
    using that open_key inv rows_cong(2) [OF rows(1)] unfolding inv_def by metis
  ultimately show ?thesis
    using inv free wait(2) by (auto simp: inv_def h_key_def)
qed

lemma inv_settle:
  assumes inv: "inv limit m" and hs: "m_holders m = hs @ h # hs'"
    and run: "handle_claimed spec d (h_evt h) (h_consumer h) (h_attempts h) (m_store m) = (answered, s)"
  shows "inv limit (m\<lparr>m_store := s, m_holders := hs @ hs',
       m_commits := m_commits m @ (if commits_now d (h_evt h) (m_store m) then [h_key h] else [])\<rparr>)"
proof -
  have h: "holds_row (m_store m) h" and fresh: "h_key h \<notin> h_key ` set (hs @ hs')"
    using inv by (auto simp: inv_def hs)
  have other: "k \<noteq> h_key h \<Longrightarrow> st_processing s k = st_processing (m_store m) k" for k
    using handle_claimed_rows [OF run] by (simp add: h_key_def)
  have "holds_row s x" if "x \<in> set (hs @ hs')" for x
    using that fresh inv rows_cong(1) [OF other] unfolding inv_def hs by (metis imageI in_set_conv_decomp_first Un_iff set_append list.set_intros(2))
  moreover have closed: "h_key h \<notin> set (m_commits m)"
    using inv holder_not_committed [OF h] by (auto simp: inv_def)
  moreover have "committed_row s k" if "k \<in> set (m_commits m)" for k
    using that closed inv rows_cong(2) [OF other] unfolding inv_def by metis
  moreover have "committed_row s (h_key h)" if "commits_now d (h_evt h) (m_store m)"
    using handle_claimed_commits [OF run _ that] holds_view [OF h] by (simp add: committed_view h_key_def)
  ultimately show ?thesis using inv by (auto simp: inv_def hs)
qed

lemma inv_step:
  assumes "step stale limit m m'" "limit \<le> stale" "0 \<le> limit" "inv limit m"
  shows "inv limit m'"
  using assms
proof (cases rule: step.cases)
  case (refuse c evt r s)
  then have "st_processing s = st_processing (m_store m)" using ledger_begin_rows(2) by blast
  with assms(4) refuse show ?thesis by (auto simp: inv_def holds_row_def committed_row_def)
qed (auto simp: inv_claim inv_settle, auto simp: inv_def)

text \<open>
  C36. Workers exclude each other. In every interleaving of claims, refusals, outcomes, crashes and
  passing time in which no worker takes longer than the freshness window of a claim, an event has at
  most one holder per consumer, and takes effect at most once per consumer; whatever has taken
  effect is recorded as processed.
\<close>
theorem workers_exclude_each_other:
  assumes "reachable stale limit s0 m" and "limit \<le> stale" "0 \<le> limit"
  shows "distinct (map h_key (m_holders m)) \<and> distinct (m_commits m)
     \<and> (\<forall>k \<in> set (m_commits m). \<exists>n. view (m_store m) k = Some (PROCESSED, n))"
proof -
  have "inv limit m"
    using assms(1)
  proof induction
    case (next_step m m')
    then show ?case using inv_step assms(2,3) by blast
  qed (simp add: inv_def)
  then show ?thesis by (simp add: inv_def committed_view)
qed

subsection \<open>Examples\<close>

lemma claim_granted:
  fixes evt :: envelope
  assumes "reachable stale limit s0 m"
    and "\<forall>row. st_processing (m_store m) (event_id evt, c) = Some row \<longrightarrow> claimable stale (m_clock m) row"
  obtains m' h where "reachable stale limit s0 m'" "m_holders m' = m_holders m @ [h]" "h_key h = (event_id evt, c)"
    "m_clock m' = m_clock m" "h_since h = m_clock m"
    "\<exists>row. st_processing (m_store m') (event_id evt, c) = Some row \<and> pr_status row = PROCESSING
       \<and> pr_updated_at row = m_clock m"
proof -
  obtain r s where beg: "ledger_begin stale (m_clock m) c evt (m_store m) = (r, s)" by fastforce
  have ok: "rec_status r = Stored PROCESSING"
    using beg assms(2)
    by (auto simp: ledger_begin_def begin_event_processing_def claim_event_processing_def split: option.splits)
  let ?h = "\<lparr>h_evt = evt, h_consumer = c, h_attempts = rec_attempts r, h_since = m_clock m\<rparr>"
  from reachable.next_step [OF assms(1) step.claim [OF beg ok]] ledger_begin_rows(3) [OF beg ok]
  show thesis by (intro that [of "m\<lparr>m_store := s, m_holders := m_holders m @ [?h]\<rparr>" ?h]) (auto simp: h_key_def)
qed

theorem workers_exclude_each_other_witness:
  "\<exists>m. reachable 90 40 (empty_store ()) m \<and> m_holders m \<noteq> [] \<and> distinct (map h_key (m_holders m))"
proof -
  obtain m h where m: "reachable 90 40 (empty_store ()) m" "m_holders m = [] @ [h]"
    by (rule claim_granted [OF reachable.start [of 90 40 "empty_store ()" 0], of sample_envelope "''w''"])
       (simp_all add: empty_store_def)
  with workers_exclude_each_other [OF m(1)] show ?thesis by auto
qed

lemma slow_capture_overlaps:
  \<comment> \<open>a handler timeout of 60, an acknowledgement window of 80 and a freshness window of 90 seconds pass
    the start-up check; with 40 seconds to capture a dead letter two workers hold the same event\<close>
  "validate_event_timing_contract 60 80 90 = Inr ()
   \<and> (\<exists>m. reachable 90 (60 + 40) (empty_store ()) m \<and> \<not> distinct (map h_key (m_holders m)))"
proof
  show "validate_event_timing_contract 60 80 90 = Inr ()" by (simp add: validate_event_timing_contract_def)
  let ?k = "(event_id sample_envelope, ''w'')"
  obtain m h where m: "reachable 90 (60 + 40) (empty_store ()) m" "m_holders m = [] @ [h]" "h_key h = ?k"
      "m_clock m = 0" "h_since h = 0"
      "\<exists>row. st_processing (m_store m) ?k = Some row \<and> pr_status row = PROCESSING \<and> pr_updated_at row = 0"
    by (rule claim_granted [OF reachable.start [of 90 "60 + 40" "empty_store ()" 0], of sample_envelope "''w''"])
       (simp_all add: empty_store_def)
  let ?m = "m\<lparr>m_clock := 95\<rparr>"
  have "reachable 90 (60 + 40) (empty_store ()) ?m"
    by (rule reachable.next_step [OF m(1)], rule step.tick) (use m in auto)
  then obtain m' h' where "reachable 90 (60 + 40) (empty_store ()) m'" "m_holders m' = m_holders ?m @ [h']" "h_key h' = ?k"
    by (rule claim_granted [of 90 _ _ ?m sample_envelope "''w''"]) (use m(6) in \<open>auto simp: claimable_def TERMINAL_STATUSES_def\<close>)
  with m(2,3) show "\<exists>m. reachable 90 (60 + 40) (empty_store ()) m \<and> \<not> distinct (map h_key (m_holders m))"
    by (intro exI [of _ m']) simp
qed

end
