(* ===== verification/Cause_Signals.thy ===== *)
theory Cause_Signals
  imports Json_Value
begin

section \<open>Signals of an evidence bundle\<close>

text \<open>
  \<^verbatim>\<open>services/ai/agent/causes/signals.py\<close> and the evidence values of \<^verbatim>\<open>domains/rca/events.py\<close> it
  reads. A bundle is reduced to facts, log lines and event texts; a discriminating signal group
  of a cause candidate is matched against them. The collector the Python functions mutate is
  passed and returned. An exit code that is an infinite float raises OverflowError from
  \<^verbatim>\<open>int\<close>, which the code does not catch: the collecting functions return a sum.

  The lemmas characterise matching (\<open>match_one_cases\<close>, \<open>split_signal_groups_partition\<close>) and show
  that evidence is only ever added to the collector, so that a larger bundle never loses a match
  (\<open>match_signal_group_mono\<close>, \<open>extract_bundle_signals_append\<close>).
\<close>

subsection \<open>Evidence\<close>

record evidence_reference =
  rf_evidence_ref :: string
  rf_source :: string
  rf_name :: string
  rf_check_id :: string
  rf_summary :: string
  rf_query :: "string option"

record evidence_item =
  it_source :: string
  it_name :: string
  it_value :: jdict
  it_summary :: string
  it_evidence_ref :: string
  it_check_id :: string
  it_query :: "string option"

definition item_ref :: "evidence_item \<Rightarrow> evidence_reference" where
  \<comment> \<open>\<^verbatim>\<open>EvidenceItem.reference\<close>\<close>
  "item_ref i =
     \<lparr>rf_evidence_ref = it_evidence_ref i, rf_source = it_source i, rf_name = it_name i,
      rf_check_id = it_check_id i, rf_summary = it_summary i, rf_query = it_query i\<rparr>"

subsection \<open>Collecting\<close>

record bundle_signals =
  facts :: "string list"
  log_lines :: "string list"
  event_texts :: "string list"

definition no_signals :: bundle_signals where
  "no_signals = \<lparr>facts = [], log_lines = [], event_texts = []\<rparr>"

definition add_fact :: "string \<Rightarrow> bundle_signals \<Rightarrow> bundle_signals" where
  \<comment> \<open>\<^verbatim>\<open>collector.facts.add(fact)\<close>\<close>
  "add_fact f c = c\<lparr>facts := List.insert f (facts c)\<rparr>"

definition dict_items :: "json \<Rightarrow> jdict list" where
  "dict_items v = (case v of JList xs \<Rightarrow> List.map_filter as_dict xs | _ \<Rightarrow> [])"

definition text_items :: "json \<Rightarrow> string list" where
  "text_items v = (case v of JList xs \<Rightarrow> map py_str (filter truthy xs) | _ \<Rightarrow> [])"

definition OOM_EXIT_CODE :: int where
  "OOM_EXIT_CODE = 137"

definition FACT_EXIT_CODE_NON_OOM :: string where
  "FACT_EXIT_CODE_NON_OOM = ''exit_code=non_oom''"

definition add_exit_code_fact :: "jdict \<Rightarrow> string \<Rightarrow> bundle_signals \<Rightarrow> py_exn + bundle_signals" where
  \<comment> \<open>the body of the loop over the two keys\<close>
  "add_exit_code_fact container key c =
     (case dget container key of
        JNull \<Rightarrow> Inr c
      | JBool _ \<Rightarrow> Inr c
      | raw \<Rightarrow>
         (case py_int raw of
            Inl TypeError \<Rightarrow> Inr c
          | Inl ValueError \<Rightarrow> Inr c
          | Inl e \<Rightarrow> Inl e
          | Inr code \<Rightarrow>
             (let c1 = add_fact (''exit_code='' @ int_str code) c
              in Inr (if code \<notin> {0, OOM_EXIT_CODE} then add_fact FACT_EXIT_CODE_NON_OOM c1 else c1))))"

definition add_exit_code_facts :: "jdict \<Rightarrow> bundle_signals \<Rightarrow> py_exn + bundle_signals" where
  "add_exit_code_facts container =
     foldE (add_exit_code_fact container) [''exit_code'', ''last_exit_code'']"

definition add_label_fact :: "string \<times> json \<Rightarrow> bundle_signals \<Rightarrow> bundle_signals" where
  \<comment> \<open>the body of the loop over the labels of a pod\<close>
  "add_label_fact = (\<lambda>(raw_key, raw_value) c.
     let key = py_strip raw_key; label_value = py_strip (py_str raw_value)
     in if key \<noteq> [] \<and> label_value \<noteq> []
        then add_fact (''pod_label:'' @ key @ ''='' @ label_value) c else c)"

definition collect_pod :: "jdict \<Rightarrow> bundle_signals \<Rightarrow> py_exn + bundle_signals" where
  \<comment> \<open>the body of the loop over the pods\<close>
  "collect_pod pod c =
     (let c1 = (case dget pod ''labels'' of JDict labels \<Rightarrow> fold add_label_fact labels c | _ \<Rightarrow> c);
          c2 = fold (\<lambda>r. add_fact (''waiting_reason='' @ r)) (text_items (dget pod ''waiting_reasons'')) c1;
          c3 = fold (\<lambda>r. add_fact (''terminated_reason='' @ r))
                 (text_items (dget pod ''terminated_reasons'')) c2
      in foldE add_exit_code_facts (dict_items (dget pod ''containers'')) c3)"

definition collect_event :: "jdict \<Rightarrow> bundle_signals \<Rightarrow> bundle_signals" where
  \<comment> \<open>the body of the loop over the events\<close>
  "collect_event event c =
     (let reason = py_strip (py_str (py_or (dget event ''reason'') (JStr [])));
          message = py_strip (py_str (py_or (dget event ''message'') (JStr [])));
          c1 = (if reason \<noteq> [] then add_fact (''event_reason='' @ reason) c else c)
      in if reason \<noteq> [] \<or> message \<noteq> []
         then c1\<lparr>event_texts := event_texts c1 @ [py_strip (reason @ '' '' @ message)]\<rparr> else c1)"

definition collect_kubernetes_signals :: "jdict \<Rightarrow> bundle_signals \<Rightarrow> py_exn + bundle_signals" where
  "collect_kubernetes_signals v c =
     bindE (foldE collect_pod (dict_items (dget v ''pods'')) c)
       (\<lambda>c1. Inr (fold collect_event (dict_items (dget v ''events'')) c1))"

definition line_of :: "jdict \<Rightarrow> string list" where
  \<comment> \<open>\<^verbatim>\<open>line = entry.get("line"); if isinstance(line, str) and line\<close>\<close>
  "line_of entry = (case dget entry ''line'' of JStr l \<Rightarrow> if l \<noteq> [] then [l] else [] | _ \<Rightarrow> [])"

definition collect_log_lines :: "jdict \<Rightarrow> bundle_signals \<Rightarrow> bundle_signals" where
  "collect_log_lines v c =
     fold (\<lambda>entry c. c\<lparr>log_lines := log_lines c @ line_of entry
            @ concat (map (\<lambda>stream. concat (map line_of (dict_items (dget stream ''values''))))
                (dict_items (dget entry ''streams'')))\<rparr>)
       (dict_items (dget v ''entries'')) c"

definition collect_alert :: "jdict \<Rightarrow> bundle_signals \<Rightarrow> bundle_signals" where
  \<comment> \<open>the body of the loop over the alerts\<close>
  "collect_alert alert c =
     (if py_str (py_or (dget alert ''status'') (JStr ''firing'')) \<noteq> ''firing'' then c
      else case dget alert ''labels'' of
             JDict labels \<Rightarrow>
               (let name = py_strip (py_str (py_or (dget labels ''alertname'') (JStr [])))
                in if name \<noteq> [] then add_fact (''alert_name='' @ name) c else c)
           | _ \<Rightarrow> c)"

definition collect_alert_facts :: "jdict \<Rightarrow> bundle_signals \<Rightarrow> bundle_signals" where
  "collect_alert_facts v c =
     (case dget v ''alertmanager'' of
        JDict alertmanager \<Rightarrow> fold collect_alert (dict_items (dget alertmanager ''alerts'')) c
      | _ \<Rightarrow> c)"

definition collect_item :: "evidence_item \<Rightarrow> bundle_signals \<Rightarrow> py_exn + bundle_signals" where
  \<comment> \<open>the body of the loop over the items\<close>
  "collect_item i c =
     (if it_source i = ''kubernetes'' then collect_kubernetes_signals (it_value i) c
      else if it_source i = ''logs'' then Inr (collect_log_lines (it_value i) c)
      else if it_source i = ''metrics'' then Inr (collect_alert_facts (it_value i) c)
      else Inr c)"

definition extract_bundle_signals :: "evidence_item list \<Rightarrow> py_exn + bundle_signals" where
  "extract_bundle_signals items = foldE collect_item items no_signals"

subsection \<open>Matching\<close>

definition match_one :: "jdict \<Rightarrow> bundle_signals \<Rightarrow> bool" where
  "match_one matcher signals =
     (case as_str (dget matcher ''fact'') of
        Some f \<Rightarrow> f \<in> set (facts signals)
      | None \<Rightarrow>
     (case as_str (dget matcher ''log_pattern'') of
        Some p \<Rightarrow> list_ex (\<lambda>line. sublist (py_casefold p) (py_casefold line)) (log_lines signals)
      | None \<Rightarrow>
     (case as_str (dget matcher ''event_pattern'') of
        Some p \<Rightarrow> list_ex (\<lambda>t. sublist (py_casefold p) (py_casefold t)) (event_texts signals)
      | None \<Rightarrow> False)))"

definition match_signal_group :: "bundle_signals \<Rightarrow> jdict \<Rightarrow> bool" where
  "match_signal_group signals grp =
     (case as_list (dget grp ''any_of'') of
        Some matchers \<Rightarrow>
          list_ex (\<lambda>m. case as_dict m of Some d \<Rightarrow> match_one d signals | None \<Rightarrow> False) matchers
      | None \<Rightarrow> False)"

fun split_signal_groups :: "jdict list \<Rightarrow> bundle_signals \<Rightarrow> jdict list \<times> jdict list" where
  "split_signal_groups [] signals = ([], [])"
| "split_signal_groups (grp # groups) signals =
     (let (matched, unmatched) = split_signal_groups groups signals
      in if match_signal_group signals grp then (grp # matched, unmatched)
         else (matched, grp # unmatched))"

definition signal_group_id :: "jdict \<Rightarrow> string" where
  "signal_group_id grp = py_str (py_or (dget grp ''id'') (JStr ''unnamed''))"

definition signal_missing_token :: "jdict \<Rightarrow> string" where
  "signal_missing_token grp = ''signal:'' @ signal_group_id grp"

definition MATCHER_KEYS :: "string list" where
  "MATCHER_KEYS = [''fact'', ''log_pattern'', ''event_pattern'']"

fun py_iter :: "json \<Rightarrow> py_exn + json list" where
  \<comment> \<open>\<^verbatim>\<open>for x in v\<close>: a str yields its characters, a mapping its keys\<close>
  "py_iter (JList xs) = Inr xs"
| "py_iter (JStr s) = Inr (map (\<lambda>c. JStr [c]) s)"
| "py_iter (JDict d) = Inr (map (\<lambda>kv. JStr (fst kv)) d)"
| "py_iter _ = Inl TypeError"

definition matcher_parts :: "jdict \<Rightarrow> string list" where
  \<comment> \<open>the loop over the matcher keys\<close>
  "matcher_parts m = concat (map (\<lambda>key. case dget m key of
     JStr value \<Rightarrow> [key @ '':'' @ value] | _ \<Rightarrow> []) MATCHER_KEYS)"

definition describe_signal_group :: "jdict \<Rightarrow> py_exn + string option" where
  \<comment> \<open>None stands for the fixed text that no matcher is defined\<close>
  "describe_signal_group grp =
     bindE (py_iter (py_or (dget grp ''any_of'') (JList []))) (\<lambda>matchers.
     let parts = concat (map matcher_parts (List.map_filter as_dict matchers))
     in Inr (if parts \<noteq> [] then Some (py_join '' | '' parts) else None))"

subsection \<open>Matching, characterised\<close>

lemma split_signal_groups_eq:
  "split_signal_groups groups signals =
     (filter (match_signal_group signals) groups, filter (\<lambda>g. \<not> match_signal_group signals g) groups)"
  by (induction groups) auto

lemma split_signal_groups_count:
  "split_signal_groups groups signals = (matched, unmatched) \<Longrightarrow>
     length matched + length unmatched = length groups"
  by (simp add: split_signal_groups_eq sum_length_filter_compl)
     (metis sum_length_filter_compl)

definition signals_le :: "bundle_signals \<Rightarrow> bundle_signals \<Rightarrow> bool" where
  "signals_le a b \<longleftrightarrow> set (facts a) \<subseteq> set (facts b) \<and> set (log_lines a) \<subseteq> set (log_lines b)
     \<and> set (event_texts a) \<subseteq> set (event_texts b)"

lemma signals_le_refl [simp]: "signals_le a a"
  by (simp add: signals_le_def)

lemma signals_le_trans: "signals_le a b \<Longrightarrow> signals_le b c \<Longrightarrow> signals_le a c"
  by (auto simp: signals_le_def)

lemma match_one_mono: "signals_le a b \<Longrightarrow> match_one m a \<Longrightarrow> match_one m b"
  by (auto simp: match_one_def signals_le_def list_ex_iff split: option.splits)

lemma match_signal_group_mono:
  "signals_le a b \<Longrightarrow> match_signal_group a g \<Longrightarrow> match_signal_group b g"
  by (auto simp: match_signal_group_def list_ex_iff intro: match_one_mono split: option.splits)

subsection \<open>Collecting only adds\<close>

lemma fold_signals_le:
  "(\<And>x c. signals_le c (f x c)) \<Longrightarrow> signals_le c (fold f xs c)"
  by (induction xs arbitrary: c) (auto intro: signals_le_trans)

lemma foldE_signals_le:
  assumes step: "\<And>x c c'. f x c = Inr c' \<Longrightarrow> signals_le c c'"
  shows "foldE f xs c = Inr c' \<Longrightarrow> signals_le c c'"
proof (induction xs arbitrary: c)
  case (Cons x xs)
  then obtain c1 where "f x c = Inr c1" "foldE f xs c1 = Inr c'" by auto
  then show ?case using Cons.IH step signals_le_trans by blast
qed simp

lemma add_fact_le: "signals_le c d \<Longrightarrow> signals_le c (add_fact f d)"
  by (auto simp: signals_le_def add_fact_def)

lemma add_exit_code_fact_le: "add_exit_code_fact k v c = Inr c' \<Longrightarrow> signals_le c c'"
  by (auto simp: add_exit_code_fact_def Let_def add_fact_le
      split: json.splits sum.splits py_exn.splits if_splits)

lemma add_label_fact_le: "signals_le c (add_label_fact kv c)"
  by (simp add: add_label_fact_def Let_def split_def add_fact_le)

lemma add_exit_code_facts_le: "add_exit_code_facts k c = Inr c' \<Longrightarrow> signals_le c c'"
  unfolding add_exit_code_facts_def by (erule foldE_signals_le [rotated]) (rule add_exit_code_fact_le)

lemma collect_pod_le:
  assumes run: "collect_pod pod c = Inr c'"
  shows "signals_le c c'"
proof -
  define c1 where "c1 = (case dget pod ''labels'' of JDict labels \<Rightarrow> fold add_label_fact labels c | _ \<Rightarrow> c)"
  define waiting terminated where
    "waiting = text_items (dget pod ''waiting_reasons'')" and
    "terminated = text_items (dget pod ''terminated_reasons'')"
  have "signals_le c c1"
    by (simp add: c1_def fold_signals_le add_label_fact_le split: json.split)
  moreover have facts: "signals_le c (fold (\<lambda>r. add_fact (p @ r)) xs c)" for p xs c
    by (rule fold_signals_le) (simp add: add_fact_le)
  moreover from run have "signals_le (fold (\<lambda>r. add_fact (''terminated_reason='' @ r)) terminated
      (fold (\<lambda>r. add_fact (''waiting_reason='' @ r)) waiting c1)) c'"
    unfolding collect_pod_def Let_def c1_def waiting_def terminated_def
    by (rule foldE_signals_le [where f = add_exit_code_facts, rotated]) (rule add_exit_code_facts_le)
  ultimately show ?thesis using signals_le_trans by blast
qed

lemma collect_event_le: "signals_le c (collect_event e c)"
  by (simp add: collect_event_def Let_def signals_le_def add_fact_def subset_insertI)

lemma collect_log_lines_le: "signals_le c (collect_log_lines v c)"
  unfolding collect_log_lines_def by (rule fold_signals_le) (simp add: signals_le_def)

lemma collect_alert_facts_le: "signals_le c (collect_alert_facts v c)"
  by (simp add: collect_alert_facts_def collect_alert_def Let_def fold_signals_le add_fact_le
      split: json.split)

lemma collect_item_le:
  assumes "collect_item i c = Inr c'"
  shows "signals_le c c'"
proof -
  have pods: "signals_le c c1" if "foldE collect_pod xs c = Inr c1" for xs c c1
    using that by (rule foldE_signals_le [where f = collect_pod, rotated]) (rule collect_pod_le)
  have events: "signals_le c (fold collect_event xs c)" for xs c
    by (rule fold_signals_le) (rule collect_event_le)
  have "signals_le c c'" if "collect_kubernetes_signals v c = Inr c'" for v
    using that pods events signals_le_trans unfolding collect_kubernetes_signals_def bindE_eq_Inr
    by blast
  then show ?thesis
    using assms collect_log_lines_le collect_alert_facts_le
    unfolding collect_item_def by (auto simp del: bindE_eq_Inr split: if_splits)
qed

lemma extract_bundle_signals_append:
  assumes "extract_bundle_signals (xs @ ys) = Inr s'" "extract_bundle_signals xs = Inr s"
  shows "signals_le s s'"
  using assms unfolding extract_bundle_signals_def foldE_append
  using foldE_signals_le [where f = collect_item] collect_item_le by simp

end
