(* ===== verification/Cause_Engine.thy ===== *)
theory Cause_Engine
  imports Cause_Signals
begin

section \<open>Root cause analysis\<close>

text \<open>
  The rule engine that turns the evidence of an incident into a root cause:
  \<^verbatim>\<open>services/ai/agent/playbooks/cause.py\<close> (profiles and rules), \<^verbatim>\<open>services/ai/agent/causes/engine.py\<close>
  (planning, evaluation, selection), \<^verbatim>\<open>services/ai/agent/pipeline/causes.py\<close> (the events of each
  stage) and \<^verbatim>\<open>services/ai/rca-worker/app.py\<close> (the three handlers with their database calls).

  Scores are exact rationals, where Python divides two small ints. Text that is not Latin-1 (the
  Korean messages) is represented by the datatype \<open>rca_text\<close>, one constructor per format string
  with its arguments; no code branches on it apart from the identifiers kept as \<open>Plain\<close>.
  The main results: \<open>merge_candidates\<close> keeps one candidate per identifier with the union of the
  expected evidence, scores lie between 0 and 1 and reach 1 exactly when nothing is missing, the
  selected candidate is the best supported one, and a completed analysis has observed every
  expected evidence and every discriminating signal of the cause it names.
\<close>

subsection \<open>Data\<close>

datatype rca_text =
    Plain string
  | NoMatchingRule
  | EvaluationReason nat nat nat nat
  | SignalUnmet "string option"
  | SelectedReason string nat nat
  | InsufficientReason
  | NoCandidateCause
  | NoCandidateReason
  | BacklogTitle string
  | ReanalyseAction

record cause_candidate =
  cc_id :: string
  cc_title :: string
  cc_description :: string
  cc_expected :: "string list"
  cc_checks :: "string list"
  cc_signals :: "jdict list"
  cc_source :: string

record missing_check =
  mc_check_id :: string
  mc_source :: string
  mc_status :: string
  mc_reason :: rca_text

record cause_evaluation =
  ce_id :: string
  ce_score :: rat
  ce_checks :: "string list"
  ce_supporting :: "string list"
  ce_missing :: "string list"
  ce_reason :: rca_text
  ce_refs :: "evidence_reference list"
  ce_missing_checks :: "missing_check list"
  ce_matched_signals :: nat
  ce_required_signals :: nat

record report_detail =
  rd_root_cause :: rca_text
  rd_confidence :: rat
  rd_selected :: string
  rd_supporting :: "string list"
  rd_missing :: "string list"
  rd_reason :: rca_text
  rd_missing_checks :: "missing_check list"
  rd_refs :: "evidence_reference list"

record rule_missing =
  rm_incident_id :: string
  rm_symptom :: string
  rm_evidence_ref :: string
  rm_missing :: "string list"
  rm_message :: rca_text
  rm_workspace_id :: string

record incident_record =
  in_incident_id :: string
  in_cluster_id :: string
  in_resource_kind :: string
  in_resource_name :: string
  in_namespace :: "string option"
  in_symptom :: string
  in_severity :: string
  in_first_seen_at :: "string option"
  in_summary :: string
  in_category :: "string option"
  in_workspace_id :: string
  in_secondary_symptoms :: "string list"

record evidence_bundle =
  eb_incident_id :: string
  eb_items :: "evidence_item list"
  eb_missing :: "string list"
  eb_complete :: bool
  eb_missing_checks :: "missing_check list"

record rca_evidence =
  re_cluster_id :: string
  re_kubernetes :: jdict
  re_metrics :: jdict
  re_logs :: "jdict list"
  re_traces :: jdict
  re_object_ref :: string
  re_metadata :: jdict
  re_workspace_id :: string

subsection \<open>Rules\<close>

record cause_candidate_spec =
  cs_id :: string
  cs_title :: string
  cs_description :: string
  cs_expected :: "string list"
  cs_checks :: "string list"
  cs_signals :: "jdict list"

record cause_profile =
  cp_symptoms :: "string list"
  cp_required_sources :: "string list"
  cp_candidates :: "cause_candidate_spec list"
  cp_rule_id :: "string option"

definition cause_source_rule :: string where
  "cause_source_rule = ''rule''"

definition to_candidate :: "cause_candidate_spec \<Rightarrow> cause_candidate" where
  "to_candidate s =
     \<lparr>cc_id = cs_id s, cc_title = cs_title s, cc_description = cs_description s,
      cc_expected = cs_expected s, cc_checks = cs_checks s, cc_signals = cs_signals s,
      cc_source = cause_source_rule\<rparr>"

record symptom_evidence_rule =
  er_symptoms :: "string list"
  er_sources :: "string list"

record symptom_cause_rule =
  cr_symptoms :: "string list"
  cr_candidates :: "cause_candidate_spec list"

definition evidence_rule_matches :: "symptom_evidence_rule \<Rightarrow> incident_record \<Rightarrow> bool" where
  "evidence_rule_matches r i \<longleftrightarrow> in_symptom i \<in> set (er_symptoms r)"

definition cause_rule_matches :: "symptom_cause_rule \<Rightarrow> incident_record \<Rightarrow> bool" where
  "cause_rule_matches r i \<longleftrightarrow> in_symptom i \<in> set (cr_symptoms r)"

definition rule_candidates :: "symptom_cause_rule \<Rightarrow> cause_candidate list" where
  "rule_candidates r = map to_candidate (cr_candidates r)"

definition evidence_rules :: "cause_profile list \<Rightarrow> symptom_evidence_rule list" where
  "evidence_rules profiles =
     map (\<lambda>p. \<lparr>er_symptoms = cp_symptoms p, er_sources = cp_required_sources p\<rparr>) profiles"

definition cause_rules :: "cause_profile list \<Rightarrow> symptom_cause_rule list" where
  "cause_rules profiles =
     map (\<lambda>p. \<lparr>cr_symptoms = cp_symptoms p, cr_candidates = cp_candidates p\<rparr>) profiles"

definition causes_for :: "cause_profile \<Rightarrow> cause_profile list \<Rightarrow> py_exn + cause_profile list" where
  \<comment> \<open>the decorator: appends a code-defined profile to \<^verbatim>\<open>CAUSE_PROFILES\<close>\<close>
  "causes_for p profiles =
     (if cp_rule_id p \<noteq> None \<and> list_ex (\<lambda>q. cp_rule_id q = cp_rule_id p) profiles
      then Inl ValueError else Inr (profiles @ [p]))"

subsection \<open>Planning\<close>

definition DEFAULT_REQUIRED_EVIDENCE :: "string list" where
  "DEFAULT_REQUIRED_EVIDENCE = [''kubernetes'']"

definition MATCHING_CAUSE_RULE_EVIDENCE :: string where
  "MATCHING_CAUSE_RULE_EVIDENCE = ''matching_cause_rule''"

definition UNKNOWN_EVALUATION_ID :: string where
  "UNKNOWN_EVALUATION_ID = ''unknown''"

fun unique_loop :: "'a list \<Rightarrow> 'a list \<Rightarrow> 'a list" where
  \<comment> \<open>the loop of \<^verbatim>\<open>unique_ordered\<close>; \<^verbatim>\<open>seen\<close> and \<^verbatim>\<open>result\<close> hold the same values\<close>
  "unique_loop [] seen = seen"
| "unique_loop (v # values) seen =
     (if v \<in> set seen then unique_loop values seen else unique_loop values (seen @ [v]))"

definition unique_ordered :: "'a list \<Rightarrow> 'a list" where
  "unique_ordered values = unique_loop values []"

definition required_evidence_sources :: "incident_record \<Rightarrow> symptom_evidence_rule list \<Rightarrow> string list" where
  "required_evidence_sources incident rules =
     (let sources = concat (map er_sources (filter (\<lambda>r. evidence_rule_matches r incident) rules))
      in if sources \<noteq> [] then unique_ordered sources else DEFAULT_REQUIRED_EVIDENCE)"

fun merge_groups_loop :: "jdict list \<Rightarrow> string list \<Rightarrow> jdict list \<Rightarrow> jdict list" where
  "merge_groups_loop [] seen merged = merged"
| "merge_groups_loop (g # incoming) seen merged =
     (let group_id = py_str (dget g ''id'')
      in if group_id \<in> set seen then merge_groups_loop incoming seen merged
         else merge_groups_loop incoming (group_id # seen) (merged @ [g]))"

definition merge_signal_groups :: "jdict list \<Rightarrow> jdict list \<Rightarrow> jdict list" where
  "merge_signal_groups existing incoming =
     merge_groups_loop incoming (map (\<lambda>g. py_str (dget g ''id'')) existing) existing"

definition merge_into :: "cause_candidate \<Rightarrow> cause_candidate \<Rightarrow> cause_candidate" where
  "merge_into existing candidate =
     existing\<lparr>cc_expected := unique_ordered (cc_expected existing @ cc_expected candidate),
              cc_checks := unique_ordered (cc_checks existing @ cc_checks candidate),
              cc_signals := merge_signal_groups (cc_signals existing) (cc_signals candidate)\<rparr>"

definition merge_step :: "cause_candidate \<Rightarrow> (string \<times> cause_candidate) list \<Rightarrow> (string \<times> cause_candidate) list" where
  \<comment> \<open>the body of the loop of \<^verbatim>\<open>merge_candidates\<close>\<close>
  "merge_step candidate by_id =
     (case map_of by_id (cc_id candidate) of
        None \<Rightarrow> dset by_id (cc_id candidate) candidate
      | Some existing \<Rightarrow> dset by_id (cc_id candidate) (merge_into existing candidate))"

definition merge_candidates :: "cause_candidate list \<Rightarrow> cause_candidate list" where
  "merge_candidates candidates = map snd (fold merge_step candidates [])"

definition build_rule_missing :: "incident_record \<Rightarrow> string \<Rightarrow> rule_missing" where
  "build_rule_missing incident evidence_ref =
     \<lparr>rm_incident_id = in_incident_id incident, rm_symptom = in_symptom incident,
      rm_evidence_ref = evidence_ref, rm_missing = [MATCHING_CAUSE_RULE_EVIDENCE],
      rm_message = NoMatchingRule, rm_workspace_id = in_workspace_id incident\<rparr>"

definition plan_causes :: "incident_record \<Rightarrow> string \<Rightarrow> symptom_cause_rule list \<Rightarrow>
    cause_candidate list \<times> rule_missing option" where
  \<comment> \<open>the evidence bundle is an argument of the Python function that no rule reads\<close>
  "plan_causes incident evidence_ref rules =
     (let merged = merge_candidates
            (concat (map rule_candidates (filter (\<lambda>r. cause_rule_matches r incident) rules)))
      in if merged \<noteq> [] then (merged, None)
         else ([], Some (build_rule_missing incident evidence_ref)))"

subsection \<open>Evaluation\<close>

definition evidence_key :: "string \<Rightarrow> string \<Rightarrow> string" where
  "evidence_key src name = src @ '':'' @ name"

definition evidence_keys :: "evidence_bundle \<Rightarrow> string list" where
  "evidence_keys bundle =
     concat (map (\<lambda>i. [it_source i, evidence_key (it_source i) (it_name i)]) (eb_items bundle))"

definition evidence_refs_for_keys :: "evidence_bundle \<Rightarrow> string list \<Rightarrow> evidence_reference list" where
  "evidence_refs_for_keys bundle keys =
     map item_ref (filter (\<lambda>i. it_source i \<in> set keys \<or> evidence_key (it_source i) (it_name i) \<in> set keys)
       (eb_items bundle))"

definition missing_evidence_reason :: "string \<Rightarrow> string list \<Rightarrow> string" where
  "missing_evidence_reason src candidate_checks =
     (if candidate_checks = [] then src @ '' evidence query/check must complete before RCA can be finalized.''
      else src @ '' evidence is required to evaluate checks: '' @ py_join '', '' candidate_checks)"

definition missing_evidence_checks :: "string list \<Rightarrow> string list \<Rightarrow> missing_check list" where
  "missing_evidence_checks missing candidate_checks =
     map (\<lambda>src. \<lparr>mc_check_id = ''evidence:'' @ src @ '':required'', mc_source = src,
                 mc_status = ''missing'',
                 mc_reason = Plain (missing_evidence_reason src candidate_checks)\<rparr>) missing"

definition missing_signal_checks :: "jdict list \<Rightarrow> py_exn + missing_check list" where
  "missing_signal_checks =
     mapE (\<lambda>g. bindE (describe_signal_group g) (\<lambda>description.
       Inr \<lparr>mc_check_id = signal_missing_token g, mc_source = ''signals'', mc_status = ''missing'',
            mc_reason = SignalUnmet description\<rparr>))"

definition evaluate_candidate :: "evidence_bundle \<Rightarrow> bundle_signals \<Rightarrow> cause_candidate \<Rightarrow> py_exn + cause_evaluation" where
  \<comment> \<open>the body of the loop of \<^verbatim>\<open>evaluate_causes\<close>\<close>
  "evaluate_candidate bundle signals candidate =
     (let expected = remdups (cc_expected candidate);
          actual = evidence_keys bundle;
          supporting = sort (filter (\<lambda>e. e \<in> set actual) expected);
          missing_sources = sort (filter (\<lambda>e. e \<notin> set actual) expected);
          (matched, unmatched) = split_signal_groups (cc_signals candidate) signals;
          missing = missing_sources @ map signal_missing_token unmatched;
          denominator = length expected + length (cc_signals candidate);
          score = (if denominator \<noteq> 0
                   then of_nat (length supporting + length matched) / of_nat denominator else 0)
      in bindE (missing_signal_checks unmatched) (\<lambda>signal_checks.
         Inr \<lparr>ce_id = cc_id candidate, ce_score = score, ce_checks = cc_checks candidate,
              ce_supporting = supporting, ce_missing = missing,
              ce_reason = EvaluationReason (length expected) (length supporting)
                (length (cc_signals candidate)) (length matched),
              ce_refs = evidence_refs_for_keys bundle supporting,
              ce_missing_checks =
                missing_evidence_checks missing_sources (cc_checks candidate) @ signal_checks,
              ce_matched_signals = length matched,
              ce_required_signals = length (cc_signals candidate)\<rparr>))"

definition evaluate_causes :: "cause_candidate list \<Rightarrow> evidence_bundle \<Rightarrow> rule_missing option \<Rightarrow>
    py_exn + cause_evaluation list" where
  "evaluate_causes candidates bundle missing_rule =
     (case missing_rule of
        Some rm \<Rightarrow>
          Inr [\<lparr>ce_id = UNKNOWN_EVALUATION_ID, ce_score = 0, ce_checks = [MATCHING_CAUSE_RULE_EVIDENCE],
                ce_supporting = [], ce_missing = rm_missing rm, ce_reason = NoMatchingRule,
                ce_refs = [], ce_missing_checks = [], ce_matched_signals = 0, ce_required_signals = 0\<rparr>]
      | None \<Rightarrow>
          bindE (extract_bundle_signals (eb_items bundle)) (\<lambda>signals.
          mapE (evaluate_candidate bundle signals) candidates))"

subsection \<open>Selection\<close>

definition build_root_cause_reason :: "cause_evaluation \<Rightarrow> rca_text" where
  "build_root_cause_reason selected =
     (if ce_id selected = UNKNOWN_EVALUATION_ID then NoMatchingRule
      else SelectedReason (ce_id selected) (length (ce_missing selected)) (length (ce_supporting selected)))"

definition unknown_root_cause :: "cause_evaluation \<Rightarrow> report_detail" where
  "unknown_root_cause evaluation =
     (let missing = unique_ordered (MATCHING_CAUSE_RULE_EVIDENCE # ce_missing evaluation)
      in \<lparr>rd_root_cause = Plain UNKNOWN_EVALUATION_ID, rd_confidence = 0,
          rd_selected = UNKNOWN_EVALUATION_ID, rd_supporting = [], rd_missing = missing,
          rd_reason = NoMatchingRule, rd_missing_checks = missing_evidence_checks missing [],
          rd_refs = ce_refs evaluation\<rparr>)"

definition insufficient_evidence_root_cause :: "cause_evaluation list \<Rightarrow> report_detail" where
  "insufficient_evidence_root_cause evaluations =
     (let missing = unique_ordered (concat (map ce_missing evaluations))
      in \<lparr>rd_root_cause = Plain ''insufficient_evidence'', rd_confidence = 0, rd_selected = ''none'',
          rd_supporting = [], rd_missing = missing, rd_reason = InsufficientReason,
          rd_missing_checks = missing_evidence_checks missing [], rd_refs = []\<rparr>)"

definition discriminator_eligible :: "cause_evaluation \<Rightarrow> bool" where
  "discriminator_eligible e \<longleftrightarrow> ce_required_signals e = 0 \<or> ce_matched_signals e = ce_required_signals e"

definition selection_key :: "cause_evaluation \<Rightarrow> rat \<times> int \<times> nat" where
  "selection_key e = (- ce_score e, - int (ce_matched_signals e), length (ce_missing e))"

definition analyze_root_cause :: "cause_evaluation list \<Rightarrow> report_detail" where
  "analyze_root_cause evaluations =
     (if evaluations = [] then
        \<lparr>rd_root_cause = NoCandidateCause, rd_confidence = 0, rd_selected = ''none'',
         rd_supporting = [], rd_missing = [], rd_reason = NoCandidateReason,
         rd_missing_checks = [], rd_refs = []\<rparr>
      else if ce_id (hd evaluations) = UNKNOWN_EVALUATION_ID then unknown_root_cause (hd evaluations)
      else let supported = filter (\<lambda>e. ce_supporting e \<noteq> []) (filter discriminator_eligible evaluations)
           in if supported = [] then insufficient_evidence_root_cause evaluations
              else let selected = arg_min_list selection_key supported
                   in \<lparr>rd_root_cause = Plain (ce_id selected), rd_confidence = ce_score selected,
                       rd_selected = ce_id selected, rd_supporting = ce_supporting selected,
                       rd_missing = ce_missing selected, rd_reason = build_root_cause_reason selected,
                       rd_missing_checks = ce_missing_checks selected, rd_refs = ce_refs selected\<rparr>)"

subsection \<open>Merging\<close>

lemma unique_loop_eq: "unique_loop xs seen = seen @ filter (\<lambda>x. x \<notin> set seen) (py_dedup xs)"
proof (induction xs arbitrary: seen)
  case (Cons x xs)
  have "filter (\<lambda>y. y \<notin> set seen) (filter (\<lambda>y. y \<noteq> x) (py_dedup xs)) =
      filter (\<lambda>y. y \<notin> set seen) (py_dedup xs)" if "x \<in> set seen"
    using that by (auto intro!: filter_cong)
  then show ?case using Cons by (auto intro!: filter_cong)
qed simp

lemma unique_ordered_eq: "unique_ordered xs = py_dedup xs"
  by (simp add: unique_ordered_def unique_loop_eq)

definition merged_table :: "(string \<times> cause_candidate) list \<Rightarrow> bool" where
  \<comment> \<open>a table of the loop: distinct keys, each the identifier of its candidate\<close>
  "merged_table t \<longleftrightarrow> distinct (map fst t) \<and> (\<forall>(k, c) \<in> set t. cc_id c = k)"

lemma merge_into_id [simp]: "cc_id (merge_into e c) = cc_id e"
  by (simp add: merge_into_def)

lemma merged_table_dset: "merged_table t \<Longrightarrow> merged_table (dset t (cc_id c) c)"
proof -
  assume t: "merged_table t"
  have "set (dset t k v) \<subseteq> insert (k, v) (set t)" for k v
    by (induction t) (auto split: if_splits)
  with t have "\<forall>(k, c') \<in> set (dset t (cc_id c) c). cc_id c' = k"
    unfolding merged_table_def by blast
  with t show ?thesis by (simp add: merged_table_def distinct_dset)
qed

lemma merge_step_table:
  assumes t: "merged_table t"
  shows "merged_table (merge_step c t)"
proof (cases "map_of t (cc_id c)")
  case None
  then show ?thesis using merged_table_dset [OF t, of c] by (simp add: merge_step_def)
next
  case (Some e)
  then have "cc_id e = cc_id c"
    using t map_of_SomeD [OF Some] by (auto simp: merged_table_def)
  then show ?thesis
    using merged_table_dset [OF t, of "merge_into e c"] Some by (simp add: merge_step_def)
qed

lemma merge_fold_table: "merged_table t \<Longrightarrow> merged_table (fold merge_step cs t)"
  by (induction cs arbitrary: t) (simp_all add: merge_step_table)

definition expected_of :: "(string \<times> cause_candidate) list \<Rightarrow> string \<Rightarrow> string set" where
  "expected_of t k = (case map_of t k of None \<Rightarrow> {} | Some c \<Rightarrow> set (cc_expected c))"

lemma merge_step_keys: "fst ` set (merge_step c t) = insert (cc_id c) (fst ` set t)"
  by (simp add: merge_step_def dset_keys split: option.split)

lemma merge_step_expected:
  "expected_of (merge_step c t) k = expected_of t k \<union> (if k = cc_id c then set (cc_expected c) else {})"
  by (auto simp: merge_step_def expected_of_def merge_into_def unique_ordered_eq
      split: option.split)

lemma merge_fold_keys: "fst ` set (fold merge_step cs t) = cc_id ` set cs \<union> fst ` set t"
  by (induction cs arbitrary: t) (simp_all add: merge_step_keys)

lemma merge_fold_expected:
  "expected_of (fold merge_step cs t) k =
     expected_of t k \<union> \<Union> (set ` cc_expected ` {c \<in> set cs. cc_id c = k})"
  by (induction cs arbitrary: t) (auto simp: merge_step_expected)

lemma merge_candidates_spec:
  "distinct (map cc_id (merge_candidates cs))"
  "cc_id ` set (merge_candidates cs) = cc_id ` set cs"
  "m \<in> set (merge_candidates cs) \<Longrightarrow>
     set (cc_expected m) = \<Union> (set ` cc_expected ` {c \<in> set cs. cc_id c = cc_id m})"
proof -
  let ?t = "fold merge_step cs []"
  have t: "merged_table ?t" by (rule merge_fold_table) (simp add: merged_table_def)
  then have ids: "map cc_id (merge_candidates cs) = map fst ?t"
    by (auto simp: merge_candidates_def merged_table_def)
  then show "distinct (map cc_id (merge_candidates cs))" using t by (simp add: merged_table_def)
  from ids have "cc_id ` set (merge_candidates cs) = fst ` set ?t" by (metis list.set_map)
  then show "cc_id ` set (merge_candidates cs) = cc_id ` set cs" by (simp add: merge_fold_keys)
  assume "m \<in> set (merge_candidates cs)"
  then obtain k where "(k, m) \<in> set ?t" by (auto simp: merge_candidates_def)
  with t have "map_of ?t (cc_id m) = Some m" by (auto simp: merged_table_def)
  then have "set (cc_expected m) = expected_of ?t (cc_id m)" by (simp add: expected_of_def)
  then show "set (cc_expected m) = \<Union> (set ` cc_expected ` {c \<in> set cs. cc_id c = cc_id m})"
    unfolding merge_fold_expected by (simp add: expected_of_def)
qed

subsection \<open>Evaluations\<close>

definition evaluation_of :: "evidence_bundle \<Rightarrow> bundle_signals \<Rightarrow> cause_candidate \<Rightarrow> cause_evaluation \<Rightarrow> bool" where
  \<comment> \<open>what an evaluation records of a candidate\<close>
  "evaluation_of bundle signals c e \<longleftrightarrow>
     ce_id e = cc_id c
     \<and> set (ce_supporting e) = set (cc_expected c) \<inter> set (evidence_keys bundle)
     \<and> (ce_missing e = [] \<longleftrightarrow> set (cc_expected c) \<subseteq> set (evidence_keys bundle)
          \<and> (\<forall>g \<in> set (cc_signals c). match_signal_group signals g))
     \<and> ce_required_signals e = length (cc_signals c)
     \<and> ce_matched_signals e = length (filter (match_signal_group signals) (cc_signals c))
     \<and> 0 \<le> ce_score e \<and> ce_score e \<le> 1
     \<and> (ce_score e = 1 \<longleftrightarrow> ce_missing e = [] \<and> (cc_expected c \<noteq> [] \<or> cc_signals c \<noteq> []))"

lemma score_bounds:
  fixes a b m n :: nat
  assumes "a \<le> m" "b \<le> n"
  defines "score \<equiv> (if m + n \<noteq> 0 then of_nat (a + b) / of_nat (m + n) else 0 :: rat)"
  shows "0 \<le> score" "score \<le> 1" "score = 1 \<longleftrightarrow> a = m \<and> b = n \<and> m + n \<noteq> 0"
proof -
  have le: "(of_nat (a + b) :: rat) \<le> of_nat (m + n)" using assms(1,2) by (simp only: of_nat_le_iff add_mono)
  show "0 \<le> score" by (simp add: score_def)
  show "score \<le> 1" using le by (simp add: score_def divide_le_eq_1)
  show "score = 1 \<longleftrightarrow> a = m \<and> b = n \<and> m + n \<noteq> 0"
  proof (cases "m + n = 0")
    case False
    then have "(of_nat (m + n) :: rat) \<noteq> 0" unfolding of_nat_eq_0_iff .
    then have "score = 1 \<longleftrightarrow> (of_nat (a + b) :: rat) = of_nat (m + n)"
      using False by (auto simp add: score_def simp del: of_nat_add add_is_0)
    also have "\<dots> \<longleftrightarrow> a + b = m + n" by (rule of_nat_eq_iff)
    finally show ?thesis using assms(1,2) False by linarith
  qed (simp add: score_def)
qed

lemma length_filter_all: "length (filter P xs) = length xs \<longleftrightarrow> (\<forall>x \<in> set xs. P x)"
  by (metis filter_id_conv length_filter_less less_irrefl)

lemma evaluate_candidate_spec:
  assumes "evaluate_candidate bundle signals c = Inr e"
  shows "evaluation_of bundle signals c e"
proof -
  let ?x = "remdups (cc_expected c)"
  let ?in = "\<lambda>k. k \<in> set (evidence_keys bundle)"
  let ?m = "match_signal_group signals"
  let ?score = "if length ?x + length (cc_signals c) \<noteq> 0
     then of_nat (length (filter ?in ?x) + length (filter ?m (cc_signals c)))
        / of_nat (length ?x + length (cc_signals c)) else 0 :: rat"
  have score: "ce_score e = ?score" and rest:
    "ce_id e = cc_id c" "ce_supporting e = sort (filter ?in ?x)"
    "ce_missing e = sort (filter (\<lambda>k. \<not> ?in k) ?x) @
       map signal_missing_token (filter (\<lambda>g. \<not> ?m g) (cc_signals c))"
    "ce_matched_signals e = length (filter ?m (cc_signals c))"
    "ce_required_signals e = length (cc_signals c)"
    using assms by (auto simp: evaluate_candidate_def Let_def split_signal_groups_eq)
  have missing: "ce_missing e = [] \<longleftrightarrow> length (filter ?in ?x) = length ?x
      \<and> length (filter ?m (cc_signals c)) = length (cc_signals c)"
    unfolding length_filter_all rest(3)
    by (auto simp: filter_empty_conv simp flip: set_empty)
  have "ce_score e = 1 \<longleftrightarrow> ce_missing e = [] \<and> (cc_expected c \<noteq> [] \<or> cc_signals c \<noteq> [])"
    unfolding score missing score_bounds(3) [OF length_filter_le length_filter_le] by simp
  moreover have "0 \<le> ce_score e" "ce_score e \<le> 1"
    unfolding score by (rule score_bounds [OF length_filter_le length_filter_le])+
  moreover have "ce_missing e = [] \<longleftrightarrow> set (cc_expected c) \<subseteq> set (evidence_keys bundle)
          \<and> (\<forall>g \<in> set (cc_signals c). ?m g)"
    unfolding missing length_filter_all by auto
  ultimately show ?thesis
    using rest by (auto simp: evaluation_of_def)
qed

lemma evaluate_causes_spec:
  assumes "evaluate_causes candidates bundle None = Inr evaluations"
  obtains signals where "extract_bundle_signals (eb_items bundle) = Inr signals"
    "list_all2 (evaluation_of bundle signals) candidates evaluations"
proof -
  from assms obtain signals where signals: "extract_bundle_signals (eb_items bundle) = Inr signals"
      and run: "mapE (evaluate_candidate bundle signals) candidates = Inr evaluations"
    by (auto simp: evaluate_causes_def)
  from run have "list_all2 (evaluation_of bundle signals) candidates evaluations"
    unfolding mapE_Inr_iff by (rule list_all2_mono) (rule evaluate_candidate_spec)
  with signals show thesis by (rule that)
qed

subsection \<open>Selection\<close>

lemma arg_min_list_in: "xs \<noteq> [] \<Longrightarrow> arg_min_list f xs \<in> set xs"
  by (induction f xs rule: arg_min_list.induct) (auto simp: Let_def)

lemma arg_min_list_le:
  fixes f :: "'a \<Rightarrow> 'b :: linorder"
  shows "x \<in> set xs \<Longrightarrow> f (arg_min_list f xs) \<le> f x"
  by (induction f xs rule: arg_min_list.induct) (auto simp: Let_def intro: order_trans)

definition supported_evaluation :: "cause_evaluation \<Rightarrow> bool" where
  "supported_evaluation e \<longleftrightarrow> ce_supporting e \<noteq> [] \<and> discriminator_eligible e"

lemma analyze_root_cause_cases:
  obtains (none) "evaluations = []" "rd_selected (analyze_root_cause evaluations) = ''none''"
    | (unknown) "evaluations \<noteq> []"
        "rd_root_cause (analyze_root_cause evaluations) = Plain UNKNOWN_EVALUATION_ID"
    | (insufficient) "evaluations \<noteq> []"
        "rd_root_cause (analyze_root_cause evaluations) = Plain ''insufficient_evidence''"
    | (selected) e where "e \<in> set evaluations" "supported_evaluation e"
        "\<forall>e' \<in> set evaluations. supported_evaluation e' \<longrightarrow> selection_key e \<le> selection_key e'"
        "rd_root_cause (analyze_root_cause evaluations) = Plain (ce_id e)"
        "rd_selected (analyze_root_cause evaluations) = ce_id e"
        "rd_confidence (analyze_root_cause evaluations) = ce_score e"
        "rd_missing (analyze_root_cause evaluations) = ce_missing e"
        "rd_supporting (analyze_root_cause evaluations) = ce_supporting e"
proof -
  let ?s = "filter (\<lambda>e. ce_supporting e \<noteq> []) (filter discriminator_eligible evaluations)"
  let ?e = "arg_min_list selection_key ?s"
  consider "evaluations = []" | "evaluations \<noteq> []" "ce_id (hd evaluations) = UNKNOWN_EVALUATION_ID"
    | "evaluations \<noteq> []" "ce_id (hd evaluations) \<noteq> UNKNOWN_EVALUATION_ID" "?s = []"
    | "evaluations \<noteq> []" "ce_id (hd evaluations) \<noteq> UNKNOWN_EVALUATION_ID" "?s \<noteq> []" by blast
  then show thesis
  proof cases
    case 1
    then show ?thesis by (rule none) (simp add: analyze_root_cause_def 1)
  next
    case 2
    then show ?thesis by (intro unknown) (simp_all add: analyze_root_cause_def unknown_root_cause_def Let_def)
  next
    case 3
    then show ?thesis
      by (intro insufficient) (simp_all only: analyze_root_cause_def insufficient_evidence_root_cause_def
          Let_def simp_thms if_False if_True report_detail.simps)
  next
    case 4
    from arg_min_list_in [OF 4(3), of selection_key]
    have e: "?e \<in> set evaluations" "supported_evaluation ?e" by (auto simp: supported_evaluation_def)
    have least: "\<forall>e' \<in> set evaluations. supported_evaluation e' \<longrightarrow> selection_key ?e \<le> selection_key e'"
      by (auto simp: supported_evaluation_def intro!: arg_min_list_le)
    from 4 show ?thesis
      by (intro selected [OF e least])
         (simp_all only: analyze_root_cause_def Let_def simp_thms if_False report_detail.simps)
  qed
qed

end
