(* ===== verification/Rule_Catalog.thy ===== *)
theory Rule_Catalog
  imports Cause_Engine
begin

section \<open>The catalogue of cause rules\<close>

text \<open>
  \<^verbatim>\<open>packages/ai/rule_catalog.py\<close> and \<^verbatim>\<open>services/ai/agent/causes/loader.py\<close>: cause rules are YAML files
  validated against a schema and registered at start-up. PyYAML and pydantic are not part of the
  repository: \<open>safe_load\<close> is an argument (on the left the line of the error, if it has one), and so
  is \<open>model_validate\<close>, the validation of a file by pydantic, of which \<open>validates\<close> states the
  documented behaviour: it returns only models that meet the declared field constraints and the
  model validator of the repository. The files of the catalogue directory are a list of names and texts.

  Registration keeps the rule identifiers distinct, and the signal groups of every registered
  candidate have the shape that matching and describing expect.
\<close>

subsection \<open>Schema\<close>

record signal_matcher_model =
  sm_fact :: "string option"
  sm_log_pattern :: "string option"
  sm_event_pattern :: "string option"

record signal_group_model =
  sg_id :: string
  sg_any_of :: "signal_matcher_model list"

record candidate_model =
  cm_id :: string
  cm_title :: string
  cm_description :: string
  cm_expected :: "string list"
  cm_checks :: "string list"
  cm_signals :: "signal_group_model list"

record rule_model =
  ru_id :: string
  ru_symptoms :: "string list"
  ru_required_sources :: "string list"
  ru_candidates :: "candidate_model list"

definition provided_keys :: "signal_matcher_model \<Rightarrow> (string \<times> string) list" where
  \<comment> \<open>the keys of \<^verbatim>\<open>MATCHER_KEYS\<close> that are not None, with their values\<close>
  "provided_keys m = List.map_filter (\<lambda>(k, v). map_option (Pair k) v)
     [(''fact'', sm_fact m), (''log_pattern'', sm_log_pattern m), (''event_pattern'', sm_event_pattern m)]"

definition exactly_one_matcher :: "signal_matcher_model \<Rightarrow> py_exn + signal_matcher_model" where
  "exactly_one_matcher m = (if length (provided_keys m) \<noteq> 1 then Inl ValueError else Inr m)"

definition matcher_payload :: "signal_matcher_model \<Rightarrow> jdict" where
  \<comment> \<open>\<^verbatim>\<open>CatalogSignalMatcherModel.to_payload\<close>\<close>
  "matcher_payload m = (case hd (provided_keys m) of (k, v) \<Rightarrow> [(k, JStr v)])"

definition group_payload :: "signal_group_model \<Rightarrow> jdict" where
  \<comment> \<open>\<^verbatim>\<open>CatalogSignalGroupModel.to_payload\<close>\<close>
  "group_payload g =
     [(''id'', JStr (sg_id g)), (''any_of'', JList (map (JDict \<circ> matcher_payload) (sg_any_of g)))]"

type_synonym catalog_candidate_spec = cause_candidate_spec

record catalog_rule_spec =
  rs_rule_id :: string
  rs_symptoms :: "string list"
  rs_required_sources :: "string list"
  rs_candidates :: "catalog_candidate_spec list"

definition candidate_to_spec :: "candidate_model \<Rightarrow> catalog_candidate_spec" where
  "candidate_to_spec c =
     \<lparr>cs_id = cm_id c, cs_title = cm_title c, cs_description = cm_description c,
      cs_expected = cm_expected c, cs_checks = cm_checks c,
      cs_signals = map group_payload (cm_signals c)\<rparr>"

definition rule_to_spec :: "rule_model \<Rightarrow> catalog_rule_spec" where
  "rule_to_spec r =
     \<lparr>rs_rule_id = ru_id r, rs_symptoms = ru_symptoms r, rs_required_sources = ru_required_sources r,
      rs_candidates = map candidate_to_spec (ru_candidates r)\<rparr>"

definition matcher_ok :: "signal_matcher_model \<Rightarrow> bool" where
  "matcher_ok m \<longleftrightarrow> exactly_one_matcher m = Inr m
     \<and> sm_fact m \<noteq> Some [] \<and> sm_log_pattern m \<noteq> Some [] \<and> sm_event_pattern m \<noteq> Some []"

definition group_ok :: "signal_group_model \<Rightarrow> bool" where
  "group_ok g \<longleftrightarrow> sg_id g \<noteq> [] \<and> sg_any_of g \<noteq> [] \<and> list_all matcher_ok (sg_any_of g)"

definition candidate_ok :: "candidate_model \<Rightarrow> bool" where
  "candidate_ok c \<longleftrightarrow> cm_id c \<noteq> [] \<and> cm_title c \<noteq> [] \<and> cm_description c \<noteq> []
     \<and> cm_expected c \<noteq> [] \<and> cm_checks c \<noteq> [] \<and> list_all group_ok (cm_signals c)"

definition rule_ok :: "rule_model \<Rightarrow> bool" where
  "rule_ok r \<longleftrightarrow> ru_id r \<noteq> [] \<and> ru_symptoms r \<noteq> [] \<and> ru_required_sources r \<noteq> []
     \<and> ru_candidates r \<noteq> [] \<and> list_all candidate_ok (ru_candidates r)"

definition file_ok :: "rule_model list \<Rightarrow> bool" where
  \<comment> \<open>the field constraints of \<^verbatim>\<open>CatalogFileModel\<close> and of the models it contains\<close>
  "file_ok rules \<longleftrightarrow> rules \<noteq> [] \<and> list_all rule_ok rules"

definition validates :: "(json \<Rightarrow> string + rule_model list) \<Rightarrow> bool" where
  "validates model_validate \<longleftrightarrow> (\<forall>raw rules. model_validate raw = Inr rules \<longrightarrow> file_ok rules)"

subsection \<open>Loading\<close>

datatype catalog_issue =
    YamlParseError "int option"
  | SchemaError string
  | DuplicateRuleId string

datatype catalog_error =
    InvalidFile string catalog_issue
  | DuplicateInCatalog string string string
  | AlreadyRegistered string

fun collect_rules :: "rule_model list \<Rightarrow> string list \<Rightarrow> catalog_rule_spec list \<Rightarrow>
    catalog_issue + catalog_rule_spec list" where
  \<comment> \<open>the loop over \<^verbatim>\<open>model.rules\<close>\<close>
  "collect_rules [] seen_ids rules = Inr rules"
| "collect_rules (r # rs) seen_ids rules =
     (if ru_id r \<in> set seen_ids then Inl (DuplicateRuleId (ru_id r))
      else collect_rules rs (ru_id r # seen_ids) (rules @ [rule_to_spec r]))"

definition validate_catalog_yaml :: "(string \<Rightarrow> int option + json) \<Rightarrow> (json \<Rightarrow> string + rule_model list) \<Rightarrow>
    string \<Rightarrow> catalog_issue + catalog_rule_spec list" where
  "validate_catalog_yaml safe_load model_validate raw_text =
     (case safe_load raw_text of
        Inl mark \<Rightarrow> Inl (YamlParseError (map_option (\<lambda>line. line + 1) mark))
      | Inr raw \<Rightarrow>
         (case model_validate raw of
            Inl err \<Rightarrow> Inl (SchemaError err)
          | Inr rules \<Rightarrow> collect_rules rules [] []))"

definition cause_profile_from_catalog :: "catalog_rule_spec \<Rightarrow> cause_profile" where
  "cause_profile_from_catalog r =
     \<lparr>cp_symptoms = rs_symptoms r, cp_required_sources = rs_required_sources r,
      cp_candidates = rs_candidates r, cp_rule_id = Some (rs_rule_id r)\<rparr>"

definition parse_catalog_file :: "(string \<Rightarrow> int option + json) \<Rightarrow> (json \<Rightarrow> string + rule_model list) \<Rightarrow>
    string \<times> string \<Rightarrow> catalog_error + cause_profile list" where
  "parse_catalog_file safe_load model_validate = (\<lambda>(name, content).
     case validate_catalog_yaml safe_load model_validate content of
       Inl issue \<Rightarrow> Inl (InvalidFile name issue)
     | Inr rules \<Rightarrow> Inr (map cause_profile_from_catalog rules))"

fun add_profiles :: "string \<Rightarrow> cause_profile list \<Rightarrow> (string \<times> string) list \<times> cause_profile list \<Rightarrow>
    catalog_error + (string \<times> string) list \<times> cause_profile list" where
  \<comment> \<open>the inner loop of \<^verbatim>\<open>load_catalog_profiles\<close>, over the profiles of one file\<close>
  "add_profiles name [] acc = Inr acc"
| "add_profiles name (p # ps) (seen_ids, profiles) =
     (let rule_id = the (cp_rule_id p)
      in case map_of seen_ids rule_id of
           Some owner \<Rightarrow> Inl (DuplicateInCatalog rule_id owner name)
         | None \<Rightarrow> add_profiles name ps (dset seen_ids rule_id name, profiles @ [p]))"

definition catalog_paths :: "(string \<times> string) list \<Rightarrow> (string \<times> string) list" where
  \<comment> \<open>\<^verbatim>\<open>sorted(path for pattern in CATALOG_PATTERNS for path in directory.glob(pattern))\<close>\<close>
  "catalog_paths directory =
     sort_key fst (filter (suffix ''.yaml'' \<circ> fst) directory @ filter (suffix ''.yml'' \<circ> fst) directory)"

definition load_catalog_profiles :: "(string \<Rightarrow> int option + json) \<Rightarrow> (json \<Rightarrow> string + rule_model list) \<Rightarrow>
    (string \<times> string) list \<Rightarrow> catalog_error + cause_profile list" where
  "load_catalog_profiles safe_load model_validate directory =
     bindE (foldE (\<lambda>path acc. bindE (parse_catalog_file safe_load model_validate path)
              (\<lambda>ps. add_profiles (fst path) ps acc)) (catalog_paths directory) ([], []))
       (\<lambda>(seen_ids, profiles). Inr profiles)"

definition register_catalog_profiles :: "(string \<Rightarrow> int option + json) \<Rightarrow> (json \<Rightarrow> string + rule_model list) \<Rightarrow>
    (string \<times> string) list \<Rightarrow> cause_profile list \<Rightarrow> catalog_error + cause_profile list" where
  "register_catalog_profiles safe_load model_validate directory registered =
     bindE (load_catalog_profiles safe_load model_validate directory) (\<lambda>profiles.
     let existing_ids = List.map_filter cp_rule_id registered
     in case find (\<lambda>p. the (cp_rule_id p) \<in> set existing_ids) profiles of
          Some p \<Rightarrow> Inl (AlreadyRegistered (the (cp_rule_id p)))
        | None \<Rightarrow> Inr (registered @ profiles))"

subsection \<open>Signal groups of a validated catalogue\<close>

definition matcher_wf :: "json \<Rightarrow> bool" where
  "matcher_wf m \<longleftrightarrow> (\<exists>k \<in> set MATCHER_KEYS. \<exists>v. v \<noteq> [] \<and> m = JDict [(k, JStr v)])"

definition group_wf :: "jdict \<Rightarrow> bool" where
  "group_wf g \<longleftrightarrow> (\<exists>i ms. i \<noteq> [] \<and> ms \<noteq> [] \<and> list_all matcher_wf ms
     \<and> g = [(''id'', JStr i), (''any_of'', JList ms)])"

definition profile_wf :: "cause_profile \<Rightarrow> bool" where
  "profile_wf p \<longleftrightarrow> cp_rule_id p \<noteq> None \<and> cp_symptoms p \<noteq> [] \<and> cp_candidates p \<noteq> []
     \<and> (\<forall>c \<in> set (cp_candidates p). cs_expected c \<noteq> [] \<and> list_all group_wf (cs_signals c))"

lemma matcher_payload_wf: "matcher_ok m \<Longrightarrow> matcher_wf (JDict (matcher_payload m))"
  by (cases "sm_fact m"; cases "sm_log_pattern m"; cases "sm_event_pattern m")
     (simp_all add: matcher_ok_def exactly_one_matcher_def provided_keys_def map_filter_simps
        matcher_payload_def matcher_wf_def MATCHER_KEYS_def)

lemma group_payload_wf: "group_ok g \<Longrightarrow> group_wf (group_payload g)"
  unfolding group_ok_def group_wf_def group_payload_def
  by (intro exI [of _ "sg_id g"] exI [of _ "map (JDict \<circ> matcher_payload) (sg_any_of g)"])
     (auto simp: list_all_iff matcher_payload_wf)

lemma rule_profile_wf: "rule_ok r \<Longrightarrow> profile_wf (cause_profile_from_catalog (rule_to_spec r))"
  by (auto simp: rule_ok_def profile_wf_def cause_profile_from_catalog_def rule_to_spec_def
      candidate_to_spec_def candidate_ok_def list_all_iff group_payload_wf)

lemma collect_rules_eq: "collect_rules rs seen acc = Inr out \<Longrightarrow> out = acc @ map rule_to_spec rs"
  by (induction rs seen acc rule: collect_rules.induct) (auto split: if_splits)

lemma parse_catalog_file_wf:
  assumes valid: "validates model_validate"
    and parse: "parse_catalog_file safe_load model_validate path = Inr ps"
  shows "list_all profile_wf ps"
proof -
  obtain name content where path: "path = (name, content)" by (cases path)
  from parse obtain out where out: "validate_catalog_yaml safe_load model_validate content = Inr out"
      and ps: "ps = map cause_profile_from_catalog out"
    by (auto simp: parse_catalog_file_def path split: sum.splits)
  from out obtain raw rules where "model_validate raw = Inr rules" "collect_rules rules [] [] = Inr out"
    by (auto simp: validate_catalog_yaml_def split: sum.splits)
  with valid have "list_all rule_ok rules" "out = map rule_to_spec rules"
    using collect_rules_eq [of rules "[]" "[]" out] by (auto simp: validates_def file_ok_def)
  then show ?thesis by (auto simp: ps list_all_iff rule_profile_wf)
qed

definition loading :: "(string \<times> string) list \<times> cause_profile list \<Rightarrow> bool" where
  \<comment> \<open>invariant of the loading loops\<close>
  "loading acc \<longleftrightarrow> map fst (fst acc) = map (the \<circ> cp_rule_id) (snd acc)
     \<and> distinct (map fst (fst acc)) \<and> list_all profile_wf (snd acc)"

lemma add_profiles_loading:
  "add_profiles name ps acc = Inr acc' \<Longrightarrow> list_all profile_wf ps \<Longrightarrow> loading acc \<Longrightarrow> loading acc'"
proof (induction name ps acc rule: add_profiles.induct)
  case (2 name p ps seen profiles)
  then have fresh: "map_of seen (the (cp_rule_id p)) = None"
    by (auto simp: Let_def split: option.splits)
  from 2(4) have "set (map fst seen) = set (map (the \<circ> cp_rule_id) profiles)" by (simp add: loading_def)
  with fresh have "loading (dset seen (the (cp_rule_id p)) name, profiles @ [p])"
    using 2(3,4) by (auto simp: loading_def dset_new map_of_eq_None_iff)
  with 2 fresh show ?case by (simp add: Let_def)
qed simp

lemma load_catalog_profiles_loading:
  assumes "validates model_validate" "load_catalog_profiles safe_load model_validate directory = Inr profiles"
  shows "\<exists>seen. loading (seen, profiles)"
proof -
  let ?step = "\<lambda>path acc. bindE (parse_catalog_file safe_load model_validate path)
              (\<lambda>ps. add_profiles (fst path) ps acc)"
  obtain seen where run: "foldE ?step (catalog_paths directory) ([], []) = Inr (seen, profiles)"
    using assms(2) by (auto simp: load_catalog_profiles_def)
  have step: "loading acc'" if "?step path acc = Inr acc'" "loading acc" for path acc acc'
    using that add_profiles_loading parse_catalog_file_wf [OF assms(1)] unfolding bindE_eq_Inr by blast
  have "loading acc'" if "foldE ?step paths acc = Inr acc'" "loading acc" for paths acc acc'
    using that
  proof (induction paths arbitrary: acc)
    case (Cons path paths)
    then obtain acc1 where "?step path acc = Inr acc1" "foldE ?step paths acc1 = Inr acc'"
      unfolding foldE.simps bindE_eq_Inr by blast
    with Cons.IH Cons.prems(2) step show ?case by blast
  qed simp
  from this [OF run] show ?thesis by (auto simp: loading_def)
qed

text \<open>
  C32. Registering a catalogue directory either fails or extends the registered profiles with
  profiles whose rule identifiers are distinct from each other and from the registered ones, each
  with a symptom, a candidate, expected evidence for every candidate, and signal groups that carry
  an identifier and a non-empty list of matchers with exactly one known, non-empty pattern.
\<close>
theorem registered_catalog_sound:
  assumes "validates model_validate"
    and "register_catalog_profiles safe_load model_validate directory registered = Inr out"
  shows "\<exists>profiles. out = registered @ profiles
     \<and> distinct (map cp_rule_id profiles)
     \<and> set (map cp_rule_id profiles) \<inter> set (map cp_rule_id registered) = {}
     \<and> list_all profile_wf profiles"
proof -
  from assms(2) obtain profiles where load: "load_catalog_profiles safe_load model_validate directory = Inr profiles"
      and out: "out = registered @ profiles"
      and new: "find (\<lambda>p. the (cp_rule_id p) \<in> set (List.map_filter cp_rule_id registered)) profiles = None"
    by (auto simp: register_catalog_profiles_def Let_def split: option.splits)
  from load_catalog_profiles_loading [OF assms(1) load]
  have ids: "distinct (map (the \<circ> cp_rule_id) profiles)" and wf: "list_all profile_wf profiles"
    by (auto simp: loading_def)
  from wf have some: "\<forall>p \<in> set profiles. cp_rule_id p \<noteq> None" by (simp add: list_all_iff profile_wf_def)
  have "distinct (map the (map cp_rule_id profiles))" using ids by simp
  then have "distinct (map cp_rule_id profiles)" by (simp only: distinct_map)
  moreover have "cp_rule_id p \<noteq> cp_rule_id q" if p: "p \<in> set profiles" and q: "q \<in> set registered" for p q
  proof
    assume same: "cp_rule_id p = cp_rule_id q"
    from some p obtain k where k: "cp_rule_id p = Some k" by auto
    with same q have "k \<in> set (List.map_filter cp_rule_id registered)"
      by (induction registered) (auto simp: map_filter_simps split: option.split)
    with new p k show False by (auto simp: find_None_iff)
  qed
  then have "set (map cp_rule_id profiles) \<inter> set (map cp_rule_id registered) = {}" by auto
  ultimately show ?thesis using out wf by blast
qed

definition demo_rule :: rule_model where
  "demo_rule =
     \<lparr>ru_id = ''oom'', ru_symptoms = [''CrashLoopBackOff''], ru_required_sources = [''kubernetes''],
      ru_candidates =
        [\<lparr>cm_id = ''oom_killed'', cm_title = ''t'', cm_description = ''d'', cm_expected = [''kubernetes''],
          cm_checks = [''limits''], cm_signals =
           [\<lparr>sg_id = ''oom'', sg_any_of =
              [\<lparr>sm_fact = Some ''terminated_reason=OOMKilled'', sm_log_pattern = None, sm_event_pattern = None\<rparr>]\<rparr>]\<rparr>]\<rparr>"

theorem registered_catalog_sound_witness:
  "\<exists>out. register_catalog_profiles (\<lambda>t. Inr (JStr t)) (\<lambda>_. Inr [demo_rule]) [(''a.yaml'', ''x'')] [] = Inr out
     \<and> out \<noteq> [] \<and> list_all profile_wf out"
proof -
  let ?out = "[cause_profile_from_catalog (rule_to_spec demo_rule)]"
  have "validates (\<lambda>_. Inr [demo_rule])"
    by (simp add: validates_def file_ok_def rule_ok_def demo_rule_def candidate_ok_def group_ok_def
        matcher_ok_def exactly_one_matcher_def provided_keys_def map_filter_simps)
  moreover have run: "register_catalog_profiles (\<lambda>t. Inr (JStr t)) (\<lambda>_. Inr [demo_rule])
      [(''a.yaml'', ''x'')] [] = Inr ?out"
    by (simp add: register_catalog_profiles_def load_catalog_profiles_def catalog_paths_def suffix_def
        parse_catalog_file_def validate_catalog_yaml_def cause_profile_from_catalog_def map_filter_simps)
  ultimately show ?thesis using registered_catalog_sound [OF _ run] by fastforce
qed

end
