(* ===== verification/Cause_Pipeline.thy ===== *)
theory Cause_Pipeline
  imports Rule_Catalog
begin

section \<open>The stages of the analysis and their handlers\<close>

text \<open>
  \<^verbatim>\<open>services/ai/agent/pipeline/causes.py\<close> builds the event of each stage from the event of the one
  before; \<^verbatim>\<open>services/ai/rca-worker/app.py\<close> runs the three stages as event handlers. A handler is a
  function from its event to the database calls it makes and the bodies it yields, in order.
  \<^verbatim>\<open>evt.to_body()\<close> inside a payload is represented by the event itself (serialisation is the
  subject of \<open>Event_Body\<close>).
\<close>

subsection \<open>Events\<close>

record bundle_built =
  bb_evidence :: rca_evidence
  bb_incident :: incident_record
  bb_bundle :: evidence_bundle

record candidates_planned =
  pl_candidate_count :: nat
  pl_evidence_ref :: string
  pl_candidates :: "cause_candidate list"
  pl_workspace_id :: string
  pl_evidence :: "rca_evidence option"
  pl_incident :: "incident_record option"
  pl_bundle :: "evidence_bundle option"
  pl_rule_missing :: "rule_missing option"

record candidates_evaluated =
  ev_candidate_count :: nat
  ev_evidence_ref :: string
  ev_candidates :: "cause_candidate list"
  ev_evaluations :: "cause_evaluation list"
  ev_workspace_id :: string
  ev_evidence :: "rca_evidence option"
  ev_incident :: "incident_record option"
  ev_bundle :: "evidence_bundle option"
  ev_rule_missing :: "rule_missing option"

record contract_failed =
  cf_contract :: string
  cf_reason :: string
  cf_consumer :: string
  cf_payload :: candidates_planned
  cf_workspace_id :: string
  cf_evidence_ref :: string
  cf_severity :: string
  cf_reason_code :: string

record backlog_created =
  bk_id :: string
  bk_title :: rca_text
  bk_reason :: rca_text
  bk_evidence_ref :: string
  bk_incident_id :: string
  bk_symptom :: string
  bk_missing :: "string list"
  bk_status :: string
  bk_payload :: "incident_record \<times> evidence_bundle \<times> rule_missing"
  bk_workspace_id :: string

record analysis_blocked =
  ab_reason_code :: string
  ab_reason :: rca_text
  ab_evidence_ref :: string
  ab_detail :: report_detail
  ab_workspace_id :: string
  ab_source :: candidates_evaluated
  ab_missing :: "string list"
  ab_root_cause :: rca_text

record analysis_completed =
  ac_root_cause :: rca_text
  ac_action :: string
  ac_evidence_ref :: string
  ac_workspace_id :: string
  ac_source :: candidates_evaluated
  ac_detail :: report_detail

datatype rca_event =
    RuleMissingEvent rule_missing incident_record
  | BacklogEvent backlog_created
  | PlannedEvent candidates_planned
  | EvaluatedEvent candidates_evaluated
  | ContractFailedEvent contract_failed
  | ActionRequiredEvent string string string
  | BlockedEvent analysis_blocked
  | CompletedEvent analysis_completed

subsection \<open>Stages\<close>

definition plan_body :: "cause_profile list \<Rightarrow> bundle_built \<Rightarrow> candidates_planned" where
  \<comment> \<open>\<^verbatim>\<open>CausePlanner.plan_body\<close> over the registered profiles\<close>
  "plan_body profiles evt =
     (let (candidates, missing_rule) =
            plan_causes (bb_incident evt) (re_object_ref (bb_evidence evt)) (cause_rules profiles)
      in \<lparr>pl_candidate_count = length candidates, pl_evidence_ref = re_object_ref (bb_evidence evt),
          pl_candidates = candidates, pl_workspace_id = re_workspace_id (bb_evidence evt),
          pl_evidence = Some (bb_evidence evt), pl_incident = Some (bb_incident evt),
          pl_bundle = Some (bb_bundle evt), pl_rule_missing = missing_rule\<rparr>)"

definition build_backlog_item_created_body :: "rule_missing \<Rightarrow> bundle_built \<Rightarrow> backlog_created" where
  "build_backlog_item_created_body rm evt =
     \<lparr>bk_id = ''missing-cause-rule:'' @ rm_workspace_id rm @ '':'' @ rm_symptom rm,
      bk_title = BacklogTitle (rm_symptom rm), bk_reason = NoMatchingRule,
      bk_evidence_ref = rm_evidence_ref rm, bk_incident_id = rm_incident_id rm,
      bk_symptom = rm_symptom rm, bk_missing = rm_missing rm, bk_status = ''open'',
      bk_payload = (bb_incident evt, bb_bundle evt, rm), bk_workspace_id = rm_workspace_id rm\<rparr>"

definition plan_bodies :: "cause_profile list \<Rightarrow> bundle_built \<Rightarrow> rca_event list" where
  "plan_bodies profiles evt =
     (let planned = plan_body profiles evt
      in case pl_rule_missing planned of
           None \<Rightarrow> [PlannedEvent planned]
         | Some rm \<Rightarrow> [RuleMissingEvent rm (bb_incident evt),
                      BacklogEvent (build_backlog_item_created_body rm evt), PlannedEvent planned])"

definition evaluate_body :: "candidates_planned \<Rightarrow> py_exn + rca_event" where
  \<comment> \<open>\<^verbatim>\<open>CauseEvaluator.evaluate_body\<close>\<close>
  "evaluate_body evt =
     (case pl_bundle evt of
        None \<Rightarrow> Inr (ContractFailedEvent
          \<lparr>cf_contract = ''RcaCandidatesPlannedBody.evidence_bundle'',
           cf_reason = ''RCA analysis context is missing'', cf_consumer = ''analyze-worker'',
           cf_payload = evt, cf_workspace_id = pl_workspace_id evt,
           cf_evidence_ref = pl_evidence_ref evt, cf_severity = ''warning'',
           cf_reason_code = ''context_missing''\<rparr>)
      | Some bundle \<Rightarrow>
          bindE (evaluate_causes (pl_candidates evt) bundle (pl_rule_missing evt)) (\<lambda>evaluations.
          Inr (EvaluatedEvent
            \<lparr>ev_candidate_count = pl_candidate_count evt, ev_evidence_ref = pl_evidence_ref evt,
             ev_candidates = pl_candidates evt, ev_evaluations = evaluations,
             ev_workspace_id = pl_workspace_id evt, ev_evidence = pl_evidence evt,
             ev_incident = pl_incident evt, ev_bundle = pl_bundle evt,
             ev_rule_missing = pl_rule_missing evt\<rparr>)))"

definition block_reason_code :: "candidates_evaluated \<Rightarrow> report_detail \<Rightarrow> string option" where
  "block_reason_code evt detail =
     (if ev_rule_missing evt \<noteq> None \<or> rd_root_cause detail = Plain ''unknown'' then Some ''rule_missing''
      else if rd_root_cause detail = Plain ''insufficient_evidence'' then Some ''insufficient_evidence''
      else if rd_selected detail = ''none'' then Some ''no_evaluation''
      else if rd_missing detail \<noteq> [] then Some ''insufficient_evidence''
      else None)"

definition complete_body :: "candidates_evaluated \<Rightarrow> rca_event" where
  \<comment> \<open>\<^verbatim>\<open>RootCauseAnalyzer.complete_body\<close>; the fields copied from the event are kept as the event\<close>
  "complete_body evt =
     (if ev_evidence evt = None \<or> ev_incident evt = None \<or> ev_bundle evt = None
      then ActionRequiredEvent ''RCA analysis context is missing'' (ev_evidence_ref evt) (ev_workspace_id evt)
      else let detail = analyze_root_cause (ev_evaluations evt)
           in case block_reason_code evt detail of
                Some code \<Rightarrow> BlockedEvent
                  \<lparr>ab_reason_code = code, ab_reason = rd_reason detail,
                   ab_evidence_ref = ev_evidence_ref evt, ab_detail = detail,
                   ab_workspace_id = ev_workspace_id evt, ab_source = evt,
                   ab_missing = rd_missing detail, ab_root_cause = rd_root_cause detail\<rparr>
              | None \<Rightarrow> CompletedEvent
                  \<lparr>ac_root_cause = rd_root_cause detail, ac_action = ''plan_recovery'',
                   ac_evidence_ref = ev_evidence_ref evt, ac_workspace_id = ev_workspace_id evt,
                   ac_source = evt, ac_detail = detail\<rparr>)"

subsection \<open>Handlers\<close>

datatype rca_call =
    ResolveBacklog string string string
  | SaveReport string string rca_text rca_text string rca_event

definition on_evidence_bundle_built :: "cause_profile list \<Rightarrow> bool \<Rightarrow> bundle_built \<Rightarrow> rca_call list \<times> rca_event list" where
  "on_evidence_bundle_built profiles has_db evt =
     (let bodies = plan_bodies profiles evt;
          planned = List.find (\<lambda>b. case b of PlannedEvent _ \<Rightarrow> True | _ \<Rightarrow> False) bodies
      in (case planned of
            Some (PlannedEvent p) \<Rightarrow>
              if pl_rule_missing p = None \<and> has_db
              then [ResolveBacklog (re_workspace_id (bb_evidence evt)) (in_symptom (bb_incident evt))
                      ''matching RCA rule is now available''] else []
          | _ \<Rightarrow> [],
          bodies))"

definition on_candidates_planned :: "candidates_planned \<Rightarrow> py_exn + rca_call list \<times> rca_event list" where
  "on_candidates_planned evt = bindE (evaluate_body evt) (\<lambda>b. Inr ([], [b]))"

definition on_candidates_evaluated :: "string \<Rightarrow> candidates_evaluated \<Rightarrow> rca_call list \<times> rca_event list" where
  "on_candidates_evaluated correlation_id evt =
     (let result = complete_body evt
      in (case result of
            CompletedEvent r \<Rightarrow>
              [SaveReport correlation_id (ac_workspace_id r) (ac_root_cause r) (Plain (ac_action r))
                 ''completed'' result]
          | BlockedEvent r \<Rightarrow>
              [SaveReport correlation_id (ab_workspace_id r) (Plain ''insufficient_evidence'')
                 ReanalyseAction ''blocked'' result]
          | _ \<Rightarrow> [],
          [result]))"

subsection \<open>What a completed analysis rests on\<close>

lemma plan_causes_cases:
  "plan_causes incident ref rules = (cs, rm) \<Longrightarrow>
     cs = merge_candidates (concat (map rule_candidates (filter (\<lambda>r. cause_rule_matches r incident) rules)))
     \<and> (rm = None \<longleftrightarrow> cs \<noteq> [])"
  by (auto simp: plan_causes_def Let_def split: if_splits)

definition symptom_specs :: "cause_profile list \<Rightarrow> string \<Rightarrow> cause_candidate_spec set" where
  \<comment> \<open>the candidates that the profiles declare for a symptom\<close>
  "symptom_specs profiles symptom =
     {s. \<exists>p \<in> set profiles. symptom \<in> set (cp_symptoms p) \<and> s \<in> set (cp_candidates p)}"

lemma matching_candidates:
  "set (concat (map rule_candidates (filter (\<lambda>r. cause_rule_matches r incident) (cause_rules profiles)))) =
     to_candidate ` symptom_specs profiles (in_symptom incident)"
  by (auto simp: rule_candidates_def cause_rules_def cause_rule_matches_def symptom_specs_def intro!: imageI)

lemma planned_expected:
  assumes plan: "plan_causes incident ref (cause_rules profiles) = (cs, rm)" and c: "c \<in> set cs"
  shows "set (cc_expected c) =
     (\<Union>s \<in> {s \<in> symptom_specs profiles (in_symptom incident). cs_id s = cc_id c}. set (cs_expected s))"
proof -
  have m: "c \<in> set (merge_candidates (concat (map rule_candidates
      (filter (\<lambda>r. cause_rule_matches r incident) (cause_rules profiles)))))"
    using plan_causes_cases [OF plan] c by blast
  show ?thesis
    unfolding merge_candidates_spec(3) [OF m] matching_candidates by (auto simp: to_candidate_def)
qed

lemma completed_selects:
  assumes "complete_body ev = CompletedEvent r"
  shows "ev_rule_missing ev = None" "\<exists>e \<in> set (ev_evaluations ev). supported_evaluation e \<and> ce_missing e = []
     \<and> ac_root_cause r = Plain (ce_id e) \<and> rd_confidence (ac_detail r) = ce_score e"
proof -
  let ?d = "analyze_root_cause (ev_evaluations ev)"
  have code: "block_reason_code ev ?d = None" and r: "ac_root_cause r = rd_root_cause ?d" "ac_detail r = ?d"
    using assms by (auto simp: complete_body_def Let_def split: if_splits option.splits)
  from code show "ev_rule_missing ev = None" by (simp add: block_reason_code_def split: if_splits)
  from code have no: "rd_root_cause ?d \<noteq> Plain UNKNOWN_EVALUATION_ID"
      "rd_root_cause ?d \<noteq> Plain ''insufficient_evidence''" "rd_selected ?d \<noteq> ''none''" "rd_missing ?d = []"
    unfolding block_reason_code_def UNKNOWN_EVALUATION_ID_def by (metis option.distinct(1))+
  show "\<exists>e \<in> set (ev_evaluations ev). supported_evaluation e \<and> ce_missing e = []
     \<and> ac_root_cause r = Plain (ce_id e) \<and> rd_confidence (ac_detail r) = ce_score e"
  proof (cases rule: analyze_root_cause_cases [of "ev_evaluations ev"])
    case (selected e)
    with no(4) r show ?thesis by (intro bexI [of _ e]) simp_all
  qed (use no in \<open>simp_all only:\<close>)
qed

lemma completed_candidate:
  assumes run: "evaluate_body p = Inr (EvaluatedEvent ev)" and "complete_body ev = CompletedEvent r"
  obtains bd signals c where "pl_bundle p = Some bd" "pl_rule_missing p = None"
    "extract_bundle_signals (eb_items bd) = Inr signals"
    "c \<in> set (pl_candidates p)" "ac_root_cause r = Plain (cc_id c)" "rd_confidence (ac_detail r) = 1"
    "cc_expected c \<noteq> []" "set (cc_expected c) \<subseteq> set (evidence_keys bd)"
    "\<forall>g \<in> set (cc_signals c). match_signal_group signals g"
proof -
  from run obtain bd where b: "pl_bundle p = Some bd"
      and eval: "evaluate_causes (pl_candidates p) bd (pl_rule_missing p) = Inr (ev_evaluations ev)"
      and rm: "ev_rule_missing ev = pl_rule_missing p"
    by (auto simp: evaluate_body_def split: option.splits)
  from completed_selects [OF assms(2)] rm obtain e where none: "pl_rule_missing p = None"
      and e: "e \<in> set (ev_evaluations ev)" "supported_evaluation e" "ce_missing e = []"
        "ac_root_cause r = Plain (ce_id e)" "rd_confidence (ac_detail r) = ce_score e" by auto
  from eval none obtain signals where s: "extract_bundle_signals (eb_items bd) = Inr signals"
      and all: "list_all2 (evaluation_of bd signals) (pl_candidates p) (ev_evaluations ev)"
    using evaluate_causes_spec by metis
  from all e(1) obtain c where c: "c \<in> set (pl_candidates p)" "evaluation_of bd signals c e"
    by (metis list_all2_conv_all_nth in_set_conv_nth)
  from c(2) e(2,3) have "cc_expected c \<noteq> []" "set (cc_expected c) \<subseteq> set (evidence_keys bd)"
      "\<forall>g \<in> set (cc_signals c). match_signal_group signals g" "ce_score e = 1" "ce_id e = cc_id c"
    by (auto simp: evaluation_of_def supported_evaluation_def)
  with b none s c(1) e(4,5) show thesis by (intro that) simp_all
qed

text \<open>
  C29. A completed analysis is fully evidenced. When the planned candidates of an evidence bundle are
  evaluated and the analysis completes, the root cause it names is a candidate declared for the
  incident's symptom, the evidence that every rule of that symptom expects for this candidate is in the
  bundle (and some is expected), every discriminating signal group of the candidate matches what
  was observed, and the confidence is exactly 1.
\<close>
theorem completed_analysis_is_evidenced:
  assumes "evaluate_body (plan_body profiles evt) = Inr (EvaluatedEvent ev)"
    and "complete_body ev = CompletedEvent r"
  shows "\<exists>c signals. ac_root_cause r = Plain (cc_id c) \<and> rd_confidence (ac_detail r) = 1
     \<and> c \<in> set (pl_candidates (plan_body profiles evt))
     \<and> extract_bundle_signals (eb_items (bb_bundle evt)) = Inr signals
     \<and> (\<forall>g \<in> set (cc_signals c). match_signal_group signals g)
     \<and> (\<exists>s \<in> symptom_specs profiles (in_symptom (bb_incident evt)). cs_id s = cc_id c \<and> cs_expected s \<noteq> [])
     \<and> (\<forall>s \<in> symptom_specs profiles (in_symptom (bb_incident evt)). cs_id s = cc_id c \<longrightarrow>
          set (cs_expected s) \<subseteq> set (evidence_keys (bb_bundle evt)))"
proof -
  obtain cs rm where plan: "plan_causes (bb_incident evt) (re_object_ref (bb_evidence evt)) (cause_rules profiles) = (cs, rm)"
    by (meson surj_pair)
  then have p: "pl_candidates (plan_body profiles evt) = cs" "pl_bundle (plan_body profiles evt) = Some (bb_bundle evt)"
    by (simp_all add: plan_body_def)
  obtain signals c where c: "extract_bundle_signals (eb_items (bb_bundle evt)) = Inr signals"
      "c \<in> set cs" "ac_root_cause r = Plain (cc_id c)" "rd_confidence (ac_detail r) = 1"
      "cc_expected c \<noteq> []" "set (cc_expected c) \<subseteq> set (evidence_keys (bb_bundle evt))"
      "\<forall>g \<in> set (cc_signals c). match_signal_group signals g"
    by (rule completed_candidate [OF assms]) (use p in simp)
  have "(\<Union>s \<in> {s \<in> symptom_specs profiles (in_symptom (bb_incident evt)). cs_id s = cc_id c}. set (cs_expected s))
      = set (cc_expected c)"
    using planned_expected [OF plan c(2)] by simp
  with c(5,6) have "\<exists>s \<in> symptom_specs profiles (in_symptom (bb_incident evt)). cs_id s = cc_id c \<and> cs_expected s \<noteq> []"
      "\<forall>s \<in> symptom_specs profiles (in_symptom (bb_incident evt)). cs_id s = cc_id c \<longrightarrow>
          set (cs_expected s) \<subseteq> set (evidence_keys (bb_bundle evt))"
    by (fastforce simp flip: set_empty, blast)
  with c p show ?thesis by blast
qed

definition demo_bundle :: evidence_bundle where
  "demo_bundle =
     \<lparr>eb_incident_id = ''i-1'',
      eb_items = [\<lparr>it_source = ''kubernetes'', it_name = ''pods'',
        it_value = [(''pods'', JList [JDict [(''terminated_reasons'', JList [JStr ''OOMKilled''])]])],
        it_summary = [], it_evidence_ref = ''e-1'', it_check_id = [], it_query = None\<rparr>],
      eb_missing = [], eb_complete = True, eb_missing_checks = []\<rparr>"

definition demo_built :: bundle_built where
  "demo_built =
     \<lparr>bb_evidence = \<lparr>re_cluster_id = ''c'', re_kubernetes = [], re_metrics = [], re_logs = [], re_traces = [],
        re_object_ref = ''obj'', re_metadata = [], re_workspace_id = ''w''\<rparr>,
      bb_incident = \<lparr>in_incident_id = ''i-1'', in_cluster_id = ''c'', in_resource_kind = ''Pod'',
        in_resource_name = ''p'', in_namespace = None, in_symptom = ''CrashLoopBackOff'', in_severity = ''high'',
        in_first_seen_at = None, in_summary = [], in_category = None, in_workspace_id = ''w'',
        in_secondary_symptoms = []\<rparr>,
      bb_bundle = demo_bundle\<rparr>"

definition demo_profiles :: "cause_profile list" where
  "demo_profiles = [cause_profile_from_catalog (rule_to_spec demo_rule)]"

definition evaluated_of :: "py_exn + rca_event \<Rightarrow> candidates_evaluated option" where
  "evaluated_of r = (case r of Inr (EvaluatedEvent ev) \<Rightarrow> Some ev | _ \<Rightarrow> None)"

definition completed_of :: "rca_event \<Rightarrow> analysis_completed option" where
  "completed_of e = (case e of CompletedEvent r \<Rightarrow> Some r | _ \<Rightarrow> None)"

theorem completed_analysis_is_evidenced_witness:
  "\<exists>ev r. evaluate_body (plan_body demo_profiles demo_built) = Inr (EvaluatedEvent ev)
     \<and> complete_body ev = CompletedEvent r \<and> ac_root_cause r = Plain ''oom_killed''
     \<and> rd_confidence (ac_detail r) = 1"
proof -
  define ev where "ev = the (evaluated_of (evaluate_body (plan_body demo_profiles demo_built)))"
  have "evaluated_of (evaluate_body (plan_body demo_profiles demo_built)) \<noteq> None" by code_simp
  then have ev: "evaluate_body (plan_body demo_profiles demo_built) = Inr (EvaluatedEvent ev)"
    unfolding ev_def by (auto simp: evaluated_of_def split: sum.splits rca_event.splits)
  have "map_option ac_root_cause (completed_of (complete_body
      (the (evaluated_of (evaluate_body (plan_body demo_profiles demo_built)))))) = Some (Plain ''oom_killed'')"
    by code_simp
  then obtain r where r: "complete_body ev = CompletedEvent r" "ac_root_cause r = Plain ''oom_killed''"
    by (auto simp: ev_def [symmetric] completed_of_def split: rca_event.splits)
  with ev completed_analysis_is_evidenced [OF ev r(1)] show ?thesis by blast
qed



lemma selection_key_le_iff:
  "selection_key e \<le> selection_key e' \<longleftrightarrow>
     ce_score e' < ce_score e
     \<or> ce_score e' = ce_score e \<and> (ce_matched_signals e' < ce_matched_signals e
        \<or> ce_matched_signals e' = ce_matched_signals e \<and> length (ce_missing e) \<le> length (ce_missing e'))"
  by (cases "ce_score e'" "ce_score e" rule: linorder_cases)
     (auto simp: selection_key_def less_eq_prod_def)

text \<open>
  C31. Selection. When the evaluations do not start with the unknown marker and some evaluation is
  supported by evidence with all its discriminating signals matched, the analysis reports such an
  evaluation, and no other one has a higher score, an equal score with more matched signals, or an equal
  score and number of signals with fewer missing items.
\<close>
theorem analysis_selects_best:
  assumes "ce_id (hd evaluations) \<noteq> UNKNOWN_EVALUATION_ID"
    and "e0 \<in> set evaluations" "supported_evaluation e0"
  shows "\<exists>e \<in> set evaluations. supported_evaluation e
     \<and> rd_root_cause (analyze_root_cause evaluations) = Plain (ce_id e)
     \<and> rd_confidence (analyze_root_cause evaluations) = ce_score e
     \<and> (\<forall>e' \<in> set evaluations. supported_evaluation e' \<longrightarrow>
          ce_score e' < ce_score e
          \<or> ce_score e' = ce_score e \<and> (ce_matched_signals e' < ce_matched_signals e
             \<or> ce_matched_signals e' = ce_matched_signals e \<and> length (ce_missing e) \<le> length (ce_missing e')))"
proof -
  let ?s = "filter (\<lambda>e. ce_supporting e \<noteq> []) (filter discriminator_eligible evaluations)"
  let ?e = "arg_min_list selection_key ?s"
  from assms(2,3) have "e0 \<in> set ?s" by (simp add: supported_evaluation_def)
  then have ne: "?s \<noteq> []" "evaluations \<noteq> []" using assms(2) by (metis empty_iff list.set(1))+
  have mem: "e' \<in> set ?s \<longleftrightarrow> e' \<in> set evaluations \<and> supported_evaluation e'" for e'
    by (auto simp: supported_evaluation_def)
  have e: "?e \<in> set evaluations" "supported_evaluation ?e"
    using arg_min_list_in [OF ne(1), of selection_key] unfolding mem by blast+
  have "selection_key ?e \<le> selection_key e'" if "e' \<in> set evaluations" "supported_evaluation e'" for e'
    using that arg_min_list_le [of e' ?s selection_key] unfolding mem by blast
  moreover have "analyze_root_cause evaluations =
      \<lparr>rd_root_cause = Plain (ce_id ?e), rd_confidence = ce_score ?e,
       rd_selected = ce_id ?e, rd_supporting = ce_supporting ?e, rd_missing = ce_missing ?e,
       rd_reason = build_root_cause_reason ?e, rd_missing_checks = ce_missing_checks ?e, rd_refs = ce_refs ?e\<rparr>"
    by (simp only: analyze_root_cause_def Let_def assms(1) ne if_False)
  ultimately show ?thesis using e
    by (intro bexI [of _ ?e]) (simp_all add: selection_key_le_iff)
qed

definition demo_evaluation :: "string \<Rightarrow> rat \<Rightarrow> nat \<Rightarrow> cause_evaluation" where
  "demo_evaluation i score n =
     \<lparr>ce_id = i, ce_score = score, ce_checks = [], ce_supporting = [''kubernetes''], ce_missing = [],
      ce_reason = Plain [], ce_refs = [], ce_missing_checks = [], ce_matched_signals = n,
      ce_required_signals = n\<rparr>"

theorem analysis_selects_best_witness:
  "rd_root_cause (analyze_root_cause [demo_evaluation ''a'' 1 1, demo_evaluation ''b'' 1 2]) = Plain ''b''
     \<and> supported_evaluation (demo_evaluation ''a'' 1 1)"
proof -
  have "supported_evaluation (demo_evaluation i q n)" for i q n
    by (simp add: supported_evaluation_def demo_evaluation_def discriminator_eligible_def)
  then show ?thesis
    using analysis_selects_best [of "[demo_evaluation ''a'' 1 1, demo_evaluation ''b'' 1 2]" "demo_evaluation ''a'' 1 1"]
    by (auto simp: demo_evaluation_def UNKNOWN_EVALUATION_ID_def)
qed

end
