(* ===== verification/Timeline_Capture.thy ===== *)
theory Timeline_Capture
  imports Json_Value
begin

section \<open>Captured Kubernetes events\<close>

text \<open>
  \<^verbatim>\<open>domains/inventory/kubernetes_events.py\<close>: the collection proof that accompanies a snapshot, the
  Event facts it carries, and the Timeline events derived from them. A datetime is an instant, in
  microseconds since the epoch; \<^verbatim>\<open>datetime.fromisoformat\<close> on text and \<^verbatim>\<open>isoformat\<close> of an instant in
  UTC are arguments, so that the statements hold for whatever they compute (a naive result of
  \<^verbatim>\<open>fromisoformat\<close> is taken as UTC, as the code does).
\<close>

type_synonym datetime = int

record timelib =
  fromisoformat :: "string \<Rightarrow> datetime option"
  utc_isoformat :: "datetime \<Rightarrow> string"

subsection \<open>Reading values\<close>

definition normalized_text :: "json \<Rightarrow> string" where
  "normalized_text v = (if v = JNull then [] else py_strip (py_str v))"

definition nullable_text :: "json \<Rightarrow> string option" where
  "nullable_text v = (let t = normalized_text v in if t = [] then None else Some t)"

fun positive_int :: "json \<Rightarrow> int option" where
  "positive_int (JInt i) = (if i \<ge> 1 then Some i else None)"
| "positive_int (JStr s) =
     (case int_of_text s of None \<Rightarrow> None | Some i \<Rightarrow> if i \<ge> 1 then Some i else None)"
| "positive_int _ = None"

fun exact_nonnegative_int :: "json \<Rightarrow> int option" where
  "exact_nonnegative_int (JInt i) = (if i \<ge> 0 then Some i else None)"
| "exact_nonnegative_int _ = None"

fun replace_loop :: "string \<Rightarrow> string \<Rightarrow> nat \<Rightarrow> string \<Rightarrow> string" where
  \<comment> \<open>\<^verbatim>\<open>s.replace(pat, r)\<close> for a non-empty pattern; the counter skips the rest of a match\<close>
  "replace_loop pat r n [] = []"
| "replace_loop pat r (Suc n) (x # xs) = replace_loop pat r n xs"
| "replace_loop pat r 0 (x # xs) =
     (if prefix pat (x # xs) then r @ replace_loop pat r (length pat - 1) xs
      else x # replace_loop pat r 0 xs)"

definition parse_timestamp :: "timelib \<Rightarrow> json \<Rightarrow> datetime option" where
  "parse_timestamp L v =
     (case as_str v of
        None \<Rightarrow> None
      | Some s \<Rightarrow> if py_strip s = [] then None else fromisoformat L (replace_loop ''Z'' ''+00:00'' 0 s))"

definition timestamp_wire_value :: "timelib \<Rightarrow> datetime \<Rightarrow> string" where
  "timestamp_wire_value L t = replace_loop ''+00:00'' ''Z'' 0 (utc_isoformat L t)"

subsection \<open>The collection proof\<close>

record event_capture =
  cap_complete :: bool
  cap_truncated :: bool
  cap_reason :: string
  cap_observed_at :: "datetime option"
  cap_max_age :: "int option"
  cap_coverage :: jdict

definition no_capture :: event_capture where
  \<comment> \<open>\<^verbatim>\<open>cls(complete=False, truncated=False)\<close>\<close>
  "no_capture = \<lparr>cap_complete = False, cap_truncated = False, cap_reason = [], cap_observed_at = None,
     cap_max_age = None, cap_coverage = []\<rparr>"

definition mapping_or_empty :: "json \<Rightarrow> jdict" where
  "mapping_or_empty v = (case as_dict v of Some d \<Rightarrow> d | None \<Rightarrow> [])"

definition authoritative :: "event_capture \<Rightarrow> bool" where
  "authoritative c \<longleftrightarrow> cap_complete c \<and> \<not> cap_truncated c \<and> cap_reason c = ''complete''
     \<and> cap_observed_at c \<noteq> None \<and> (case cap_max_age c of None \<Rightarrow> False | Some a \<Rightarrow> a > 0)
     \<and> dget (cap_coverage c) ''scope'' = JStr ''all_namespaces''
     \<and> dget (cap_coverage c) ''pagination'' = JStr ''continue''
     \<and> \<not> truthy (dget (cap_coverage c) ''gap'')"

definition is_fresh_at :: "event_capture \<Rightarrow> datetime \<Rightarrow> bool" where
  "is_fresh_at c observed_at \<longleftrightarrow> authoritative c
     \<and> (case (cap_observed_at c, cap_max_age c) of
          (Some t, Some age) \<Rightarrow> 0 \<le> observed_at - t \<and> observed_at - t \<le> age * 1000000
        | _ \<Rightarrow> False)"

definition with_gap :: "string \<Rightarrow> event_capture \<Rightarrow> event_capture" where
  "with_gap reason c =
     c\<lparr>cap_complete := False, cap_reason := reason,
       cap_coverage := dset (cap_coverage c) ''gap'' (JStr reason)\<rparr>"

definition capture_from_summary :: "timelib \<Rightarrow> jdict \<Rightarrow> event_capture" where
  \<comment> \<open>\<^verbatim>\<open>KubernetesEventCapture.from_snapshot_summary\<close>\<close>
  "capture_from_summary L summary =
     (case as_dict (dget summary ''kubernetes_event_capture'') of
        None \<Rightarrow> no_capture
      | Some capture \<Rightarrow>
         (case (dget capture ''complete'', dget capture ''truncated'') of
            (JBool is_complete, JBool is_truncated) \<Rightarrow>
              (let freshness = mapping_or_empty (dget capture ''freshness'')
               in \<lparr>cap_complete = is_complete, cap_truncated = is_truncated,
                   cap_reason = normalized_text (dget capture ''reason''),
                   cap_observed_at = parse_timestamp L (dget freshness ''observed_at''),
                   cap_max_age = positive_int (dget freshness ''max_age_seconds''),
                   cap_coverage = mapping_or_empty (dget capture ''coverage'')\<rparr>)
          | _ \<Rightarrow> no_capture))"

subsection \<open>Event facts\<close>

record event_observation =
  eo_uid :: string
  eo_api_version :: string
  eo_namespace :: "string option"
  eo_name :: string
  eo_type :: string
  eo_count :: int
  eo_last_at :: datetime

record fact_batch =
  fb_capture :: event_capture
  fb_observations :: "event_observation list"

definition event_last_occurrence :: "timelib \<Rightarrow> jdict \<Rightarrow> datetime option" where
  "event_last_occurrence L summary =
     (case parse_timestamp L (dget summary ''last_occurrence_at'') of
        Some t \<Rightarrow> Some t
      | None \<Rightarrow> parse_timestamp L (dget summary ''last_timestamp''))"

definition kubernetes_event_fact_observation :: "timelib \<Rightarrow> json \<Rightarrow> event_observation option" where
  "kubernetes_event_fact_observation L v =
     (case as_dict v of
        None \<Rightarrow> None
      | Some fct \<Rightarrow>
         (let uid = normalized_text (dget fct ''uid''); name = normalized_text (dget fct ''name'')
          in case (positive_int (dget fct ''count''), event_last_occurrence L fct) of
               (Some count, Some last_at) \<Rightarrow>
                 if uid = [] \<or> name = [] then None
                 else Some \<lparr>eo_uid = uid, eo_api_version = normalized_text (dget fct ''api_version''),
                            eo_namespace = nullable_text (dget fct ''namespace''), eo_name = name,
                            eo_type = normalized_text (dget fct ''type''), eo_count = count,
                            eo_last_at = last_at\<rparr>
             | _ \<Rightarrow> None))"

definition INVALID_FACT :: string where
  "INVALID_FACT = ''invalid_event_fact_contract''"

definition batch_from_summary :: "timelib \<Rightarrow> jdict \<Rightarrow> fact_batch" where
  \<comment> \<open>\<^verbatim>\<open>KubernetesEventFactBatch.from_snapshot_summary\<close>\<close>
  "batch_from_summary L summary =
     (let capture = capture_from_summary L summary;
          failed = \<lparr>fb_capture = with_gap INVALID_FACT capture, fb_observations = []\<rparr>
      in if \<not> authoritative capture then \<lparr>fb_capture = capture, fb_observations = []\<rparr>
         else case as_list (dget summary ''kubernetes_event_facts'') of
                None \<Rightarrow> failed
              | Some fcts \<Rightarrow>
                 (case those (map (kubernetes_event_fact_observation L) fcts) of
                    None \<Rightarrow> failed
                  | Some observations \<Rightarrow>
                      if exact_nonnegative_int (dget (cap_coverage capture) ''event_count'')
                           \<noteq> Some (int (length observations)) then failed
                      else \<lparr>fb_capture = capture, fb_observations = observations\<rparr>))"

subsection \<open>Timeline events\<close>

definition observation_sort_key :: "event_observation \<Rightarrow> int \<times> datetime" where
  "observation_sort_key o1 = (eo_count o1, eo_last_at o1)"

definition observations_by_uid :: "event_observation list \<Rightarrow> (string \<times> event_observation) list" where
  \<comment> \<open>\<^verbatim>\<open>event_observations_by_uid_from_facts\<close>\<close>
  "observations_by_uid observations =
     fold (\<lambda>ob by_uid. case map_of by_uid (eo_uid ob) of
             None \<Rightarrow> dset by_uid (eo_uid ob) ob
           | Some existing \<Rightarrow>
               if observation_sort_key ob > observation_sort_key existing
               then dset by_uid (eo_uid ob) ob else by_uid) observations []"

definition event_observation_advanced :: "event_observation option \<Rightarrow> event_observation \<Rightarrow> bool" where
  "event_observation_advanced previous current =
     (case previous of
        None \<Rightarrow> True
      | Some p \<Rightarrow> eo_count current > eo_count p \<or> eo_last_at current > eo_last_at p)"

definition split_api_version :: "string \<Rightarrow> string \<times> string" where
  \<comment> \<open>\<^verbatim>\<open>rsplit("/", 1)\<close>\<close>
  "split_api_version v =
     (if CHR ''/'' \<notin> set v then ([], v)
      else let parts = py_split CHR ''/'' v in (py_join ''/'' (butlast parts), last parts))"

definition kubernetes_event_source_key :: "timelib \<Rightarrow> event_observation \<Rightarrow> string" where
  "kubernetes_event_source_key L ob =
     py_join '':'' [''kubernetes_event'', eo_uid ob, int_str (eo_count ob), timestamp_wire_value L (eo_last_at ob)]"

record resource_ref =
  rr_api_group :: string
  rr_version :: string
  rr_kind :: string
  rr_namespace :: "string option"
  rr_name :: string
  rr_uid :: string

record timeline_event =
  te_event_id :: string
  te_source_key :: string
  te_native_id :: string
  te_occurred_at :: datetime
  te_workspace_id :: string
  te_cluster_id :: string
  te_resource :: resource_ref
  te_severity :: string
  te_metadata :: jdict

definition kubernetes_event_timeline_metadata :: "timelib \<Rightarrow> event_observation \<Rightarrow> event_capture \<Rightarrow> jdict" where
  "kubernetes_event_timeline_metadata L ob capture =
     [(''count'', JInt (eo_count ob)),
      (''last_occurrence_at'', JStr (timestamp_wire_value L (eo_last_at ob))),
      (''collection_complete'', JBool True), (''collection_truncated'', JBool False)] @
     (case cap_observed_at capture of
        None \<Rightarrow> []
      | Some t \<Rightarrow>
         [(''collection_reason'', JStr (cap_reason capture)),
          (''capture_observed_at'', JStr (timestamp_wire_value L t)),
          (''freshness_max_age_seconds'',
             case cap_max_age capture of None \<Rightarrow> JNull | Some a \<Rightarrow> JInt a)])"

definition kubernetes_event_timeline_event :: "timelib \<Rightarrow> string \<Rightarrow> string \<Rightarrow> event_capture \<Rightarrow>
    event_observation \<Rightarrow> timeline_event" where
  \<comment> \<open>the fields that are the same for every Kubernetes event are left out\<close>
  "kubernetes_event_timeline_event L workspace_id cluster_id capture ob =
     (let (api_group, version) = split_api_version (eo_api_version ob)
      in \<lparr>te_event_id = kubernetes_event_source_key L ob, te_source_key = kubernetes_event_source_key L ob,
          te_native_id = eo_uid ob, te_occurred_at = eo_last_at ob, te_workspace_id = workspace_id,
          te_cluster_id = cluster_id,
          te_resource = \<lparr>rr_api_group = api_group, rr_version = version, rr_kind = ''Event'',
            rr_namespace = eo_namespace ob, rr_name = eo_name ob, rr_uid = eo_uid ob\<rparr>,
          te_severity = (if py_casefold (eo_type ob) = ''warning'' then ''warning'' else ''info''),
          te_metadata = kubernetes_event_timeline_metadata L ob capture\<rparr>)"

definition kubernetes_event_fact_timeline_events :: "timelib \<Rightarrow> string \<Rightarrow> string \<Rightarrow> datetime \<Rightarrow>
    fact_batch option \<Rightarrow> fact_batch \<Rightarrow> timeline_event list" where
  "kubernetes_event_fact_timeline_events L workspace_id cluster_id observed_at previous current =
     (if \<not> is_fresh_at (fb_capture current) observed_at then []
      else let previous_by_uid =
             (case previous of
                Some p \<Rightarrow> if authoritative (fb_capture p) then observations_by_uid (fb_observations p) else []
              | None \<Rightarrow> [])
           in map (kubernetes_event_timeline_event L workspace_id cluster_id (fb_capture current) \<circ> snd)
                (filter (\<lambda>(uid, ob). event_observation_advanced (map_of previous_by_uid uid) ob)
                   (sort_key fst (observations_by_uid (fb_observations current)))))"

subsection \<open>The newest observation of each Event\<close>

definition keep_newest :: "event_observation \<Rightarrow> (string \<times> event_observation) list \<Rightarrow> (string \<times> event_observation) list" where
  "keep_newest ob by_uid =
     (case map_of by_uid (eo_uid ob) of
        None \<Rightarrow> dset by_uid (eo_uid ob) ob
      | Some existing \<Rightarrow>
          if observation_sort_key ob > observation_sort_key existing
          then dset by_uid (eo_uid ob) ob else by_uid)"

definition newest :: "event_observation list \<Rightarrow> string \<Rightarrow> event_observation option" where
  "newest observations = map_of (observations_by_uid observations)"

definition newest_in :: "event_observation list \<Rightarrow> string \<Rightarrow> event_observation option \<Rightarrow> bool" where
  \<comment> \<open>a maximal observation of the uid, or None when there is no observation of it\<close>
  "newest_in observations uid best \<longleftrightarrow>
     (case best of
        None \<Rightarrow> \<forall>ob \<in> set observations. eo_uid ob \<noteq> uid
      | Some b \<Rightarrow> b \<in> set observations \<and> eo_uid b = uid \<and>
          (\<forall>ob \<in> set observations. eo_uid ob = uid \<longrightarrow> observation_sort_key ob \<le> observation_sort_key b))"

lemma by_uid_fold: "observations_by_uid observations = fold keep_newest observations []"
  unfolding observations_by_uid_def keep_newest_def ..

lemma keep_newest_distinct: "distinct (map fst t) \<Longrightarrow> distinct (map fst (keep_newest ob t))"
  by (simp add: keep_newest_def distinct_dset split: option.split)

lemma by_uid_distinct: "distinct (map fst (observations_by_uid observations))"
proof -
  have "distinct (map fst t) \<Longrightarrow> distinct (map fst (fold keep_newest obs t))" for obs t
    by (induction obs arbitrary: t) (simp_all add: keep_newest_distinct)
  from this [of "[]"] show ?thesis by (simp add: by_uid_fold)
qed

lemma keep_newest_step:
  assumes "newest_in seen uid (map_of t uid)"
  shows "newest_in (seen @ [ob]) uid (map_of (keep_newest ob t) uid)"
proof (cases "uid = eo_uid ob")
  case True
  with assms show ?thesis
    by (cases "map_of t uid")
       (auto simp: newest_in_def keep_newest_def not_less
         intro: order_trans [OF _ order_less_imp_le])
next
  case False
  have "map_of (keep_newest ob t) uid = map_of t uid"
    using False by (simp add: keep_newest_def split: option.split)
  with False assms show ?thesis by (auto simp: newest_in_def split: option.splits)
qed

lemma keep_newest_fold:
  "newest_in seen uid (map_of t uid) \<Longrightarrow>
     newest_in (seen @ obs) uid (map_of (fold keep_newest obs t) uid)"
proof (induction obs arbitrary: seen t)
  case (Cons ob obs)
  from Cons.IH [OF keep_newest_step [OF Cons.prems]] show ?case by simp
qed simp

lemma newest_spec: "newest_in observations uid (newest observations uid)"
  using keep_newest_fold [of "[]" uid "[]" observations]
  by (simp add: newest_def by_uid_fold newest_in_def)

lemma newest_uid: "newest observations uid = Some ob \<Longrightarrow> eo_uid ob = uid"
  using newest_spec [of observations uid] by (simp add: newest_in_def)

subsection \<open>Which events are reported\<close>

lemma sorted_by_uid_map_of:
  "(uid, ob) \<in> set (sort_key fst (observations_by_uid observations)) \<longleftrightarrow> newest observations uid = Some ob"
  by (simp add: newest_def by_uid_distinct)

lemma nat_digits_chars: "c \<in> set (nat_digits n) \<Longrightarrow> \<exists>k < 10. c = char_of (48 + k :: nat)"
proof (induction n rule: nat_digits.induct)
  case (1 n)
  then show ?case
    by (subst (asm) nat_digits.simps)
       (auto split: if_splits intro: exI [of _ n] exI [of _ "n mod 10"])
qed

lemma nat_digits_other: "of_char c < (48 :: nat) \<or> of_char c > (57 :: nat) \<Longrightarrow> c \<notin> set (nat_digits n)"
  by (auto dest!: nat_digits_chars)

lemma digits_value_snoc: "digits_value acc (cs @ [c]) = 10 * digits_value acc cs + (of_char c - 48)"
  by (induction acc cs rule: digits_value.induct) simp_all

lemma digits_value_nat_digits: "digits_value 0 (nat_digits n) = n"
proof (induction n rule: nat_digits.induct)
  case (1 n)
  then show ?case by (subst nat_digits.simps) (simp add: digits_value_snoc)
qed

lemma nat_digits_inj: "nat_digits m = nat_digits n \<longleftrightarrow> m = n"
  using digits_value_nat_digits by metis

lemma int_str_inj: "int_str i = int_str j \<longleftrightarrow> i = j"
proof -
  have "CHR ''-'' \<notin> set (nat_digits n)" for n by (rule nat_digits_other) simp
  then have "CHR ''-'' # ds \<noteq> nat_digits n" "nat_digits n \<noteq> CHR ''-'' # ds" for ds n
    by (metis list.set_intros(1))+
  then show ?thesis by (auto simp: int_str_def nat_digits_inj)
qed

lemma int_str_no_colon: "CHR '':'' \<notin> set (int_str i)"
proof -
  have "CHR '':'' \<notin> set (nat_digits n)" for n by (rule nat_digits_other) simp
  then show ?thesis by (simp add: int_str_def)
qed

lemma append_sep_inj: "c \<notin> set xs \<Longrightarrow> c \<notin> set ys \<Longrightarrow> xs @ c # zs = ys @ c # ws \<Longrightarrow> xs = ys \<and> zs = ws"
proof (induction xs arbitrary: ys)
  case Nil
  then show ?case by (cases ys) auto
next
  case (Cons x xs)
  then show ?case by (cases ys) auto
qed

lemma source_key_inj:
  assumes "inj (timestamp_wire_value L)" "eo_uid a = eo_uid b"
    "kubernetes_event_source_key L a = kubernetes_event_source_key L b"
  shows "eo_count a = eo_count b \<and> eo_last_at a = eo_last_at b"
proof -
  from assms(2,3) have "int_str (eo_count a) @ CHR '':'' # timestamp_wire_value L (eo_last_at a) =
      int_str (eo_count b) @ CHR '':'' # timestamp_wire_value L (eo_last_at b)"
    by (simp add: kubernetes_event_source_key_def)
  from append_sep_inj [OF int_str_no_colon int_str_no_colon this] show ?thesis
    using assms(1) by (simp add: int_str_inj inj_eq)
qed


definition demo_batch :: "int \<Rightarrow> fact_batch" where
  "demo_batch n =
     \<lparr>fb_capture = \<lparr>cap_complete = True, cap_truncated = False, cap_reason = ''complete'',
        cap_observed_at = Some 0, cap_max_age = Some 60,
        cap_coverage = [(''scope'', JStr ''all_namespaces''), (''pagination'', JStr ''continue'')]\<rparr>,
      fb_observations = [\<lparr>eo_uid = ''u'', eo_api_version = ''v1'', eo_namespace = None, eo_name = ''n'',
        eo_type = ''Warning'', eo_count = n, eo_last_at = 5\<rparr>]\<rparr>"

definition decimal_time :: timelib where
  "decimal_time = \<lparr>fromisoformat = (\<lambda>_. None), utc_isoformat = int_str\<rparr>"

lemma replace_loop_absent: "hd pat \<notin> set s \<Longrightarrow> pat \<noteq> [] \<Longrightarrow> replace_loop pat r 0 s = s"
proof (induction s)
  case (Cons x s)
  then have "\<not> prefix pat (x # s)" by (cases pat) auto
  with Cons show ?case by simp
qed simp

lemma decimal_time_inj: "inj (timestamp_wire_value decimal_time)"
proof (rule injI)
  fix i j
  have plus: "CHR ''+'' \<notin> set (nat_digits n)" for n by (rule nat_digits_other) simp
  have "timestamp_wire_value decimal_time k = int_str k" for k
    using plus by (auto simp: timestamp_wire_value_def decimal_time_def int_str_def intro!: replace_loop_absent)
  then show "timestamp_wire_value decimal_time i = timestamp_wire_value decimal_time j \<Longrightarrow> i = j"
    by (simp add: int_str_inj)
qed


end
