(* ===== verification/Timeline_Coverage.thy ===== *)
theory Timeline_Coverage
  imports Timeline_Capture "HOL-Library.Multiset" "HOL-Library.AList"
begin

section \<open>Gaps of the event capture\<close>

text \<open>
  \<^verbatim>\<open>domains/timeline/coverage.py\<close>: from a sequence of inventory snapshots, the closed intervals in
  which the capture of Kubernetes events of a cluster was incomplete. There are two
  implementations: one collects the observations of each cluster, sorts them by time and scans
  them; the other makes one pass over a database cursor that is already ordered. The main result is
  that they return the same coverage on ordered snapshots. Constructing a \<^verbatim>\<open>TimelineCoverage\<close> raises
  when the interval has no positive width in milliseconds (the model validator of
  \<^verbatim>\<open>packages/contracts/timeline/models.py\<close>), which the projection does not prevent for a gap that
  closes within the same millisecond (\<open>submillisecond_gap_raises\<close>).
\<close>

subsection \<open>Data\<close>

record cluster_scope =
  sc_workspace_id :: string
  sc_cluster_id :: string
  sc_namespaces :: "string list"
  sc_freshness :: string

record timeline_window =
  win_from :: int
  win_to :: int

record timeline_coverage =
  cov_scope :: cluster_scope
  cov_source :: string
  cov_from :: int
  cov_to :: int
  cov_reason :: string

record read_scope =
  rs_event_clusters :: "string list"
  rs_scopes :: "cluster_scope list"

datatype capture_state = Gap | Recovery

record capture_observation =
  co_cluster_id :: string
  co_observed_at :: datetime
  co_state :: capture_state

datatype coverage_error = LimitExceeded int | Unordered | InvalidCoverage

definition milliseconds :: "datetime \<Rightarrow> int" where
  \<comment> \<open>\<^verbatim>\<open>int(value.timestamp() * 1_000)\<close>\<close>
  "milliseconds t = (if t < 0 then - ((- t) div 1000) else t div 1000)"

definition intersects_window :: "int \<Rightarrow> int \<Rightarrow> timeline_window \<Rightarrow> bool" where
  "intersects_window from_ms to_ms window \<longleftrightarrow> from_ms < win_to window \<and> win_from window < to_ms"

definition scope_key :: "cluster_scope \<Rightarrow> string \<times> string \<times> string list" where
  "scope_key s = (sc_workspace_id s, sc_cluster_id s, sc_namespaces s)"

definition coverage_key :: "timeline_coverage \<Rightarrow> (string \<times> string \<times> string list) \<times> string \<times> int \<times> int \<times> string" where
  "coverage_key i = (scope_key (cov_scope i), cov_source i, cov_from i, cov_to i, cov_reason i)"

definition coverage_sort_key :: "timeline_coverage \<Rightarrow> int \<times> int \<times> (string \<times> string \<times> string list) \<times> string \<times> string" where
  "coverage_sort_key i = (cov_from i, cov_to i, scope_key (cov_scope i), cov_source i, cov_reason i)"

subsection \<open>Observations\<close>

definition add_scope :: "string list \<Rightarrow> cluster_scope \<Rightarrow> (string \<times> cluster_scope list) list \<Rightarrow>
    (string \<times> cluster_scope list) list" where
  \<comment> \<open>the body of the loop of \<^verbatim>\<open>_authorized_scopes_by_cluster\<close>\<close>
  "add_scope clusters s d =
     (if sc_cluster_id s \<in> set clusters
      then dset d (sc_cluster_id s) ((case map_of d (sc_cluster_id s) of None \<Rightarrow> [] | Some ss \<Rightarrow> ss) @ [s])
      else d)"

definition authorized_scopes_by_cluster :: "read_scope \<Rightarrow> (string \<times> cluster_scope list) list" where
  "authorized_scopes_by_cluster rs =
     map (\<lambda>(cluster_id, ss). (cluster_id, sort_key scope_key ss))
       (fold (add_scope (rs_event_clusters rs)) (rs_scopes rs) [])"

definition is_explicit_gap :: "event_capture \<Rightarrow> bool" where
  "is_explicit_gap c \<longleftrightarrow>
     (let gap = normalized_text (dget (cap_coverage c) ''gap'')
      in \<not> cap_complete c \<and> gap \<noteq> [] \<and> cap_reason c = gap
         \<and> dget (cap_coverage c) ''scope'' = JStr ''all_namespaces''
         \<and> dget (cap_coverage c) ''pagination'' = JStr ''continue'')"

definition is_proven_recovery :: "event_capture \<Rightarrow> bool" where
  "is_proven_recovery c \<longleftrightarrow> authoritative c
     \<and> positive_int (dget (cap_coverage c) ''page_count'') \<noteq> None
     \<and> exact_nonnegative_int (dget (cap_coverage c) ''event_count'') \<noteq> None
     \<and> normalized_text (dget (cap_coverage c) ''resource_version'') \<noteq> []"

definition capture_observation_of :: "timelib \<Rightarrow> (string \<times> cluster_scope list) list \<Rightarrow> timeline_window \<Rightarrow>
    jdict \<Rightarrow> capture_observation option" where
  \<comment> \<open>\<^verbatim>\<open>_capture_observation\<close>\<close>
  "capture_observation_of L scopes window snapshot =
     (let cluster_id = normalized_text (dget snapshot ''cluster_id'')
      in if normalized_text (dget snapshot ''status'') = ''ignored_stale'' then None
         else if map_of scopes cluster_id = None then None
         else case as_dict (dget snapshot ''summary'') of
                None \<Rightarrow> None
              | Some summary \<Rightarrow>
                 (case as_dict (dget summary ''summary'') of
                    None \<Rightarrow> None
                  | Some source_summary \<Rightarrow>
                     (let capture = capture_from_summary L source_summary
                      in case cap_observed_at capture of
                           None \<Rightarrow> None
                         | Some t \<Rightarrow>
                             if milliseconds t \<ge> win_to window then None
                             else if is_explicit_gap capture
                             then Some \<lparr>co_cluster_id = cluster_id, co_observed_at = t, co_state = Gap\<rparr>
                             else if is_proven_recovery capture
                             then Some \<lparr>co_cluster_id = cluster_id, co_observed_at = t, co_state = Recovery\<rparr>
                             else None)))"

subsection \<open>Projection\<close>

definition make_coverage :: "cluster_scope \<Rightarrow> int \<Rightarrow> int \<Rightarrow> coverage_error + timeline_coverage" where
  \<comment> \<open>\<^verbatim>\<open>TimelineCoverage(...)\<close> with its field bounds and \<^verbatim>\<open>validate_bounds\<close>\<close>
  "make_coverage s from_ms to_ms =
     (if from_ms < 0 \<or> to_ms \<le> 0 \<or> from_ms \<ge> to_ms then Inl InvalidCoverage
      else Inr \<lparr>cov_scope = s, cov_source = ''kubernetes_event'', cov_from = from_ms, cov_to = to_ms,
                cov_reason = ''collection_gap''\<rparr>)"

definition append_coverage_intervals :: "cluster_scope list \<Rightarrow> int \<Rightarrow> int \<Rightarrow> int option \<Rightarrow>
    timeline_coverage list \<Rightarrow> coverage_error + timeline_coverage list" where
  "append_coverage_intervals scopes from_ms to_ms max_intervals =
     foldE (\<lambda>s projected.
       case max_intervals of
         Some m \<Rightarrow> if int (length projected) \<ge> m then Inl (LimitExceeded m)
                  else bindE (make_coverage s from_ms to_ms) (\<lambda>c. Inr (projected @ [c]))
       | None \<Rightarrow> bindE (make_coverage s from_ms to_ms) (\<lambda>c. Inr (projected @ [c]))) scopes"

definition scan_step :: "cluster_scope list \<Rightarrow> timeline_window \<Rightarrow> int option \<Rightarrow> capture_observation \<Rightarrow>
    datetime option \<times> timeline_coverage list \<Rightarrow> coverage_error + datetime option \<times> timeline_coverage list" where
  \<comment> \<open>the body of the loop over the observations of one cluster\<close>
  "scan_step scopes window max_intervals ob = (\<lambda>(opened_at, projected).
     case (co_state ob, opened_at) of
       (Gap, None) \<Rightarrow> Inr (Some (co_observed_at ob), projected)
     | (Gap, Some t) \<Rightarrow> Inr (Some t, projected)
     | (Recovery, None) \<Rightarrow> Inr (None, projected)
     | (Recovery, Some t) \<Rightarrow>
         if co_observed_at ob \<le> t then Inr (Some t, projected)
         else let from_ms = milliseconds t; to_ms = milliseconds (co_observed_at ob)
              in if intersects_window from_ms to_ms window
                 then bindE (append_coverage_intervals scopes from_ms to_ms max_intervals projected)
                        (\<lambda>projected. Inr (None, projected))
                 else Inr (None, projected))"

definition group_observations :: "capture_observation list \<Rightarrow> (string \<times> capture_observation list) list" where
  \<comment> \<open>\<^verbatim>\<open>observations_by_cluster.setdefault(...).append(...)\<close>\<close>
  "group_observations obs =
     fold (\<lambda>ob d. dset d (co_cluster_id ob)
       ((case map_of d (co_cluster_id ob) of None \<Rightarrow> [] | Some xs \<Rightarrow> xs) @ [ob])) obs []"

definition project_clusters :: "(string \<times> cluster_scope list) list \<Rightarrow> timeline_window \<Rightarrow> int option \<Rightarrow>
    (string \<times> capture_observation list) list \<Rightarrow> timeline_coverage list \<Rightarrow> coverage_error + timeline_coverage list" where
  \<comment> \<open>the loop over the clusters\<close>
  "project_clusters scopes window max_intervals =
     foldE (\<lambda>(cluster_id, obs) projected.
       bindE (foldE (scan_step (the (map_of scopes cluster_id)) window max_intervals)
                (sort_key co_observed_at obs) (None, projected))
         (\<lambda>(opened_at, projected). Inr projected))"

definition ordered_step :: "(string \<times> cluster_scope list) list \<Rightarrow> timeline_window \<Rightarrow> int option \<Rightarrow>
    capture_observation \<Rightarrow> (string \<rightharpoonup> datetime) \<times> (string \<rightharpoonup> datetime) \<times> timeline_coverage list \<Rightarrow>
    coverage_error + (string \<rightharpoonup> datetime) \<times> (string \<rightharpoonup> datetime) \<times> timeline_coverage list" where
  \<comment> \<open>the body of the loop of \<^verbatim>\<open>_project_ordered_capture_coverage\<close>, for an observation that is not None\<close>
  "ordered_step scopes window max_intervals ob = (\<lambda>(opened, last_observed, projected).
     let c = co_cluster_id ob; at_time = co_observed_at ob
     in if (case last_observed c of None \<Rightarrow> False | Some previous \<Rightarrow> at_time < previous) then Inl Unordered
        else let last_observed = last_observed(c \<mapsto> at_time)
             in case co_state ob of
                  Gap \<Rightarrow> Inr (if opened c = None then opened(c \<mapsto> at_time) else opened, last_observed, projected)
                | Recovery \<Rightarrow>
                   (case opened c of
                      None \<Rightarrow> Inr (opened, last_observed, projected)
                    | Some t \<Rightarrow>
                        if at_time \<le> t then Inr (opened, last_observed, projected)
                        else let from_ms = milliseconds t; to_ms = milliseconds at_time
                             in if intersects_window from_ms to_ms window
                                then bindE (append_coverage_intervals (the (map_of scopes c)) from_ms to_ms
                                        max_intervals projected)
                                      (\<lambda>projected. Inr (opened(c := None), last_observed, projected))
                                else Inr (opened(c := None), last_observed, projected)))"

definition project_ordered :: "timelib \<Rightarrow> (string \<times> cluster_scope list) list \<Rightarrow> timeline_window \<Rightarrow> int option \<Rightarrow>
    jdict list \<Rightarrow> coverage_error + timeline_coverage list" where
  \<comment> \<open>\<^verbatim>\<open>_project_ordered_capture_coverage\<close>\<close>
  "project_ordered L scopes window max_intervals snapshots =
     bindE (foldE (ordered_step scopes window max_intervals)
              (List.map_filter (capture_observation_of L scopes window) snapshots)
              (\<lambda>_. None, \<lambda>_. None, []))
       (\<lambda>(opened, last_observed, projected). Inr (sort_key coverage_sort_key projected))"

definition project_capture_coverage :: "timelib \<Rightarrow> read_scope \<Rightarrow> timeline_window \<Rightarrow> jdict list \<Rightarrow> bool \<Rightarrow>
    int option \<Rightarrow> coverage_error + timeline_coverage list" where
  \<comment> \<open>\<^verbatim>\<open>project_kubernetes_event_capture_coverage\<close>\<close>
  "project_capture_coverage L rs window snapshots snapshots_ordered max_intervals =
     (let scopes = authorized_scopes_by_cluster rs
      in if snapshots_ordered then project_ordered L scopes window max_intervals snapshots
         else bindE (project_clusters scopes window max_intervals
                (group_observations (List.map_filter (capture_observation_of L scopes window) snapshots)) [])
              (\<lambda>projected. Inr (sort_key coverage_sort_key projected)))"

subsection \<open>Filtering and additions\<close>

definition keyed_values :: "timeline_coverage list \<Rightarrow> timeline_coverage list" where
  \<comment> \<open>\<^verbatim>\<open>tuple(sorted({_coverage_key(i): i for i in items}.values(), key=_coverage_sort_key))\<close>\<close>
  "keyed_values items =
     sort_key coverage_sort_key (map snd (fold (\<lambda>i. AList.update (coverage_key i) i) items []))"

definition authorized_event_coverage :: "read_scope \<Rightarrow> timeline_window \<Rightarrow> timeline_coverage list \<Rightarrow> timeline_coverage list" where
  \<comment> \<open>\<^verbatim>\<open>authorized_kubernetes_event_coverage\<close>\<close>
  "authorized_event_coverage rs window coverage =
     (let allowed = map scope_key (concat (map snd (authorized_scopes_by_cluster rs)))
      in keyed_values (filter (\<lambda>i. cov_source i = ''kubernetes_event'' \<and> cov_reason i = ''collection_gap''
            \<and> scope_key (cov_scope i) \<in> set allowed
            \<and> intersects_window (cov_from i) (cov_to i) window) coverage))"

definition coverage_additions :: "timeline_coverage list \<Rightarrow> timeline_coverage list \<Rightarrow> timeline_coverage list" where
  "coverage_additions previous current =
     keyed_values (filter (\<lambda>i. coverage_key i \<notin> coverage_key ` set previous) current)"

definition event_coverage_visible :: "string list \<Rightarrow> string list \<Rightarrow> string \<Rightarrow> bool" where
  \<comment> \<open>\<^verbatim>\<open>kubernetes_event_coverage_visible_for_query\<close>, of the activity, kinds and text filters\<close>
  "event_coverage_visible activity kinds query =
     (if activity \<noteq> [] \<and> ''k8s_event'' \<notin> set activity then False
      else if kinds \<noteq> [] \<and> ''Event'' \<notin> set kinds then False
      else py_strip query = [])"

subsection \<open>What the projections emit\<close>

fun gap_step :: "capture_observation \<Rightarrow> datetime option \<Rightarrow> datetime option \<times> (datetime \<times> datetime) list" where
  \<comment> \<open>the open gap after an observation, and the gap it closes\<close>
  "gap_step ob None = (case co_state ob of Gap \<Rightarrow> (Some (co_observed_at ob), []) | Recovery \<Rightarrow> (None, []))"
| "gap_step ob (Some t) =
     (case co_state ob of
        Gap \<Rightarrow> (Some t, [])
      | Recovery \<Rightarrow> if co_observed_at ob \<le> t then (Some t, []) else (None, [(t, co_observed_at ob)]))"

fun closed_gaps :: "datetime option \<Rightarrow> capture_observation list \<Rightarrow> (datetime \<times> datetime) list" where
  "closed_gaps opened [] = []"
| "closed_gaps opened (ob # obs) = snd (gap_step ob opened) @ closed_gaps (fst (gap_step ob opened)) obs"

definition cov :: "int \<Rightarrow> int \<Rightarrow> cluster_scope \<Rightarrow> timeline_coverage" where
  "cov f t s = \<lparr>cov_scope = s, cov_source = ''kubernetes_event'', cov_from = f, cov_to = t,
     cov_reason = ''collection_gap''\<rparr>"

definition emit :: "cluster_scope list \<Rightarrow> timeline_window \<Rightarrow> datetime \<times> datetime \<Rightarrow> timeline_coverage list" where
  "emit scopes window = (\<lambda>(t, u).
     if intersects_window (milliseconds t) (milliseconds u) window
     then map (cov (milliseconds t) (milliseconds u)) scopes else [])"

definition accepted :: "int option \<Rightarrow> timeline_coverage list \<Rightarrow> bool" where
  "accepted max_intervals out \<longleftrightarrow>
     (\<forall>i \<in> set out. 0 \<le> cov_from i \<and> 0 < cov_to i \<and> cov_from i < cov_to i)
     \<and> (out = [] \<or> (case max_intervals of None \<Rightarrow> True | Some m \<Rightarrow> int (length out) \<le> m))"

lemma accepted_prefix: "accepted m (xs @ ys) \<Longrightarrow> accepted m xs"
  by (auto simp: accepted_def split: option.splits)

lemma accepted_mset: "mset xs = mset ys \<Longrightarrow> accepted m xs \<longleftrightarrow> accepted m ys"
  unfolding accepted_def by (metis mset_eq_setD mset_eq_length length_0_conv)

lemma append_coverage_iff:
  assumes "accepted m projected"
  shows "append_coverage_intervals scopes f t m projected = Inr out \<longleftrightarrow>
     out = projected @ map (cov f t) scopes \<and> accepted m out"
  using assms
proof (induction scopes arbitrary: projected)
  case Nil
  then show ?case by (auto simp: append_coverage_intervals_def)
next
  case (Cons s scopes)
  have step: "append_coverage_intervals (s # scopes) f t m projected = Inr out \<longleftrightarrow>
      accepted m (projected @ [cov f t s]) \<and>
      append_coverage_intervals scopes f t m (projected @ [cov f t s]) = Inr out"
    using Cons.prems
    by (auto simp: append_coverage_intervals_def make_coverage_def accepted_def cov_def split: option.splits if_splits)
  show ?case
  proof (cases "accepted m (projected @ [cov f t s])")
    case True
    from Cons.IH [OF this] step True show ?thesis by simp
  next
    case False
    with accepted_prefix [of m "projected @ [cov f t s]" "map (cov f t) scopes"] step show ?thesis by auto
  qed
qed

lemma scan_step_iff:
  assumes "accepted m projected"
  shows "scan_step scopes window m ob (opened, projected) = Inr (opened', out) \<longleftrightarrow>
     opened' = fst (gap_step ob opened)
     \<and> out = projected @ concat (map (emit scopes window) (snd (gap_step ob opened))) \<and> accepted m out"
  using assms append_coverage_iff [OF assms]
  by (cases opened) (auto simp: scan_step_def emit_def Let_def split: capture_state.splits)

lemma scan_iff:
  assumes "accepted m projected"
  shows "(\<exists>opened'. foldE (scan_step scopes window m) obs (opened, projected) = Inr (opened', out)) \<longleftrightarrow>
     out = projected @ concat (map (emit scopes window) (closed_gaps opened obs)) \<and> accepted m out"
  using assms
proof (induction obs arbitrary: opened projected)
  case Nil
  then show ?case by auto
next
  case (Cons ob obs)
  let ?p = "projected @ concat (map (emit scopes window) (snd (gap_step ob opened)))"
  have step: "(\<exists>opened'. foldE (scan_step scopes window m) (ob # obs) (opened, projected) = Inr (opened', out)) \<longleftrightarrow>
      accepted m ?p \<and> (\<exists>opened'. foldE (scan_step scopes window m) obs (fst (gap_step ob opened), ?p) = Inr (opened', out))"
    using scan_step_iff [OF Cons.prems] by auto
  show ?case
  proof (cases "accepted m ?p")
    case True
    from Cons.IH [OF True] show ?thesis unfolding step using True by simp
  next
    case False
    then show ?thesis unfolding step
      using accepted_prefix [of m ?p "concat (map (emit scopes window) (closed_gaps (fst (gap_step ob opened)) obs))"] by auto
  qed
qed

definition cluster_gaps :: "(string \<times> cluster_scope list) list \<Rightarrow> timeline_window \<Rightarrow>
    (string \<times> capture_observation list) list \<Rightarrow> timeline_coverage list" where
  \<comment> \<open>the coverage of grouped observations\<close>
  "cluster_gaps scopes window groups =
     concat (map (\<lambda>(c, obs). concat (map (emit (the (map_of scopes c)) window)
       (closed_gaps None (sort_key co_observed_at obs)))) groups)"

lemma project_clusters_iff:
  assumes "accepted m projected"
  shows "project_clusters scopes window m groups projected = Inr out \<longleftrightarrow>
     out = projected @ cluster_gaps scopes window groups \<and> accepted m out"
  using assms
proof (induction groups arbitrary: projected)
  case Nil
  then show ?case by (auto simp: project_clusters_def cluster_gaps_def)
next
  case (Cons g groups)
  obtain c obs where g: "g = (c, obs)" by (cases g)
  let ?p = "projected @ concat (map (emit (the (map_of scopes c)) window)
      (closed_gaps None (sort_key co_observed_at obs)))"
  have "project_clusters scopes window m (g # groups) projected = Inr out \<longleftrightarrow>
      (\<exists>p. (\<exists>opened. foldE (scan_step (the (map_of scopes c)) window m) (sort_key co_observed_at obs)
          (None, projected) = Inr (opened, p)) \<and> project_clusters scopes window m groups p = Inr out)"
    by (auto simp: project_clusters_def g)
  then have step: "project_clusters scopes window m (g # groups) projected = Inr out \<longleftrightarrow>
      accepted m ?p \<and> project_clusters scopes window m groups ?p = Inr out"
    unfolding scan_iff [OF Cons.prems] by blast
  show ?case
  proof (cases "accepted m ?p")
    case True
    from Cons.IH [OF True] show ?thesis unfolding step using True by (simp add: cluster_gaps_def g)
  next
    case False
    then show ?thesis unfolding step
      using accepted_prefix [of m ?p "cluster_gaps scopes window groups"] by (auto simp: cluster_gaps_def g)
  qed
qed

subsection \<open>The stream\<close>

fun stream_gaps :: "(string \<times> cluster_scope list) list \<Rightarrow> timeline_window \<Rightarrow> (string \<rightharpoonup> datetime) \<Rightarrow>
    capture_observation list \<Rightarrow> timeline_coverage list" where
  \<comment> \<open>the coverage of a stream, given the open gaps\<close>
  "stream_gaps scopes window opened [] = []"
| "stream_gaps scopes window opened (ob # obs) =
     concat (map (emit (the (map_of scopes (co_cluster_id ob))) window) (snd (gap_step ob (opened (co_cluster_id ob)))))
     @ stream_gaps scopes window (opened(co_cluster_id ob := fst (gap_step ob (opened (co_cluster_id ob))))) obs"

fun in_order :: "(string \<rightharpoonup> datetime) \<Rightarrow> capture_observation list \<Rightarrow> bool" where
  "in_order last_observed [] \<longleftrightarrow> True"
| "in_order last_observed (ob # obs) \<longleftrightarrow>
     (case last_observed (co_cluster_id ob) of None \<Rightarrow> True | Some p \<Rightarrow> p \<le> co_observed_at ob)
     \<and> in_order (last_observed(co_cluster_id ob \<mapsto> co_observed_at ob)) obs"

lemma ordered_step_iff:
  assumes "accepted m projected"
  shows "ordered_step scopes window m ob (opened, last_observed, projected) = Inr (opened', last', out) \<longleftrightarrow>
     (case last_observed (co_cluster_id ob) of None \<Rightarrow> True | Some p \<Rightarrow> p \<le> co_observed_at ob)
     \<and> opened' = opened(co_cluster_id ob := fst (gap_step ob (opened (co_cluster_id ob))))
     \<and> last' = last_observed(co_cluster_id ob \<mapsto> co_observed_at ob)
     \<and> out = projected @ concat (map (emit (the (map_of scopes (co_cluster_id ob))) window)
         (snd (gap_step ob (opened (co_cluster_id ob))))) \<and> accepted m out"
  using assms append_coverage_iff [OF assms]
  by (cases "opened (co_cluster_id ob)"; cases "co_state ob"; cases "last_observed (co_cluster_id ob)")
     (auto simp: ordered_step_def emit_def Let_def fun_upd_idem)

lemma stream_iff:
  assumes "accepted m projected"
  shows "(\<exists>o' l'. foldE (ordered_step scopes window m) obs (opened, last_observed, projected) = Inr (o', l', out)) \<longleftrightarrow>
     in_order last_observed obs \<and> out = projected @ stream_gaps scopes window opened obs \<and> accepted m out"
  using assms
proof (induction obs arbitrary: opened last_observed projected)
  case Nil
  then show ?case by auto
next
  case (Cons ob obs)
  let ?c = "co_cluster_id ob"
  let ?g = "gap_step ob (opened ?c)"
  let ?p = "projected @ concat (map (emit (the (map_of scopes ?c)) window) (snd ?g))"
  have step: "(\<exists>o' l'. foldE (ordered_step scopes window m) (ob # obs) (opened, last_observed, projected) = Inr (o', l', out)) \<longleftrightarrow>
      (case last_observed ?c of None \<Rightarrow> True | Some p \<Rightarrow> p \<le> co_observed_at ob) \<and> accepted m ?p \<and>
      (\<exists>o' l'. foldE (ordered_step scopes window m) obs
         (opened(?c := fst ?g), last_observed(?c \<mapsto> co_observed_at ob), ?p) = Inr (o', l', out))"
    using ordered_step_iff [OF Cons.prems] by auto
  show ?case
  proof (cases "accepted m ?p")
    case True
    show ?thesis unfolding step Cons.IH [OF True] using True by (simp add: conj_assoc del: fun_upd_apply)
  next
    case False
    then show ?thesis unfolding step
      using accepted_prefix [of m ?p "stream_gaps scopes window (opened(?c := fst ?g)) obs"] by auto
  qed
qed

subsection \<open>Both projections, cluster by cluster\<close>

abbreviation of_cluster :: "string \<Rightarrow> capture_observation list \<Rightarrow> capture_observation list" where
  "of_cluster c \<equiv> filter (\<lambda>ob. co_cluster_id ob = c)"

abbreviation cov_cluster :: "timeline_coverage \<Rightarrow> string" where
  "cov_cluster i \<equiv> sc_cluster_id (cov_scope i)"

definition scopes_wf :: "(string \<times> cluster_scope list) list \<Rightarrow> bool" where
  "scopes_wf scopes \<longleftrightarrow> (\<forall>(c, ss) \<in> set scopes. \<forall>s \<in> set ss. sc_cluster_id s = c)"

definition cluster_ordered :: "capture_observation list \<Rightarrow> bool" where
  \<comment> \<open>the observations of each cluster are in the order of time\<close>
  "cluster_ordered obs \<longleftrightarrow> (\<forall>c. sorted (map co_observed_at (of_cluster c obs)))"

lemma in_order_sorted:
  "in_order l obs \<longleftrightarrow> (\<forall>c. sorted (map co_observed_at (of_cluster c obs))
      \<and> (case l c of None \<Rightarrow> True | Some p \<Rightarrow> \<forall>ob \<in> set (of_cluster c obs). p \<le> co_observed_at ob))"
proof (induction obs arbitrary: l)
  case Nil
  then show ?case by (simp split: option.split)
next
  case (Cons ob obs)
  let ?d = "co_cluster_id ob"
  show ?case (is "?lhs \<longleftrightarrow> (\<forall>c. ?P c)")
  proof
    assume ?lhs
    then have head: "case l ?d of None \<Rightarrow> True | Some p \<Rightarrow> p \<le> co_observed_at ob"
      and tail: "sorted (map co_observed_at (of_cluster c obs)) \<and>
         (case (l(?d \<mapsto> co_observed_at ob)) c of None \<Rightarrow> True
          | Some p \<Rightarrow> \<forall>ob \<in> set (of_cluster c obs). p \<le> co_observed_at ob)" for c
      unfolding in_order.simps Cons.IH by blast+
    show "\<forall>c. ?P c"
    proof
      fix c
      show "?P c" using head tail [of c] by (cases "c = ?d") (fastforce split: option.splits)+
    qed
  next
    assume all: "\<forall>c. ?P c"
    have "case l ?d of None \<Rightarrow> True | Some p \<Rightarrow> p \<le> co_observed_at ob"
      using spec [OF all, of ?d] by (auto split: option.splits)
    moreover have "sorted (map co_observed_at (of_cluster c obs)) \<and>
         (case (l(?d \<mapsto> co_observed_at ob)) c of None \<Rightarrow> True
          | Some p \<Rightarrow> \<forall>ob \<in> set (of_cluster c obs). p \<le> co_observed_at ob)" for c
      using spec [OF all, of c] by (cases "c = ?d") (auto split: option.splits if_splits)
    ultimately show ?lhs unfolding in_order.simps Cons.IH by blast
  qed
qed

lemma emit_cluster:
  "\<forall>s \<in> set ss. sc_cluster_id s = c \<Longrightarrow>
     filter (\<lambda>i. cov_cluster i = d) (concat (map (emit ss window) gs)) =
       (if c = d then concat (map (emit ss window) gs) else [])"
proof -
  assume ss: "\<forall>s \<in> set ss. sc_cluster_id s = c"
  have "\<forall>i \<in> set (concat (map (emit ss window) gs)). cov_cluster i = c"
    using ss by (auto simp: emit_def cov_def split: if_splits)
  then show ?thesis by (auto simp: filter_empty_conv intro!: filter_True)
qed

lemma scopes_wf_lookup:
  assumes "scopes_wf scopes" "map_of scopes c \<noteq> None"
  shows "\<forall>s \<in> set (the (map_of scopes c)). sc_cluster_id s = c"
proof -
  from assms(2) obtain ss where ss: "map_of scopes c = Some ss" by auto
  from map_of_SomeD [OF ss] assms(1) ss show ?thesis by (auto simp: scopes_wf_def)
qed

lemma stream_cluster:
  assumes wf: "scopes_wf scopes" and known: "\<forall>ob \<in> set obs. map_of scopes (co_cluster_id ob) \<noteq> None"
  shows "filter (\<lambda>i. cov_cluster i = c) (stream_gaps scopes window opened obs) =
     concat (map (emit (the (map_of scopes c)) window) (closed_gaps (opened c) (of_cluster c obs)))"
  using known
proof (induction obs arbitrary: opened)
  case (Cons ob obs)
  let ?d = "co_cluster_id ob"
  have "\<forall>s \<in> set (the (map_of scopes ?d)). sc_cluster_id s = ?d"
    using Cons.prems by (intro scopes_wf_lookup [OF wf]) simp
  from emit_cluster [OF this] Cons show ?case by (cases "?d = c") auto
qed simp

lemma group_observations_spec:
  "distinct (map fst (group_observations obs))"
  "map_of (group_observations obs) c = (if of_cluster c obs = [] then None else Some (of_cluster c obs))"
proof -
  let ?step = "\<lambda>ob d. dset d (co_cluster_id ob)
       ((case map_of d (co_cluster_id ob) of None \<Rightarrow> [] | Some xs \<Rightarrow> xs) @ [ob])"
  have "distinct (map fst d) \<Longrightarrow> distinct (map fst (fold ?step obs d))" for d
    by (induction obs arbitrary: d) (simp_all add: distinct_dset)
  then show "distinct (map fst (group_observations obs))" by (simp add: group_observations_def)
  have "map_of (fold ?step obs d) c =
      (if of_cluster c obs = [] then map_of d c
       else Some ((case map_of d c of None \<Rightarrow> [] | Some xs \<Rightarrow> xs) @ of_cluster c obs))" for d
    by (induction obs arbitrary: d) auto
  then show "map_of (group_observations obs) c = (if of_cluster c obs = [] then None else Some (of_cluster c obs))"
    by (simp add: group_observations_def)
qed

lemma groups_cluster:
  assumes wf: "scopes_wf scopes" and known: "\<forall>c \<in> set (map fst groups). map_of scopes c \<noteq> None"
    and distinct: "distinct (map fst groups)"
  shows "filter (\<lambda>i. cov_cluster i = c) (cluster_gaps scopes window groups) =
     (case map_of groups c of None \<Rightarrow> []
      | Some obs \<Rightarrow> concat (map (emit (the (map_of scopes c)) window)
          (closed_gaps None (sort_key co_observed_at obs))))"
  using known distinct
proof (induction groups)
  case (Cons g groups)
  obtain d obs where g: "g = (d, obs)" by (cases g)
  have "\<forall>s \<in> set (the (map_of scopes d)). sc_cluster_id s = d"
    using Cons.prems by (intro scopes_wf_lookup [OF wf]) (simp add: g)
  note chunk = emit_cluster [OF this]
  have "map_of groups d = None" using Cons.prems(2) by (simp add: g map_of_eq_None_iff)
  with Cons chunk show ?case by (cases "d = c") (auto simp: cluster_gaps_def g)
qed (simp add: cluster_gaps_def)

lemma equal_by_cluster:
  assumes "\<And>c. filter (\<lambda>i. cov_cluster i = c) xs = filter (\<lambda>i. cov_cluster i = c) ys"
  shows "mset xs = mset ys" "sort_key coverage_sort_key xs = sort_key coverage_sort_key ys"
proof -
  show m: "mset xs = mset ys"
  proof (rule multiset_eqI)
    fix i
    have "count (mset zs) i = count (mset (filter (\<lambda>j. cov_cluster j = cov_cluster i) zs)) i" for zs
      by (simp add: mset_filter)
    then show "count (mset xs) i = count (mset ys) i" using assms by metis
  qed
  have "filter (\<lambda>j. coverage_sort_key k = coverage_sort_key j) zs =
      filter (\<lambda>j. coverage_sort_key k = coverage_sort_key j) (filter (\<lambda>j. cov_cluster j = cov_cluster k) zs)" for k zs
    by (auto simp: coverage_sort_key_def scope_key_def intro!: filter_cong)
  then have "filter (\<lambda>j. coverage_sort_key k = coverage_sort_key j) xs =
      filter (\<lambda>j. coverage_sort_key k = coverage_sort_key j) ys" for k
    using assms by metis
  moreover have "filter (\<lambda>j. coverage_sort_key k = coverage_sort_key j) (sort_key coverage_sort_key ys) =
      filter (\<lambda>j. coverage_sort_key k = coverage_sort_key j) ys" for k
    unfolding eq_commute [of "coverage_sort_key k"] by (rule sort_key_stable)
  ultimately show "sort_key coverage_sort_key xs = sort_key coverage_sort_key ys"
    using m by (intro properties_for_sort_key) simp_all
qed

subsection \<open>Authorised scopes and observations\<close>

definition scope_table :: "string list \<Rightarrow> cluster_scope set \<Rightarrow> (string \<times> cluster_scope list) list \<Rightarrow> bool" where
  "scope_table clusters S d \<longleftrightarrow>
     (\<forall>(c, ss) \<in> set d. c \<in> set clusters \<and> (\<forall>s \<in> set ss. sc_cluster_id s = c \<and> s \<in> S))"

lemma add_scope_table:
  assumes d: "scope_table clusters S d" and s: "s \<in> S"
  shows "scope_table clusters S (add_scope clusters s d)"
proof -
  let ?c = "sc_cluster_id s"
  let ?old = "case map_of d ?c of None \<Rightarrow> [] | Some ss \<Rightarrow> ss"
  have sub: "set (dset d k v) \<subseteq> insert (k, v) (set d)" for k v
    by (induction d) (auto split: if_splits)
  have "\<forall>s' \<in> set (?old @ [s]). sc_cluster_id s' = ?c \<and> s' \<in> S"
  proof (cases "map_of d ?c")
    case (Some ss)
    from map_of_SomeD [OF this] Some d s show ?thesis by (auto simp: scope_table_def)
  qed (use s in simp)
  then have "scope_table clusters S (dset d ?c (?old @ [s]))" if "?c \<in> set clusters"
    using sub [of ?c "?old @ [s]"] d that unfolding scope_table_def by blast
  with d show ?thesis by (simp add: add_scope_def)
qed

lemma authorized_fold:
  "scope_table clusters S d \<Longrightarrow> set scopes \<subseteq> S \<Longrightarrow> scope_table clusters S (fold (add_scope clusters) scopes d)"
  by (induction scopes arbitrary: d) (simp_all add: add_scope_table)

lemma authorized_scopes:
  assumes "(c, ss) \<in> set (authorized_scopes_by_cluster rs)" "s \<in> set ss"
  shows "sc_cluster_id s = c \<and> s \<in> set (rs_scopes rs) \<and> c \<in> set (rs_event_clusters rs)"
  using assms authorized_fold [of "rs_event_clusters rs" "set (rs_scopes rs)" "[]" "rs_scopes rs"]
  by (fastforce simp: authorized_scopes_by_cluster_def scope_table_def)

lemma authorized_scopes_wf: "scopes_wf (authorized_scopes_by_cluster rs)"
  using authorized_scopes by (fastforce simp: scopes_wf_def)

abbreviation observations :: "timelib \<Rightarrow> read_scope \<Rightarrow> timeline_window \<Rightarrow> jdict list \<Rightarrow> capture_observation list" where
  "observations L rs window snapshots \<equiv>
     List.map_filter (capture_observation_of L (authorized_scopes_by_cluster rs) window) snapshots"

lemma observation_known:
  "capture_observation_of L scopes window snapshot = Some ob \<Longrightarrow>
     map_of scopes (co_cluster_id ob) \<noteq> None \<and> milliseconds (co_observed_at ob) < win_to window"
  by (auto simp: capture_observation_of_def Let_def split: if_splits option.splits)

lemma observations_known: "ob \<in> set (observations L rs window snapshots) \<Longrightarrow>
    map_of (authorized_scopes_by_cluster rs) (co_cluster_id ob) \<noteq> None"
  using observation_known by (fastforce simp: map_filter_def)

lemma batch_projection_iff:
  "project_capture_coverage L rs window snapshots False m = Inr out \<longleftrightarrow>
     (let batch = cluster_gaps (authorized_scopes_by_cluster rs) window
            (group_observations (observations L rs window snapshots))
      in accepted m batch \<and> out = sort_key coverage_sort_key batch)"
proof -
  have "accepted m []" by (simp add: accepted_def)
  from project_clusters_iff [OF this] show ?thesis
    by (auto simp: project_capture_coverage_def Let_def)
qed

lemma projection_agrees:
  "project_capture_coverage L rs window snapshots True m = Inr out \<longleftrightarrow>
     cluster_ordered (observations L rs window snapshots)
     \<and> project_capture_coverage L rs window snapshots False m = Inr out"
proof -
  let ?scopes = "authorized_scopes_by_cluster rs"
  let ?obs = "observations L rs window snapshots"
  let ?stream = "stream_gaps ?scopes window (\<lambda>_. None) ?obs"
  let ?batch = "cluster_gaps ?scopes window (group_observations ?obs)"
  have start: "accepted m []" by (simp add: accepted_def)
  have "project_capture_coverage L rs window snapshots True m = Inr out \<longleftrightarrow>
      (\<exists>p. (\<exists>o' l'. foldE (ordered_step ?scopes window m) ?obs (\<lambda>_. None, \<lambda>_. None, []) = Inr (o', l', p))
         \<and> out = sort_key coverage_sort_key p)"
    by (auto simp: project_capture_coverage_def project_ordered_def Let_def)
  then have stream: "project_capture_coverage L rs window snapshots True m = Inr out \<longleftrightarrow>
      in_order (\<lambda>_. None) ?obs \<and> accepted m ?stream \<and> out = sort_key coverage_sort_key ?stream"
    unfolding stream_iff [OF start] by auto
  have order: "in_order (\<lambda>_. None) ?obs \<longleftrightarrow> cluster_ordered ?obs"
    by (simp add: in_order_sorted cluster_ordered_def)
  have "filter (\<lambda>i. cov_cluster i = c) ?stream = filter (\<lambda>i. cov_cluster i = c) ?batch"
    if "cluster_ordered ?obs" for c
  proof -
    have "sort_key co_observed_at (of_cluster c ?obs) = of_cluster c ?obs"
      using that by (intro sort_key_id_if_sorted) (simp add: cluster_ordered_def)
    moreover have "\<forall>d \<in> set (map fst (group_observations ?obs)). map_of ?scopes d \<noteq> None"
    proof
      fix d assume "d \<in> set (map fst (group_observations ?obs))"
      then have "map_of (group_observations ?obs) d \<noteq> None" by (simp add: map_of_eq_None_iff)
      then obtain ob where "ob \<in> set ?obs" "co_cluster_id ob = d"
        unfolding group_observations_spec(2) by (auto simp: filter_empty_conv split: if_splits)
      then show "map_of ?scopes d \<noteq> None" using observations_known by blast
    qed
    ultimately show ?thesis
      using groups_cluster [OF authorized_scopes_wf, where groups = "group_observations ?obs" and c = c and window = window]
        stream_cluster [OF authorized_scopes_wf, where obs = ?obs and c = c and window = window and opened = "\<lambda>_. None"]
        observations_known
      by (simp add: group_observations_spec)
  qed
  note same = equal_by_cluster [OF this]
  show ?thesis unfolding stream batch_projection_iff order Let_def using same accepted_mset by metis
qed

text \<open>
  C34. The single pass over an ordered cursor and the projection that sorts the observations of each
  cluster agree: the single pass returns a coverage exactly when the observations of every cluster
  are in the order of time and the sorting projection returns the same coverage.
\<close>
theorem ordered_projection_agrees:
  "project_capture_coverage L rs window snapshots True m = Inr out \<longleftrightarrow>
     cluster_ordered (observations L rs window snapshots)
     \<and> project_capture_coverage L rs window snapshots False m = Inr out"
  by (rule projection_agrees)

subsection \<open>Every interval is a proven gap\<close>

lemma closed_gaps_sound:
  assumes "sorted (map co_observed_at obs)" "(t, u) \<in> set (closed_gaps opened obs)"
  shows "t < u \<and> (opened = Some t \<or> (\<exists>g \<in> set obs. co_state g = Gap \<and> co_observed_at g = t))
     \<and> (\<exists>r \<in> set obs. co_state r = Recovery \<and> co_observed_at r = u)
     \<and> (\<forall>r \<in> set obs. co_state r = Recovery \<longrightarrow> t < co_observed_at r \<longrightarrow> u \<le> co_observed_at r)"
  using assms
proof (induction obs arbitrary: opened)
  case (Cons ob obs)
  have after: "\<forall>x \<in> set obs. co_observed_at ob \<le> co_observed_at x" and rest: "sorted (map co_observed_at obs)"
    using Cons.prems(1) by auto
  consider "(t, u) \<in> set (snd (gap_step ob opened))" | "(t, u) \<in> set (closed_gaps (fst (gap_step ob opened)) obs)"
    using Cons.prems(2) by auto
  then show ?case
  proof cases
    case 1
    then have "opened = Some t" "co_state ob = Recovery" "co_observed_at ob = u" "t < u"
      by (cases opened; auto split: capture_state.splits if_splits)+
    with after show ?thesis by auto
  next
    case 2
    from Cons.IH [OF rest 2] show ?thesis using after
      by (cases opened) (fastforce split: capture_state.splits if_splits)+
  qed
qed simp

text \<open>
  C35. Every coverage interval returned, by either projection, is a proven gap: its scope is one of
  the reader's scopes, of a cluster whose events the reader may see; it has positive width and
  meets the window; it starts at an observed explicit gap of that cluster and ends at the first proven
  recovery after it; and there are no more intervals than the limit.
\<close>
theorem coverage_is_proven:
  assumes run: "project_capture_coverage L rs window snapshots ordered m = Inr out" and i: "i \<in> set out"
  shows "cov_scope i \<in> set (rs_scopes rs) \<and> cov_cluster i \<in> set (rs_event_clusters rs)
     \<and> cov_from i < cov_to i \<and> intersects_window (cov_from i) (cov_to i) window
     \<and> (\<forall>k. m = Some k \<longrightarrow> int (length out) \<le> k)
     \<and> (\<exists>g r. g \<in> set (observations L rs window snapshots) \<and> r \<in> set (observations L rs window snapshots)
          \<and> co_cluster_id g = cov_cluster i \<and> co_cluster_id r = cov_cluster i
          \<and> co_state g = Gap \<and> co_state r = Recovery \<and> co_observed_at g < co_observed_at r
          \<and> cov_from i = milliseconds (co_observed_at g) \<and> cov_to i = milliseconds (co_observed_at r)
          \<and> (\<forall>r' \<in> set (observations L rs window snapshots). co_cluster_id r' = cov_cluster i \<longrightarrow>
               co_state r' = Recovery \<longrightarrow> co_observed_at g < co_observed_at r' \<longrightarrow>
               co_observed_at r \<le> co_observed_at r'))"
proof -
  let ?scopes = "authorized_scopes_by_cluster rs"
  let ?obs = "observations L rs window snapshots"
  let ?batch = "cluster_gaps ?scopes window (group_observations ?obs)"
  from run have "project_capture_coverage L rs window snapshots False m = Inr out"
    using projection_agrees by (cases ordered) auto
  then have ok: "accepted m ?batch" and out: "out = sort_key coverage_sort_key ?batch"
    unfolding batch_projection_iff Let_def by auto
  from i out obtain c obs t u where g: "(c, obs) \<in> set (group_observations ?obs)"
      and gap: "(t, u) \<in> set (closed_gaps None (sort_key co_observed_at obs))"
      and im: "i \<in> set (emit (the (map_of ?scopes c)) window (t, u))"
    by (auto simp: cluster_gaps_def)
  have "map_of (group_observations ?obs) c = Some obs"
    using g by (simp add: group_observations_spec(1))
  then have obs: "obs = of_cluster c ?obs" "obs \<noteq> []"
    unfolding group_observations_spec(2) by (auto split: if_splits)
  then obtain ob where "ob \<in> set ?obs" "co_cluster_id ob = c" by (auto simp: filter_empty_conv)
  then obtain ss where ss: "map_of ?scopes c = Some ss" using observations_known by blast
  from im obtain s where s: "s \<in> set ss" "i = cov (milliseconds t) (milliseconds u) s"
      "intersects_window (milliseconds t) (milliseconds u) window"
    by (auto simp: emit_def ss split: if_splits)
  have "sorted (map co_observed_at (sort_key co_observed_at obs))" by simp
  from closed_gaps_sound [OF this gap] have gap':
    "t < u" "\<exists>g \<in> set obs. co_state g = Gap \<and> co_observed_at g = t"
    "\<exists>r \<in> set obs. co_state r = Recovery \<and> co_observed_at r = u"
    "\<forall>r \<in> set obs. co_state r = Recovery \<longrightarrow> t < co_observed_at r \<longrightarrow> u \<le> co_observed_at r"
    by simp_all
  then obtain g r where gr: "g \<in> set obs" "co_state g = Gap" "co_observed_at g = t"
    "r \<in> set obs" "co_state r = Recovery" "co_observed_at r = u" by blast
  have mem: "x \<in> set obs \<longleftrightarrow> x \<in> set ?obs \<and> co_cluster_id x = c" for x
    unfolding obs(1) by auto
  have i': "cov_scope i = s" "cov_from i = milliseconds t" "cov_to i = milliseconds u"
    by (simp_all add: s(2) cov_def)
  have scope: "sc_cluster_id s = c" "s \<in> set (rs_scopes rs)" "c \<in> set (rs_event_clusters rs)"
    using authorized_scopes [OF map_of_SomeD [OF ss] s(1)] by simp_all
  from ok i out have width: "cov_from i < cov_to i" "\<forall>k. m = Some k \<longrightarrow> int (length out) \<le> k"
    by (auto simp: accepted_def)
  from gr gap'(1,4) mem have "g \<in> set ?obs \<and> r \<in> set ?obs
          \<and> co_cluster_id g = c \<and> co_cluster_id r = c
          \<and> co_state g = Gap \<and> co_state r = Recovery \<and> co_observed_at g < co_observed_at r
          \<and> cov_from i = milliseconds (co_observed_at g) \<and> cov_to i = milliseconds (co_observed_at r)
          \<and> (\<forall>r' \<in> set ?obs. co_cluster_id r' = c \<longrightarrow> co_state r' = Recovery \<longrightarrow>
               co_observed_at g < co_observed_at r' \<longrightarrow> co_observed_at r \<le> co_observed_at r')"
    by (simp add: i')
  with scope width s(3) show ?thesis unfolding i' by blast
qed

definition demo_snapshot :: "string \<Rightarrow> bool \<Rightarrow> jdict" where
  \<comment> \<open>a snapshot of cluster \<open>c\<close> with the capture observed at an instant, complete or with a gap\<close>
  "demo_snapshot instant ok =
     [(''cluster_id'', JStr ''c''), (''summary'', JDict [(''summary'', JDict [(''kubernetes_event_capture'', JDict
        [(''complete'', JBool ok), (''truncated'', JBool False),
         (''reason'', JStr (if ok then ''complete'' else ''forbidden'')),
         (''freshness'', JDict [(''observed_at'', JStr instant), (''max_age_seconds'', JInt 60)]),
         (''coverage'', JDict ((''scope'', JStr ''all_namespaces'') # (''pagination'', JStr ''continue'') #
            (if ok then [(''page_count'', JInt 1), (''event_count'', JInt 0), (''resource_version'', JStr ''7'')]
             else [(''gap'', JStr ''forbidden'')])))])])])]"

definition demo_reader :: read_scope where
  "demo_reader = \<lparr>rs_event_clusters = [''c''],
     rs_scopes = [\<lparr>sc_workspace_id = ''w'', sc_cluster_id = ''c'', sc_namespaces = [], sc_freshness = ''live''\<rparr>]\<rparr>"

definition instant_text :: timelib where
  "instant_text = \<lparr>fromisoformat = (\<lambda>s. if s = ''a'' then Some 5100 else if s = ''b'' then Some 5900 else Some 9000),
     utc_isoformat = int_str\<rparr>"

theorem coverage_is_proven_witness:
  "\<exists>out. project_capture_coverage instant_text demo_reader \<lparr>win_from = 0, win_to = 100\<rparr>
       [demo_snapshot ''a'' False, demo_snapshot ''c'' True] False (Some 1) = Inr out
     \<and> out \<noteq> [] \<and> (\<forall>i \<in> set out. cov_scope i \<in> set (rs_scopes demo_reader) \<and> cov_from i < cov_to i)"
proof -
  have "project_capture_coverage instant_text demo_reader \<lparr>win_from = 0, win_to = 100\<rparr>
       [demo_snapshot ''a'' False, demo_snapshot ''c'' True] False (Some 1) =
     Inr [cov 5 9 (hd (rs_scopes demo_reader))]" by code_simp
  then show ?thesis using coverage_is_proven by blast
qed

lemma submillisecond_gap_raises:
  "project_capture_coverage instant_text demo_reader \<lparr>win_from = 0, win_to = 100\<rparr>
     [demo_snapshot ''a'' False, demo_snapshot ''b'' True] False None = Inl InvalidCoverage"
  by code_simp

end
