(* ===== verification/Recovery_Verification.thy ===== *)
theory Recovery_Verification
  imports Timeline_Capture "HOL-Library.AList"
begin

section \<open>Verification of a recovery\<close>

text \<open>
  \<^verbatim>\<open>domains/rca/recovery_verification.py\<close>: whether the evidence collected after a merged recovery shows
  that the workload is healthy again, and for long enough. The functions are pure; the durable state is
  the JSON of the recovery plan, and the clock is an argument. \<^verbatim>\<open>datetime.fromisoformat\<close> and
  \<^verbatim>\<open>isoformat\<close> come with \<open>timelib\<close>; \<open>float_of\<close> is Python's \<^verbatim>\<open>float\<close> of a text. Floats are exact
  rationals. Two exceptions escape the code's handlers and are values of \<open>verify_exn\<close>: \<^verbatim>\<open>int\<close> or
  \<^verbatim>\<open>float\<close> of a number that does not fit raises OverflowError, and \<^verbatim>\<open>casefold\<close> of a target field that is
  not text raises AttributeError. Reasons are values of a datatype, one constructor per message.
\<close>

datatype verify_exn = Verify_Overflow | Verify_Attribute

type_synonym 'a verify = "verify_exn + 'a"

record verifylib = timelib +
  float_of :: "string \<Rightarrow> fnum option"

subsection \<open>Reading values\<close>

abbreviation (input) mapping :: "json \<Rightarrow> jdict" where
  "mapping \<equiv> mapping_or_empty"

definition text_of :: "json \<Rightarrow> string" where
  \<comment> \<open>\<^verbatim>\<open>text\<close>\<close>
  "text_of v = (case as_str v of Some s \<Rightarrow> py_strip s | None \<Rightarrow> [])"

definition finite_of :: "fnum \<Rightarrow> rat option" where
  "finite_of f = (case f of Fin q \<Rightarrow> Some q | _ \<Rightarrow> None)"

fun finite_float :: "verifylib \<Rightarrow> json \<Rightarrow> rat option verify" where
  "finite_float L (JInt i) = (if \<bar>i\<bar> \<ge> 2 ^ 1024 - 2 ^ 970 then Inl Verify_Overflow else Inr (Some (of_int i)))"
| "finite_float L (JFloat f _) = Inr (finite_of f)"
| "finite_float L (JStr s) = Inr (case float_of L s of None \<Rightarrow> None | Some f \<Rightarrow> finite_of f)"
| "finite_float L _ = Inr None"

fun nonnegative_int :: "json \<Rightarrow> int option verify" where
  "nonnegative_int (JBool _) = Inr None"
| "nonnegative_int v =
     (case py_int v of
        Inr i \<Rightarrow> Inr (if i \<ge> 0 then Some i else None)
      | Inl OverflowError \<Rightarrow> Inl Verify_Overflow
      | Inl _ \<Rightarrow> Inr None)"

definition parse_datetime :: "verifylib \<Rightarrow> json \<Rightarrow> datetime option" where
  "parse_datetime L v =
     (case as_str v of
        None \<Rightarrow> None
      | Some s \<Rightarrow> if py_strip s = [] then None else fromisoformat L (replace_loop ''Z'' ''+00:00'' 0 s))"

definition bounded_seconds :: "json \<Rightarrow> int \<Rightarrow> int \<Rightarrow> int \<Rightarrow> int verify" where
  "bounded_seconds v fallback least greatest =
     bindE (nonnegative_int v) (\<lambda>parsed. Inr (case parsed of None \<Rightarrow> fallback
       | Some i \<Rightarrow> max least (min i greatest)))"

definition target_get :: "jdict \<Rightarrow> string \<Rightarrow> json" where
  \<comment> \<open>\<^verbatim>\<open>target.get(key, "")\<close>\<close>
  "target_get target key = (case map_of target key of None \<Rightarrow> JStr [] | Some v \<Rightarrow> v)"

definition target_fold :: "jdict \<Rightarrow> string \<Rightarrow> string verify" where
  \<comment> \<open>\<^verbatim>\<open>target.get(key, "").casefold()\<close>\<close>
  "target_fold target key =
     (case as_str (target_get target key) of Some s \<Rightarrow> Inr (py_casefold s) | None \<Rightarrow> Inl Verify_Attribute)"

definition recovery_target :: "jdict \<Rightarrow> jdict" where
  "recovery_target plan =
     (let target = mapping (dget plan ''target'');
          selected_id = text_of (dget plan ''recommended_action_id'');
          candidates = (case as_list (dget plan ''candidates'') of Some cs \<Rightarrow> List.map_filter as_dict cs | None \<Rightarrow> []);
          selected = (case find (\<lambda>c. text_of (dget c ''action_id'') = selected_id) candidates of
                        Some c \<Rightarrow> c | None \<Rightarrow> []);
          draft = mapping (dget selected ''draft'');
          pick = (\<lambda>k. let t = text_of (dget target k) in if t \<noteq> [] then t else text_of (dget draft k))
      in [(''cluster_id'', JStr (text_of (dget target ''cluster_id''))), (''namespace'', JStr (pick ''namespace'')),
          (''resource_kind'', JStr (pick ''resource_kind'')), (''resource_name'', JStr (pick ''resource_name''))])"

subsection \<open>Metrics\<close>

definition SLI_LABELS :: "string list" where
  "SLI_LABELS = [''namespace'', ''resource_kind'', ''resource_name'', ''service'', ''sli'', ''symptom'']"

definition exact_standard_sli_label_set :: "jdict \<Rightarrow> string \<Rightarrow> bool" where
  "exact_standard_sli_label_set labels metric_name \<longleftrightarrow>
     keys_are labels SLI_LABELS
     \<or> keys_are labels (''__name__'' # SLI_LABELS) \<and> text_of (dget labels ''__name__'') = metric_name"

definition metric_identity :: "jdict \<Rightarrow> (string \<times> string) list option" where
  "metric_identity labels =
     (let identity = map (\<lambda>key. (key, text_of (dget labels key))) SLI_LABELS
      in if list_ex (\<lambda>kv. snd kv = []) identity then None else Some identity)"

definition standard_sli_series_identity :: "json \<Rightarrow> (string \<times> string) list option" where
  \<comment> \<open>the same six labels, of a persisted identity\<close>
  "standard_sli_series_identity v = metric_identity (mapping v)"

definition metric_labels_match_target :: "jdict \<Rightarrow> jdict \<Rightarrow> bool verify" where
  "metric_labels_match_target labels target =
     (if JStr (text_of (dget labels ''namespace'')) \<noteq> target_get target ''namespace'' then Inr False
      else bindE (target_fold target ''resource_kind'') (\<lambda>kind.
        Inr (py_casefold (text_of (dget labels ''resource_kind'')) = kind
           \<and> JStr (text_of (dget labels ''resource_name'')) = target_get target ''resource_name'')))"

definition metric_samples :: "jdict \<Rightarrow> string \<Rightarrow> jdict list option" where
  \<comment> \<open>\<^verbatim>\<open>evidence["metrics"]["results"][name]["samples"]\<close> where it is a list: its mappings\<close>
  "metric_samples evidence metric_name =
     map_option (List.map_filter as_dict)
       (as_list (dget (mapping (dget (mapping (dget (mapping (dget evidence ''metrics'')) ''results'')) metric_name)) ''samples''))"

definition match_sample :: "verifylib \<Rightarrow> string \<Rightarrow> jdict \<Rightarrow> jdict \<Rightarrow> jdict \<Rightarrow> (rat \<times> (string \<times> string) list) list verify" where
  \<comment> \<open>the body of the loop over the samples: the sample's value and identity, if it counts\<close>
  "match_sample L metric_name target expected_identity sample =
     (let labels = mapping (dget sample ''metric'')
      in if \<not> exact_standard_sli_label_set labels metric_name then Inr []
         else bindE (metric_labels_match_target labels target) (\<lambda>matches.
           if \<not> matches then Inr []
           else case metric_identity labels of
                  None \<Rightarrow> Inr []
                | Some identity \<Rightarrow>
                    if list_ex (\<lambda>(key, v). (case map_of identity key of None \<Rightarrow> [] | Some t \<Rightarrow> t) \<noteq> text_of v)
                         expected_identity then Inr []
                    else bindE (finite_float L (dget sample ''value'')) (\<lambda>v.
                           Inr (case v of None \<Rightarrow> [] | Some q \<Rightarrow> [(q, identity)]))))"

definition metric_sample_with_identity :: "verifylib \<Rightarrow> jdict \<Rightarrow> string \<Rightarrow> jdict \<Rightarrow> jdict \<Rightarrow>
    (rat \<times> (string \<times> string) list) option verify" where
  "metric_sample_with_identity L evidence metric_name target expected_identity =
     (case metric_samples evidence metric_name of
        None \<Rightarrow> Inr None
      | Some samples \<Rightarrow>
          bindE (mapE (match_sample L metric_name target expected_identity) samples) (\<lambda>found.
          Inr (case concat found of [m] \<Rightarrow> Some m | _ \<Rightarrow> None)))"

definition metric_sample :: "verifylib \<Rightarrow> jdict \<Rightarrow> string \<Rightarrow> jdict \<Rightarrow> jdict \<Rightarrow> rat option verify" where
  "metric_sample L evidence metric_name target expected_identity =
     bindE (metric_sample_with_identity L evidence metric_name target expected_identity)
       (\<lambda>m. Inr (map_option fst m))"

subsection \<open>Workloads\<close>

definition workload_snapshots :: "jdict \<Rightarrow> jdict list option" where
  \<comment> \<open>the snapshots of the metadata, or of its change context\<close>
  "workload_snapshots evidence =
     (let metadata = mapping (dget evidence ''metadata'')
      in map_option (List.map_filter as_dict)
           (case as_list (dget metadata ''current_workload_snapshots'') of
              Some xs \<Rightarrow> Some xs
            | None \<Rightarrow> as_list (dget (mapping (dget metadata ''change_context'')) ''current_workload_snapshots'')))"

record deployment_view =
  dp_generation :: "int option"
  dp_observed_generation :: "int option"
  dp_desired :: "int option"
  dp_ready :: "int option"
  dp_updated :: "int option"
  dp_available :: "int option"
  dp_unavailable :: "int option"
  dp_unavailable_omitted :: bool

definition snapshot_deployment :: "jdict \<Rightarrow> jdict \<Rightarrow> deployment_view list verify" where
  \<comment> \<open>the body of the loop of \<^verbatim>\<open>deployment_replicas\<close>\<close>
  "snapshot_deployment target snapshot =
     (let workload = mapping (dget snapshot ''workload'');
          status = mapping (dget snapshot ''deployment_status'')
      in bindE (target_fold target ''resource_kind'') (\<lambda>kind.
         if py_casefold (text_of (dget workload ''kind'')) \<noteq> kind
            \<or> JStr (text_of (dget workload ''namespace'')) \<noteq> target_get target ''namespace''
            \<or> JStr (text_of (dget workload ''name'')) \<noteq> target_get target ''resource_name'' then Inr []
         else bindE (nonnegative_int (dget workload ''generation'')) (\<lambda>generation.
              bindE (mapE (\<lambda>k. nonnegative_int (dget status k))
                [''observed_generation'', ''desired_replicas'', ''ready_replicas'', ''updated_replicas'',
                 ''available_replicas'', ''unavailable_replicas'']) (\<lambda>ns.
              Inr [\<lparr>dp_generation = generation, dp_observed_generation = ns ! 0, dp_desired = ns ! 1,
                    dp_ready = ns ! 2, dp_updated = ns ! 3, dp_available = ns ! 4, dp_unavailable = ns ! 5,
                    dp_unavailable_omitted = (\<not> dhas status ''unavailable_replicas'')\<rparr>]))))"

definition deployment_replicas :: "jdict \<Rightarrow> jdict \<Rightarrow> deployment_view option verify" where
  "deployment_replicas evidence target =
     (case workload_snapshots evidence of
        None \<Rightarrow> Inr None
      | Some snapshots \<Rightarrow>
          bindE (mapE (snapshot_deployment target) snapshots) (\<lambda>found.
          Inr (case concat found of [d] \<Rightarrow> Some d | _ \<Rightarrow> None)))"

definition workload_identity :: "jdict \<Rightarrow> string \<times> string \<times> string" where
  \<comment> \<open>kind (case-folded), namespace and name of a persisted workload\<close>
  "workload_identity item =
     (py_casefold (text_of (dget item ''kind'')), text_of (dget item ''namespace''), text_of (dget item ''name''))"

definition CONTINUITY_LABEL :: string where
  "CONTINUITY_LABEL = ''kyro.dev/recovery-continuity''"

definition protection_declared :: "jdict \<Rightarrow> bool" where
  "protection_declared snapshot \<longleftrightarrow>
     py_casefold (text_of (dget (mapping (dget snapshot ''deployment_labels'')) CONTINUITY_LABEL)) = ''protected''
     \<and> py_casefold (text_of (dget (mapping (dget snapshot ''pod_template_labels'')) CONTINUITY_LABEL)) = ''protected''"

definition non_empty_texts :: "string \<Rightarrow> jdict list \<Rightarrow> string list" where
  "non_empty_texts key pods = sort (filter (\<lambda>t. t \<noteq> []) (map (\<lambda>p. text_of (dget p key)) pods))"

definition observe_workload :: "jdict \<Rightarrow> jdict verify" where
  \<comment> \<open>the entry that the loop of \<^verbatim>\<open>protected_workloads\<close> appends for a selected snapshot\<close>
  "observe_workload snapshot =
     (let workload = mapping (dget snapshot ''workload'');
          status = mapping (dget snapshot ''deployment_status'');
          pods = (case as_list (dget snapshot ''pod_statuses'') of Some ps \<Rightarrow> List.map_filter as_dict ps | None \<Rightarrow> []);
          serving = filter (\<lambda>p. dget p ''ready'' = JBool True \<and> text_of (dget p ''deletion_timestamp'') = []) pods
      in bindE (mapE (\<lambda>k. nonnegative_int (dget status k)) [''desired_replicas'', ''ready_replicas'', ''available_replicas'']) (\<lambda>ns.
         bindE (mapE (\<lambda>p. nonnegative_int (dget p ''restart_count'')) serving) (\<lambda>restarts.
         let enough = (\<lambda>a. case (ns ! 0, a) of (Some d, Some n) \<Rightarrow> n \<ge> d | _ \<Rightarrow> False);
             healthy = (case ns ! 0 of None \<Rightarrow> False
               | Some d \<Rightarrow> d > 0 \<and> enough (ns ! 1) \<and> enough (ns ! 2) \<and> int (length serving) \<ge> d
                   \<and> dget snapshot ''pod_statuses_truncated'' \<noteq> JBool True)
         in Inr [(''kind'', JStr (text_of (dget workload ''kind''))),
                 (''namespace'', JStr (text_of (dget workload ''namespace''))),
                 (''name'', JStr (text_of (dget workload ''name''))), (''uid'', dget workload ''uid''),
                 (''pod_uids'', JList (map JStr (non_empty_texts ''uid'' serving))),
                 (''pod_start_times'', JList (map JStr (non_empty_texts ''start_time'' serving))),
                 (''restart_count'', JInt (sum_list (map (\<lambda>r. case r of None \<Rightarrow> 0 | Some n \<Rightarrow> n) restarts))),
                 (''healthy'', JBool healthy)])))"

definition select_workload :: "jdict \<Rightarrow> (string \<times> string \<times> string) list option \<Rightarrow> jdict \<Rightarrow> jdict list verify" where
  \<comment> \<open>the body of the loop of \<^verbatim>\<open>protected_workloads\<close>\<close>
  "select_workload target expected snapshot =
     (let identity = workload_identity (mapping (dget snapshot ''workload''));
          (kind, namespace, name) = identity
      in if JStr namespace \<noteq> target_get target ''namespace'' \<or> kind \<noteq> ''deployment'' then Inr []
         else bindE (target_fold target ''resource_kind'') (\<lambda>target_kind.
           if kind = target_kind \<and> JStr name = target_get target ''resource_name'' then Inr []
           else if (case expected of Some ids \<Rightarrow> identity \<notin> set ids | None \<Rightarrow> \<not> protection_declared snapshot) then Inr []
           else bindE (observe_workload snapshot) (\<lambda>w. Inr [w])))"

definition protected_workloads :: "jdict \<Rightarrow> jdict \<Rightarrow> json \<Rightarrow> jdict list option verify" where
  "protected_workloads evidence target baseline =
     (case workload_snapshots evidence of
        None \<Rightarrow> Inr None
      | Some snapshots \<Rightarrow>
          (let expected = map_option (\<lambda>xs. map workload_identity (List.map_filter as_dict xs)) (as_list baseline)
           in bindE (mapE (select_workload target expected) snapshots) (\<lambda>found.
              Inr (Some (sort_key (\<lambda>w. (py_str (dget w ''namespace''), py_str (dget w ''kind''), py_str (dget w ''name'')))
                     (concat found))))))"

definition continuity_view :: "jdict \<Rightarrow> json list" where
  \<comment> \<open>the compared fields of an entry, in the order of \<^verbatim>\<open>normalized\<close>\<close>
  "continuity_view item = map (dget item)
     [''name'', ''kind'', ''namespace'', ''uid'', ''pod_uids'', ''pod_start_times'', ''restart_count'']"

definition protected_workloads_unchanged :: "json \<Rightarrow> jdict list option \<Rightarrow> bool option" where
  "protected_workloads_unchanged baseline current =
     (case (as_list baseline, current) of
        (Some (b # bs), Some ws) \<Rightarrow>
          Some (list_all2 (list_all2 py_eq) (map continuity_view (List.map_filter as_dict (b # bs))) (map continuity_view ws))
      | _ \<Rightarrow> None)"

fun valid_pod_metadata :: "jdict list \<Rightarrow> bool verify" where
  \<comment> \<open>the \<^verbatim>\<open>all(...)\<close> over the baseline, which stops at the first entry that fails\<close>
  "valid_pod_metadata [] = Inr True"
| "valid_pod_metadata (item # items) =
     (case (as_list (dget item ''pod_uids''), as_list (dget item ''pod_start_times'')) of
        (Some us, Some ts) \<Rightarrow>
          if us = [] \<or> length ts \<noteq> length us \<or> list_ex (\<lambda>t. text_of t = []) ts then Inr False
          else bindE (nonnegative_int (dget item ''restart_count'')) (\<lambda>r.
                 if r = None then Inr False else valid_pod_metadata items)
      | _ \<Rightarrow> Inr False)"

definition protected_workload_baseline :: "jdict list \<Rightarrow> jdict list verify" where
  "protected_workload_baseline workloads =
     (let keys = [''kind'', ''namespace'', ''name'', ''uid'', ''pod_uids'', ''pod_start_times'', ''restart_count''];
          baseline = map (\<lambda>w. map (\<lambda>k. (k, dget w k)) keys) (filter (\<lambda>w. dget w ''healthy'' = JBool True) workloads);
          identities = map workload_identity baseline;
          uids = map (\<lambda>i. text_of (dget i ''uid'')) baseline;
          pod_uids = concat (map (\<lambda>i. case as_list (dget i ''pod_uids'') of Some us \<Rightarrow> map text_of us | None \<Rightarrow> []) baseline)
      in bindE (valid_pod_metadata baseline) (\<lambda>valid.
         Inr (if baseline = []
               \<or> list_ex (\<lambda>(kind, namespace, name). kind = [] \<or> namespace = [] \<or> name = []) identities
               \<or> \<not> distinct identities \<or> [] \<in> set uids \<or> \<not> distinct uids
               \<or> [] \<in> set pod_uids \<or> \<not> distinct pod_uids \<or> \<not> valid then [] else baseline)))"

subsection \<open>Active sessions\<close>

type_synonym series = "string \<times> string \<times> string \<times> string \<times> string"

definition series_identity :: "jdict \<Rightarrow> series" where
  \<comment> \<open>namespace, kind, name, continuity id and pod uid of a persisted sample\<close>
  "series_identity item =
     (text_of (dget item ''namespace''), py_casefold (text_of (dget item ''kind'')), text_of (dget item ''name''),
      text_of (dget item ''continuity_id''), text_of (dget item ''pod_uid''))"

definition series_workload :: "series \<Rightarrow> string \<times> string \<times> string" where
  "series_workload = (\<lambda>(ns, kind, name, continuity, pod). (ns, kind, name))"

definition series_continuity :: "series \<Rightarrow> string" where
  "series_continuity = (\<lambda>(ns, kind, name, continuity, pod). continuity)"

definition series_pod :: "series \<Rightarrow> string" where
  "series_pod = (\<lambda>(ns, kind, name, continuity, pod). pod)"

definition series_table :: "verifylib \<Rightarrow> string \<Rightarrow> json list \<Rightarrow> (series \<times> rat) list verify" where
  \<comment> \<open>\<^verbatim>\<open>{identity: value for item in items if ...}\<close> over the mappings with a finite number\<close>
  "series_table L key items =
     foldE (\<lambda>item d. bindE (finite_float L (dget item key)) (\<lambda>v.
       Inr (case v of None \<Rightarrow> d | Some q \<Rightarrow> AList.update (series_identity item) q d)))
       (List.map_filter as_dict items) []"

definition round_half_even :: "rat \<Rightarrow> int" where
  "round_half_even q =
     (let f = \<lfloor>q\<rfloor>; r = q - of_int f
      in if r < 1 / 2 then f else if r > 1 / 2 then f + 1 else if even f then f else f + 1)"

definition from_timestamp :: "rat \<Rightarrow> datetime option" where
  \<comment> \<open>\<^verbatim>\<open>datetime.fromtimestamp(t, tz=UTC)\<close>; None where it raises, outside the years 1 to 9999\<close>
  "from_timestamp t =
     (let us = round_half_even (t * 1000000)
      in if - 62135596800000000 \<le> us \<and> us \<le> 253402300799999999 then Some us else None)"

definition session_sample :: "verifylib \<Rightarrow> ((string \<times> string \<times> string) \<times> jdict) list \<Rightarrow> (series \<times> rat) list option \<Rightarrow>
    (series \<times> rat) list option \<Rightarrow> datetime \<Rightarrow> int \<Rightarrow> jdict \<Rightarrow> (series \<times> rat \<times> rat) list verify" where
  \<comment> \<open>the body of the loop over the samples: identity, value and timestamp of one that counts\<close>
  "session_sample L protected expected previous observed_at max_age sample =
     (let labels = mapping (dget sample ''metric'');
          workload = (text_of (dget labels ''namespace''), py_casefold (text_of (dget labels ''resource_kind'')),
                      text_of (dget labels ''resource_name''));
          continuity = text_of (dget labels ''continuity_id''); pod = text_of (dget labels ''pod_uid'');
          identity = (fst workload, fst (snd workload), snd (snd workload), continuity, pod)
      in case map_of protected workload of
           None \<Rightarrow> Inr []
         | Some entry \<Rightarrow>
            (case as_list (dget entry ''pod_uids'') of
               None \<Rightarrow> Inr []
             | Some uids \<Rightarrow>
                if continuity = [] \<or> pod = [] \<or> pod \<notin> text_of ` set uids
                   \<or> (case expected of Some e \<Rightarrow> map_of e identity = None | None \<Rightarrow> False) then Inr []
                else bindE (finite_float L (dget sample ''value'')) (\<lambda>v.
                     bindE (finite_float L (dget sample ''timestamp'')) (\<lambda>ts.
                     Inr (case (v, ts) of
                            (Some q, Some t) \<Rightarrow>
                              if q \<le> 0 \<or> q \<noteq> of_int \<lfloor>q\<rfloor> then []
                              else (case from_timestamp t of
                                      None \<Rightarrow> []
                                    | Some us \<Rightarrow>
                                        if \<bar>observed_at - us\<bar> > max_age * 1000000 then []
                                        else if (case previous of None \<Rightarrow> False
                                               | Some p \<Rightarrow> (case map_of p identity of None \<Rightarrow> False | Some t0 \<Rightarrow> t < t0)) then []
                                        else [(identity, q, t)])
                          | _ \<Rightarrow> [])))))"

definition unique_series :: "series list \<Rightarrow> bool" where
  \<comment> \<open>no continuity id and no pod stands for two series\<close>
  "unique_series ids \<longleftrightarrow> distinct (map series_continuity ids) \<and> distinct (map series_pod ids)"

definition session_json :: "((string \<times> string \<times> string) \<times> jdict) list \<Rightarrow> series \<times> rat \<times> rat \<Rightarrow> jdict" where
  \<comment> \<open>the entry of the result; the text of the two floats is not kept\<close>
  "session_json protected = (\<lambda>(identity, v, t).
     case identity of (ns, kind, name, continuity, pod) \<Rightarrow>
       [(''namespace'', JStr ns), (''kind'', JStr (text_of (dget (the (map_of protected (ns, kind, name))) ''kind''))),
        (''name'', JStr name), (''continuity_id'', JStr continuity), (''pod_uid'', JStr pod),
        (''value'', JFloat (Fin v) []), (''sample_timestamp'', JFloat (Fin t) [])])"

definition protected_active_session_series :: "verifylib \<Rightarrow> jdict \<Rightarrow> json \<Rightarrow> json \<Rightarrow> json \<Rightarrow> datetime option \<Rightarrow>
    int \<Rightarrow> jdict list option verify" where
  "protected_active_session_series L evidence protected_baseline expected_baseline previous_samples observed_at max_age =
     (case as_list protected_baseline of
        None \<Rightarrow> Inr None
      | Some [] \<Rightarrow> Inr None
      | Some bs \<Rightarrow>
         (let protected = fold (\<lambda>i. AList.update
                (text_of (dget i ''namespace''), py_casefold (text_of (dget i ''kind'')), text_of (dget i ''name'')) i)
                (List.map_filter as_dict bs) []
          in if length protected \<noteq> length bs then Inr None
             else bindE (case as_list expected_baseline of None \<Rightarrow> Inr None
                         | Some es \<Rightarrow> bindE (series_table L ''value'' es) (Inr \<circ> Some)) (\<lambda>expected.
                  bindE (case as_list previous_samples of None \<Rightarrow> Inr None
                         | Some ps \<Rightarrow> bindE (series_table L ''sample_timestamp'' ps) (Inr \<circ> Some)) (\<lambda>previous.
                  case observed_at of
                    None \<Rightarrow> Inr None
                  | Some seen_at \<Rightarrow>
                      if max_age \<le> 0 then Inr None
                      else if (case expected of None \<Rightarrow> False
                               | Some e \<Rightarrow> length e \<noteq> length (the (as_list expected_baseline)) \<or> \<not> unique_series (map fst e)
                                   \<or> (case previous of None \<Rightarrow> True | Some p \<Rightarrow> set (map fst p) \<noteq> set (map fst e)))
                      then Inr None
                      else case metric_samples evidence ''kyro_continuity_active_sessions'' of
                             None \<Rightarrow> Inr None
                           | Some samples \<Rightarrow>
                               bindE (mapE (session_sample L protected expected previous seen_at max_age) samples) (\<lambda>found.
                               let matches = concat found; ids = map fst matches
                               in Inr (if \<not> distinct ids then None
                                   else if (case expected of Some e \<Rightarrow> set ids \<noteq> set (map fst e)
                                            | None \<Rightarrow> series_workload ` set ids \<noteq> set (map fst protected)
                                                \<or> length ids \<noteq> length protected) then None
                                   else if \<not> unique_series ids then None
                                   else Some (map (session_json protected) (sort_key fst matches))))))))"

fun session_values :: "verifylib \<Rightarrow> json list \<Rightarrow> (series \<times> rat) list \<Rightarrow> (series \<times> rat) list option verify" where
  \<comment> \<open>\<^verbatim>\<open>values\<close> inside \<^verbatim>\<open>protected_active_sessions_maintained\<close>\<close>
  "session_values L [] parsed = Inr (Some parsed)"
| "session_values L (v # items) parsed =
     (case as_dict v of
        None \<Rightarrow> Inr None
      | Some item \<Rightarrow>
          bindE (finite_float L (dget item ''value'')) (\<lambda>n.
          (case (series_identity item, n) of
             ((ns, kind, name, continuity, pod), Some q) \<Rightarrow>
               if ns = [] \<or> kind = [] \<or> name = [] \<or> continuity = [] \<or> pod = []
                  \<or> map_of parsed (series_identity item) \<noteq> None then Inr None
               else session_values L items (parsed @ [(series_identity item, q)])
           | _ \<Rightarrow> Inr None)))"

definition protected_active_sessions_maintained :: "verifylib \<Rightarrow> json \<Rightarrow> jdict list option \<Rightarrow> bool option verify" where
  "protected_active_sessions_maintained L baseline current =
     (case (as_list baseline, current) of
        (Some (b # bs), Some cs) \<Rightarrow>
          bindE (session_values L (b # bs) []) (\<lambda>before.
          bindE (session_values L (map JDict cs) []) (\<lambda>after.
          Inr (case (before, after) of
                 (Some x, Some y) \<Rightarrow>
                   if set (map fst x) \<noteq> set (map fst y) then None
                   else Some (list_all (\<lambda>(i, q). q \<le> the (map_of y i)) x)
               | _ \<Rightarrow> None)))
      | _ \<Rightarrow> Inr None)"

subsection \<open>Alerts\<close>

definition alert_matches_target :: "jdict \<Rightarrow> jdict \<Rightarrow> bool verify" where
  "alert_matches_target alert target =
     (let subj = mapping (dget alert ''subject'')
      in if JStr (text_of (dget subj ''cluster'')) \<noteq> target_get target ''cluster_id''
            \<or> JStr (text_of (dget subj ''namespace'')) \<noteq> target_get target ''namespace'' then Inr False
         else bindE (target_fold target ''resource_kind'') (\<lambda>kind.
              Inr (py_casefold (text_of (dget subj ''kind'')) = kind
                 \<and> JStr (text_of (dget subj ''name'')) = target_get target ''resource_name'')))"

definition STANDARD_SLI_ALERT_NAME :: string where
  "STANDARD_SLI_ALERT_NAME = ''KyroSliFailureRatioHigh''"

definition alert_matches_original_series :: "jdict \<Rightarrow> jdict \<Rightarrow> jdict \<Rightarrow> bool verify" where
  "alert_matches_original_series alert before target =
     bindE (alert_matches_target alert target) (\<lambda>matches.
     let expected = standard_sli_series_identity (dget before ''series_identity'');
         current = standard_sli_series_identity (dget alert ''series_identity'')
     in Inr (matches
          \<and> \<not> (text_of (dget before ''rule_name'') = STANDARD_SLI_ALERT_NAME \<and> (expected = None \<or> current \<noteq> expected))
          \<and> list_all (\<lambda>f. text_of (dget before f) = [] \<or> text_of (dget alert f) = text_of (dget before f))
              [''rule_id'', ''rule_name'', ''source'', ''subject_key'']))"

definition alert_step :: "verifylib \<Rightarrow> jdict \<Rightarrow> jdict \<Rightarrow> datetime option \<Rightarrow> jdict \<Rightarrow> jdict option \<times> bool \<Rightarrow>
    (jdict option \<times> bool) verify" where
  \<comment> \<open>the body of the loop of \<^verbatim>\<open>alert_checks\<close>: the original occurrence and whether it fired again\<close>
  "alert_step L before target started_at alert = (\<lambda>(original, refired).
     bindE (alert_matches_original_series alert before target) (\<lambda>matches.
     let original_id = text_of (dget before ''alert_event_id'')
     in Inr (if \<not> matches then (original, refired)
         else if original_id \<noteq> [] \<and> text_of (dget alert ''event_id'') = original_id then (Some alert, refired)
         else (original, refired \<or> (case (started_at, parse_datetime L (dget alert ''fired_at'')) of
                 (Some s, Some f) \<Rightarrow> f \<ge> s | _ \<Rightarrow> False)))))"

definition alert_checks :: "verifylib \<Rightarrow> jdict list \<Rightarrow> jdict \<Rightarrow> jdict \<Rightarrow> datetime option \<Rightarrow> (bool option \<times> bool option) verify" where
  "alert_checks L alerts before target started_at =
     bindE (foldE (alert_step L before target started_at) alerts (None, False)) (\<lambda>(original, refired).
     Inr (case original of
            None \<Rightarrow> (None, if refired then Some False else None)
          | Some a \<Rightarrow> (Some (py_casefold (text_of (dget a ''status'')) = ''resolved''
                         \<and> parse_datetime L (dget a ''resolved_at'') \<noteq> None), Some (\<not> refired))))"

definition alert_eligible :: "verifylib \<Rightarrow> jdict \<Rightarrow> string \<Rightarrow> string \<Rightarrow> (string \<times> string) list option \<Rightarrow> jdict \<Rightarrow> bool verify" where
  \<comment> \<open>the guards of the loop of \<^verbatim>\<open>before_alert_snapshot\<close>\<close>
  "alert_eligible L target correlation_id incident_id expected_identity alert =
     bindE (alert_matches_target alert target) (\<lambda>matches.
     let status = py_casefold (text_of (dget alert ''status''));
         fired = parse_datetime L (dget alert ''fired_at''); resolved = parse_datetime L (dget alert ''resolved_at'')
     in if \<not> matches \<or> text_of (dget alert ''incident_id'') \<notin> {correlation_id, incident_id}
           \<or> py_casefold (text_of (dget alert ''source'')) \<noteq> ''alertmanager''
           \<or> text_of (dget alert ''rule_name'') \<noteq> STANDARD_SLI_ALERT_NAME
           \<or> status \<notin> {''firing'', ''acked'', ''resolved''}
           \<or> (if status = ''resolved'' then (case (fired, resolved) of (Some f, Some r) \<Rightarrow> r < f | _ \<Rightarrow> True) else fired = None)
        then Inr False
        else bindE (finite_float L (dget alert ''observed_value'')) (\<lambda>observed.
             bindE (finite_float L (dget alert ''threshold'')) (\<lambda>threshold.
             case (observed, threshold) of
               (Some a, Some b) \<Rightarrow>
                 if a \<le> b then Inr False
                 else (case standard_sli_series_identity (dget alert ''series_identity'') of
                         None \<Rightarrow> Inr False
                       | Some identity \<Rightarrow>
                           bindE (metric_labels_match_target (map (\<lambda>(k, v). (k, JStr v)) identity) target) (\<lambda>ok.
                           Inr (ok \<and> (expected_identity = None \<or> Some identity = expected_identity))))
             | _ \<Rightarrow> Inr False)))"

definition before_alert_snapshot :: "verifylib \<Rightarrow> jdict list \<Rightarrow> jdict \<Rightarrow> string \<Rightarrow> string \<Rightarrow> json option \<Rightarrow> jdict verify" where
  "before_alert_snapshot L alerts target correlation_id incident_id expected_series_identity =
     (let expected = (case expected_series_identity of None \<Rightarrow> None | Some v \<Rightarrow> standard_sli_series_identity v);
          unavailable = (\<lambda>code. [(''available'', JBool False), (''reason_code'', JStr code)])
      in if expected_series_identity \<noteq> None \<and> expected = None then Inr (unavailable ''pre_recovery_alert_missing'')
         else bindE (mapE (\<lambda>a. bindE (alert_eligible L target correlation_id incident_id expected a)
                      (\<lambda>ok. Inr (if ok then [a] else []))) alerts) (\<lambda>found.
              Inr (case concat found of
                     [] \<Rightarrow> unavailable ''pre_recovery_alert_missing''
                   | [alert] \<Rightarrow> (''available'', JBool True) # (''alert_event_id'', dget alert ''event_id'') #
                       map (\<lambda>k. (k, dget alert k)) [''rule_id'', ''rule_name'', ''source'', ''subject_key'',
                         ''series_identity'', ''observed_value'', ''threshold'', ''fired_at'', ''subject'']
                   | _ \<Rightarrow> unavailable ''pre_recovery_alert_ambiguous'')))"

subsection \<open>The view of a window and its checks\<close>

record after_view =
  \<comment> \<open>the mapping that \<^verbatim>\<open>observed_after\<close> returns\<close>
  av_failure_ratio :: "rat option"
  av_request_rate :: "rat option"
  av_deployment :: "deployment_view option"
  av_protected :: "jdict list option"
  av_sessions :: "jdict list option"

definition CONTINUITY_SAMPLE_MAX_AGE_SECONDS :: int where
  "CONTINUITY_SAMPLE_MAX_AGE_SECONDS = 30"

definition observed_after :: "verifylib \<Rightarrow> jdict \<Rightarrow> jdict \<Rightarrow> jdict \<Rightarrow> json \<Rightarrow> json \<Rightarrow> json \<Rightarrow> after_view verify" where
  "observed_after L evidence target expected protected_baseline session_baseline previous_samples =
     bindE (metric_sample L evidence ''kyro_sli_failure_ratio'' target
              (mapping (dget expected ''failure_ratio_metric_identity''))) (\<lambda>failure_ratio.
     bindE (metric_sample L evidence ''kyro_sli_request_rate'' target
              (mapping (dget expected ''request_rate_metric_identity''))) (\<lambda>request_rate.
     bindE (deployment_replicas evidence target) (\<lambda>deployment.
     bindE (protected_workloads evidence target protected_baseline) (\<lambda>workloads.
     bindE (protected_active_session_series L evidence protected_baseline session_baseline
              (py_or previous_samples session_baseline) (parse_datetime L (dget evidence ''window_start''))
              CONTINUITY_SAMPLE_MAX_AGE_SECONDS) (\<lambda>sessions.
     Inr \<lparr>av_failure_ratio = failure_ratio, av_request_rate = request_rate, av_deployment = deployment,
          av_protected = workloads, av_sessions = sessions\<rparr>)))))"

definition both :: "('a \<Rightarrow> 'b \<Rightarrow> bool) \<Rightarrow> 'a option \<Rightarrow> 'b option \<Rightarrow> bool option" where
  \<comment> \<open>\<^verbatim>\<open>x <op> y if x is not None and y is not None else None\<close>\<close>
  "both f x y = (case (x, y) of (Some a, Some b) \<Rightarrow> Some (f a b) | _ \<Rightarrow> None)"

definition omitted_unavailable_means_zero :: "deployment_view \<Rightarrow> int option \<Rightarrow> bool" where
  "omitted_unavailable_means_zero d replicas \<longleftrightarrow>
     dp_unavailable_omitted d \<and> dp_unavailable d = None \<and> replicas \<noteq> None
     \<and> dp_desired d = replicas \<and> dp_ready d = replicas \<and> dp_updated d = replicas \<and> dp_available d = replicas
     \<and> both (\<ge>) (dp_observed_generation d) (dp_generation d) = Some True"

definition no_deployment :: deployment_view where
  \<comment> \<open>the reads of an empty mapping\<close>
  "no_deployment = \<lparr>dp_generation = None, dp_observed_generation = None, dp_desired = None, dp_ready = None,
     dp_updated = None, dp_available = None, dp_unavailable = None, dp_unavailable_omitted = False\<rparr>"

type_synonym checks = "(string \<times> bool option) list"

definition deployment_checks :: "deployment_view \<Rightarrow> int option \<Rightarrow> checks" where
  "deployment_checks d replicas =
     [(''desired_replicas_restored'', both (=) (dp_desired d) replicas),
      (''ready_replicas_restored'', both (=) (dp_ready d) replicas),
      (''updated_replicas_restored'', both (=) (dp_updated d) replicas),
      (''available_replicas_restored'', both (=) (dp_available d) replicas),
      (''unavailable_replicas_zero'',
         case dp_unavailable d of
           Some n \<Rightarrow> Some (n = 0)
         | None \<Rightarrow> if omitted_unavailable_means_zero d replicas then Some True else None),
      (''deployment_generation_observed'', both (=) (dp_observed_generation d) (dp_generation d))]"

definition continuity_checks :: "after_view \<Rightarrow> int \<Rightarrow> json \<Rightarrow> json \<Rightarrow> bool option \<Rightarrow> checks" where
  "continuity_checks after protected_expected protected_baseline session_baseline maintained =
     (let required = (\<lambda>c. if protected_expected > 0 then c else Some True)
      in [(''protected_workloads_present'',
             required (map_option (\<lambda>ws. int (length ws) \<ge> protected_expected) (av_protected after))),
          (''protected_workloads_healthy'',
             required (map_option (list_all (\<lambda>w. dget w ''healthy'' = JBool True)) (av_protected after))),
          (''protected_workloads_uninterrupted'',
             required (protected_workloads_unchanged protected_baseline (av_protected after))),
          (''protected_active_session_series_present'',
             required (both (\<lambda>ss es. length ss = length es) (av_sessions after) (as_list session_baseline))),
          (''protected_active_sessions_maintained'', required maintained)])"

definition verification_checks :: "verifylib \<Rightarrow> after_view \<Rightarrow> jdict list \<Rightarrow> jdict \<Rightarrow> jdict \<Rightarrow> jdict \<Rightarrow> json \<Rightarrow> json \<Rightarrow>
    datetime option \<Rightarrow> checks verify" where
  "verification_checks L after alerts before target expected protected_baseline session_baseline started_at =
     bindE (finite_float L (dget expected ''failure_ratio_max'')) (\<lambda>failure_ratio_max.
     bindE (finite_float L (dget expected ''request_rate_baseline'')) (\<lambda>rate_baseline.
     bindE (finite_float L (dget expected ''request_rate_tolerance_ratio'')) (\<lambda>tolerance.
     bindE (nonnegative_int (dget expected ''replicas'')) (\<lambda>replicas.
     bindE (nonnegative_int (dget expected ''protected_workloads'')) (\<lambda>protected.
     bindE (protected_active_sessions_maintained L session_baseline (av_sessions after)) (\<lambda>maintained.
     bindE (alert_checks L alerts before target started_at) (\<lambda>(alert_resolved, no_refire).
     Inr ([(''failure_ratio_below_threshold'', both (\<le>) (av_failure_ratio after) failure_ratio_max),
           (''request_rate_near_baseline'',
              case (av_request_rate after, rate_baseline, tolerance) of
                (Some r, Some b, Some t) \<Rightarrow> if b > 0 \<and> 0 \<le> t \<and> t < 1 then Some (\<bar>r - b\<bar> \<le> b * t) else None
              | _ \<Rightarrow> None)]
          @ deployment_checks (case av_deployment after of None \<Rightarrow> no_deployment | Some d \<Rightarrow> d) replicas
          @ continuity_checks after (case protected of None \<Rightarrow> 0 | Some n \<Rightarrow> n) protected_baseline session_baseline maintained
          @ [(''alertmanager_resolved'', alert_resolved), (''alertmanager_no_refire'', no_refire)]))))))))"

subsection \<open>The trusted time of a window\<close>

definition evidence_source_lineages :: "jdict \<Rightarrow> jdict list" where
  "evidence_source_lineages evidence =
     List.map_filter (\<lambda>source. case as_dict (dget evidence source) of
         None \<Rightarrow> None | Some payload \<Rightarrow> as_dict (dget payload ''_lineage''))
       [''kubernetes'', ''metrics'', ''traces'', ''metadata'']
     @ (case as_list (dget evidence ''logs'') of
          None \<Rightarrow> []
        | Some entries \<Rightarrow> List.map_filter (\<lambda>entry. as_dict (dget entry ''_lineage'')) (List.map_filter as_dict entries))"

definition lineage_identity :: "verifylib \<Rightarrow> jdict \<Rightarrow> (string \<times> string \<times> string \<times> datetime) option" where
  "lineage_identity L lineage =
     (let ws = text_of (dget lineage ''workspace_id''); cluster = text_of (dget lineage ''cluster_id'');
          key = text_of (dget lineage ''evidence_key'')
      in case parse_datetime L (dget lineage ''window_start'') of
           None \<Rightarrow> None
         | Some t \<Rightarrow> if ws = [] \<or> cluster = [] \<or> key = [] then None else Some (ws, cluster, key, t))"

definition disagrees :: "string \<Rightarrow> string \<Rightarrow> bool" where
  \<comment> \<open>\<^verbatim>\<open>expected and expected != actual\<close>\<close>
  "disagrees expected actual \<longleftrightarrow> expected \<noteq> [] \<and> actual \<noteq> expected"

definition trusted_evidence_window_start :: "verifylib \<Rightarrow> jdict \<Rightarrow> string \<Rightarrow> string \<Rightarrow> datetime option" where
  "trusted_evidence_window_start L evidence expected_workspace expected_cluster =
     (let top_start = parse_datetime L (dget evidence ''window_start'');
          top_ws = text_of (dget evidence ''workspace_id''); top_cluster = text_of (dget evidence ''cluster_id'');
          top_key = text_of (dget evidence ''evidence_key'');
          lineages = evidence_source_lineages evidence
      in if (top_ws \<noteq> [] \<and> disagrees expected_workspace top_ws) \<or> (top_cluster \<noteq> [] \<and> disagrees expected_cluster top_cluster)
         then None
         else if lineages = [] then
           (if disagrees expected_workspace top_ws \<or> disagrees expected_cluster top_cluster then None else top_start)
         else if mapping (dget (mapping (dget evidence ''metrics'')) ''_lineage'') = [] then None
         else case those (map (lineage_identity L) lineages) of
                Some ((ws, cluster, key, start) # rest) \<Rightarrow>
                  if list_ex (\<lambda>i. i \<noteq> (ws, cluster, key, start)) rest
                     \<or> disagrees expected_workspace ws \<or> disagrees expected_cluster cluster
                     \<or> disagrees top_ws ws \<or> disagrees top_cluster cluster \<or> disagrees top_key key
                     \<or> (case top_start of None \<Rightarrow> False | Some t \<Rightarrow> start \<noteq> t) then None
                  else Some start
              | _ \<Rightarrow> None)"

end
