(* ===== verification/Recovery_Stability.thy ===== *)
theory Recovery_Stability
  imports Recovery_Verification Event_Envelope
begin

section \<open>The stabilization window\<close>

text \<open>
  \<^verbatim>\<open>evaluate_recovery_evidence\<close> judges one window of evidence against the durable verification state,
  and \<^verbatim>\<open>on_recovery_verification_evidence\<close> of the feedback worker writes the decision back into the
  plan. A plan is a row with a status and a payload; the update is conditional on the status. The
  theorem of this theory is about the sequence of windows: a plan becomes completed only at the end of
  an unbroken streak of healthy windows that is long and dense enough.
\<close>

subsection \<open>One decision\<close>

datatype verify_reason =
  Reason_Duplicate | Reason_Stale | Reason_Failed "string list" | Reason_Missing "string list"
| Reason_Expired_Unhealthy verify_reason | Reason_No_Cadence | Reason_Expired_Unstable
| Reason_Stabilizing int int | Reason_Verified int | Reason_Waiting | Reason_Restarted

record after_state = after_view +
  \<comment> \<open>\<^verbatim>\<open>after\<close> with the keys that the evaluation adds\<close>
  as_checks :: checks
  as_observed_at :: datetime
  as_evidence_observed_at :: "datetime option"
  as_evidence_ref :: "string option"
  as_stable :: "(datetime \<times> rat \<times> int) option"

record verification_decision =
  vd_status :: string
  vd_reason_code :: string
  vd_reason :: verify_reason
  vd_after :: after_state
  vd_healthy_since :: "string option"
  vd_last_healthy :: "string option"
  vd_count :: int
  vd_last_key :: "string option"

definition text_or_none :: "string \<Rightarrow> string option" where
  "text_or_none s = (if s = [] then None else Some s)"

definition ignored_decision :: "verifylib \<Rightarrow> jdict \<Rightarrow> string \<Rightarrow> verify_reason \<Rightarrow> int \<Rightarrow> after_state \<Rightarrow> verification_decision" where
  \<comment> \<open>the two decisions that keep the streak as it is\<close>
  "ignored_decision L verification code reason count after =
     \<lparr>vd_status = ''pending'', vd_reason_code = code, vd_reason = reason, vd_after = after,
      vd_healthy_since = text_or_none (text_of (dget verification ''healthy_since'')),
      vd_last_healthy = map_option (utc_isoformat L) (parse_datetime L (dget verification ''last_healthy_observed_at'')),
      vd_count = count, vd_last_key = text_or_none (text_of (dget verification ''last_evidence_key''))\<rparr>"

definition reset_decision :: "string \<Rightarrow> string \<Rightarrow> verify_reason \<Rightarrow> after_state \<Rightarrow> string option \<Rightarrow> verification_decision" where
  \<comment> \<open>the decisions that end the streak\<close>
  "reset_decision status code reason after key =
     \<lparr>vd_status = status, vd_reason_code = code, vd_reason = reason, vd_after = after,
      vd_healthy_since = None, vd_last_healthy = None, vd_count = 0, vd_last_key = key\<rparr>"

definition past_deadline :: "verifylib \<Rightarrow> jdict \<Rightarrow> datetime \<Rightarrow> bool" where
  "past_deadline L verification now \<longleftrightarrow>
     (case parse_datetime L (dget verification ''deadline_at'') of None \<Rightarrow> False | Some t \<Rightarrow> now \<ge> t)"

definition unhealthy_decision :: "verifylib \<Rightarrow> jdict \<Rightarrow> datetime \<Rightarrow> string list \<Rightarrow> string list \<Rightarrow> after_state \<Rightarrow>
    string option \<Rightarrow> verification_decision" where
  "unhealthy_decision L verification now failed missing after key =
     (let reason = (if failed \<noteq> [] then Reason_Failed failed else Reason_Missing missing)
      in if past_deadline L verification now
         then reset_decision ''failed'' ''verification_window_expired'' (Reason_Expired_Unhealthy reason) after key
         else reset_decision ''pending''
                (if failed \<noteq> [] then ''verification_regressed'' else ''verification_evidence_missing'') reason after key)"

definition continues_streak :: "int \<Rightarrow> datetime option \<Rightarrow> datetime \<Rightarrow> bool" where
  \<comment> \<open>the window follows the previous healthy one, by at most one and a half cadences\<close>
  "continues_streak cadence previous t \<longleftrightarrow>
     (case previous of None \<Rightarrow> True | Some p \<Rightarrow> 0 < t - p \<and> 2 * (t - p) \<le> 3 * cadence * 1000000)"

definition minimum_distinct :: "int \<Rightarrow> int \<Rightarrow> int" where
  "minimum_distinct minimum_seconds cadence = max 2 (\<lceil>rat_of_int minimum_seconds / rat_of_int cadence\<rceil> + 1)"

definition healthy_decision :: "verifylib \<Rightarrow> jdict \<Rightarrow> int \<Rightarrow> int \<Rightarrow> datetime \<Rightarrow> datetime \<Rightarrow> int \<Rightarrow> after_state \<Rightarrow>
    string option \<Rightarrow> verification_decision" where
  "healthy_decision L verification minimum_seconds cadence now t count after key =
     (let previous = parse_datetime L (dget verification ''last_healthy_observed_at'');
          continues = continues_streak cadence previous t;
          since = (if continues then parse_datetime L (dget verification ''healthy_since'') else None);
          stable_from = (case since of None \<Rightarrow> t | Some s \<Rightarrow> s);
          new_count = (if continues then count else 0) + 1;
          stable_us = max 0 (t - stable_from);
          after' = after\<lparr>as_stable := Some (stable_from, of_int stable_us / 1000000, new_count)\<rparr>;
          decision = (\<lambda>status code reason. \<lparr>vd_status = status, vd_reason_code = code, vd_reason = reason,
            vd_after = after', vd_healthy_since = Some (utc_isoformat L stable_from),
            vd_last_healthy = Some (utc_isoformat L t), vd_count = new_count, vd_last_key = key\<rparr>)
      in if stable_us < minimum_seconds * 1000000 \<or> new_count < minimum_distinct minimum_seconds cadence
         then (if past_deadline L verification now
               then decision ''failed'' ''verification_window_expired'' Reason_Expired_Unstable
               else decision ''pending'' ''stabilization_window_in_progress''
                      (Reason_Stabilizing (stable_us div 1000000) minimum_seconds))
         else decision ''completed'' ''recovery_verified'' (Reason_Verified minimum_seconds))"

definition verification_target :: "jdict \<Rightarrow> jdict \<Rightarrow> jdict" where
  "verification_target plan_payload verification =
     (let t = mapping (dget verification ''target'') in if t \<noteq> [] then t else recovery_target plan_payload)"

definition cadence_too_large :: "int \<Rightarrow> bool" where
  \<comment> \<open>\<^verbatim>\<open>cadence * 1.5\<close> converts the integer to a float\<close>
  "cadence_too_large cadence \<longleftrightarrow> cadence \<ge> 2 ^ 1024 - 2 ^ 970"

definition judge_window :: "verifylib \<Rightarrow> jdict \<Rightarrow> int \<Rightarrow> datetime \<Rightarrow> string \<Rightarrow> datetime option \<Rightarrow> int \<Rightarrow> after_state \<Rightarrow>
    verification_decision verify" where
  \<comment> \<open>the part of \<^verbatim>\<open>evaluate_recovery_evidence\<close> after the reads: duplicate, stale, unhealthy, healthy\<close>
  "judge_window L verification minimum_seconds now evidence_key started_at count after =
     (let previous_key = text_of (dget verification ''last_evidence_key'');
          key = text_or_none (if evidence_key \<noteq> [] then evidence_key else previous_key);
          failed = map fst (filter (\<lambda>c. snd c = Some False) (as_checks after));
          missing = map fst (filter (\<lambda>c. snd c = None) (as_checks after));
          no_cadence = reset_decision ''pending'' ''verification_evidence_missing'' Reason_No_Cadence after key
      in if evidence_key \<noteq> [] \<and> evidence_key = previous_key
         then Inr (ignored_decision L verification ''duplicate_evidence_window'' Reason_Duplicate count after)
         else case (as_evidence_observed_at after, started_at) of
           (Some t, Some s) \<Rightarrow>
             if t < s \<or> t > now
             then Inr (ignored_decision L verification ''stale_evidence_window'' Reason_Stale count after)
             else if failed \<noteq> [] \<or> missing \<noteq> []
             then Inr (unhealthy_decision L verification now failed missing after key)
             else bindE (nonnegative_int (dget (mapping (dget verification ''expected'')) ''evidence_cadence_seconds''))
               (\<lambda>cadence. case cadence of
                  None \<Rightarrow> Inr no_cadence
                | Some c \<Rightarrow>
                    if c \<le> 0 then Inr no_cadence
                    else if cadence_too_large c then Inl Verify_Overflow
                    else Inr (healthy_decision L verification minimum_seconds c now t count after key))
         | _ \<Rightarrow> Inr (ignored_decision L verification ''stale_evidence_window'' Reason_Stale count after))"

definition evaluate_recovery_evidence :: "verifylib \<Rightarrow> jdict \<Rightarrow> jdict \<Rightarrow> jdict \<Rightarrow> jdict list \<Rightarrow> datetime \<Rightarrow>
    verification_decision verify" where
  "evaluate_recovery_evidence L plan_payload lifecycle evidence alerts now =
     (let verification = mapping (dget lifecycle ''verification'');
          expected = mapping (dget verification ''expected'');
          target = verification_target plan_payload verification;
          started_at = parse_datetime L (dget verification ''started_at'');
          evidence_key = text_of (dget evidence ''evidence_key'');
          protected_baseline = dget verification ''protected_baseline'';
          session_baseline = dget verification ''protected_session_baseline''
      in bindE (bounded_seconds (dget verification ''minimum_seconds'') 300 300 600) (\<lambda>minimum_seconds.
         bindE (observed_after L evidence target expected protected_baseline session_baseline
                  (dget verification ''last_session_samples'')) (\<lambda>view.
         bindE (verification_checks L view alerts (mapping (dget verification ''before'')) target expected
                  protected_baseline session_baseline started_at) (\<lambda>checks.
         bindE (nonnegative_int (dget verification ''distinct_evidence_count'')) (\<lambda>stored_count.
         judge_window L verification minimum_seconds now evidence_key started_at
           (case stored_count of None \<Rightarrow> 0 | Some n \<Rightarrow> n)
           (after_view.extend view
              \<lparr>as_checks = checks, as_observed_at = now,
               as_evidence_observed_at = parse_datetime L (dget evidence ''window_start''),
               as_evidence_ref = text_or_none evidence_key, as_stable = None\<rparr>))))))"

subsection \<open>The durable state of a plan\<close>

definition json_of_int_option :: "int option \<Rightarrow> json" where
  "json_of_int_option v = (case v of None \<Rightarrow> JNull | Some i \<Rightarrow> JInt i)"

definition json_of_rat_option :: "rat option \<Rightarrow> json" where
  "json_of_rat_option v = (case v of None \<Rightarrow> JNull | Some q \<Rightarrow> JFloat (Fin q) [])"

definition json_of_dicts :: "jdict list option \<Rightarrow> json" where
  "json_of_dicts v = (case v of None \<Rightarrow> JNull | Some ds \<Rightarrow> JList (map JDict ds))"

definition deployment_json :: "deployment_view \<Rightarrow> jdict" where
  "deployment_json d =
     [(''generation'', json_of_int_option (dp_generation d)),
      (''observed_generation'', json_of_int_option (dp_observed_generation d)),
      (''desired_replicas'', json_of_int_option (dp_desired d)),
      (''ready_replicas'', json_of_int_option (dp_ready d)),
      (''updated_replicas'', json_of_int_option (dp_updated d)),
      (''available_replicas'', json_of_int_option (dp_available d)),
      (''unavailable_replicas'', json_of_int_option (dp_unavailable d)),
      (''unavailable_replicas_omitted'', JBool (dp_unavailable_omitted d))]"

definition after_json :: "verifylib \<Rightarrow> after_state \<Rightarrow> jdict" where
  \<comment> \<open>the mapping \<^verbatim>\<open>after\<close>, its keys in the order in which the code adds them\<close>
  "after_json L a =
     [(''failure_ratio'', json_of_rat_option (av_failure_ratio a)),
      (''request_rate'', json_of_rat_option (av_request_rate a)),
      (''deployment'', case av_deployment a of None \<Rightarrow> JNull | Some d \<Rightarrow> JDict (deployment_json d)),
      (''protected_workloads'', json_of_dicts (av_protected a)),
      (''protected_active_sessions'', json_of_dicts (av_sessions a)),
      (''checks'', JDict (map (\<lambda>(k, v). (k, case v of None \<Rightarrow> JNull | Some b \<Rightarrow> JBool b)) (as_checks a))),
      (''observed_at'', JStr (utc_isoformat L (as_observed_at a)))]
     @ (case as_evidence_observed_at a of None \<Rightarrow> [] | Some t \<Rightarrow> [(''evidence_observed_at'', JStr (utc_isoformat L t))])
     @ (case as_evidence_ref a of None \<Rightarrow> [] | Some k \<Rightarrow> [(''evidence_ref'', JStr k)])
     @ (case as_stable a of None \<Rightarrow> []
        | Some (since, seconds, count) \<Rightarrow>
            [(''healthy_since'', JStr (utc_isoformat L since)), (''stable_seconds'', JFloat (Fin seconds) []),
             (''distinct_evidence_count'', JInt count)])"

definition record_decision :: "verifylib \<Rightarrow> (verify_reason \<Rightarrow> string) \<Rightarrow> verification_decision \<Rightarrow> jdict \<Rightarrow> jdict" where
  \<comment> \<open>the \<^verbatim>\<open>verification.update\<close> of the handler and the persisted session samples\<close>
  "record_decision L msg d verification =
     (let v = fold (\<lambda>(k, x) v. dset v k x)
        [(''status'', JStr (vd_status d)), (''healthy_since'', json_of_option (vd_healthy_since d)),
         (''last_healthy_observed_at'', json_of_option (vd_last_healthy d)),
         (''distinct_evidence_count'', JInt (vd_count d)), (''last_evidence_key'', json_of_option (vd_last_key d)),
         (''last_reason_code'', JStr (vd_reason_code d)), (''last_reason'', JStr (msg (vd_reason d))),
         (''after'', JDict (after_json L (vd_after d)))] verification
      in case av_sessions (vd_after d) of
           None \<Rightarrow> v
         | Some samples \<Rightarrow> dset v ''last_session_samples'' (JList (map JDict samples)))"

definition target_status :: "verification_decision \<Rightarrow> string" where
  "target_status d =
     (if vd_status d = ''completed'' then ''completed''
      else if vd_status d = ''failed'' then ''failed'' else ''verification_pending'')"

definition apply_verification_terminal_state :: "(verify_reason \<Rightarrow> string) \<Rightarrow> verification_decision \<Rightarrow> string \<Rightarrow> jdict \<Rightarrow> jdict" where
  "apply_verification_terminal_state msg d evidence_ref lifecycle =
     (if vd_status d = ''failed'' then
        dset lifecycle ''failure'' (JDict [(''reason_code'', JStr (vd_reason_code d)),
          (''reason'', JStr (msg (vd_reason d))), (''evidence_ref'', JStr evidence_ref)])
      else if vd_status d = ''completed'' then filter (\<lambda>kv. fst kv \<noteq> ''failure'') lifecycle
      else lifecycle)"

record plan_row =
  pr_status :: string
  pr_payload :: jdict

definition update_lifecycle_if_status :: "string list \<Rightarrow> string \<Rightarrow> jdict \<Rightarrow> plan_row \<Rightarrow> plan_row option" where
  \<comment> \<open>\<^verbatim>\<open>update_recovery_plan_lifecycle_if_status\<close> on the selected row, without the selection columns\<close>
  "update_lifecycle_if_status expected status lifecycle row =
     (if pr_status row \<in> set expected
      then Some \<lparr>pr_status = status, pr_payload = dset (pr_payload row) ''lifecycle'' (JDict lifecycle)\<rparr>
      else None)"

definition row_lifecycle :: "plan_row \<Rightarrow> jdict" where
  "row_lifecycle row = mapping (dget (pr_payload row) ''lifecycle'')"

definition row_verification :: "plan_row \<Rightarrow> jdict" where
  "row_verification row = mapping (dget (row_lifecycle row) ''verification'')"

record window =
  \<comment> \<open>what one evidence event brings: its key, its payload, the alerts read for it, the clock\<close>
  wd_key :: string
  wd_evidence :: jdict
  wd_alerts :: "jdict list"
  wd_now :: datetime

definition on_recovery_verification_evidence :: "verifylib \<Rightarrow> (verify_reason \<Rightarrow> string) \<Rightarrow> window \<Rightarrow> plan_row \<Rightarrow>
    (plan_row \<times> verification_decision option) verify" where
  \<comment> \<open>the loop body, for a plan of the list of pending verifications; any other plan is not listed\<close>
  "on_recovery_verification_evidence L msg w row =
     (if wd_key w = [] \<or> pr_status row \<noteq> ''verification_pending'' then Inr (row, None)
      else bindE (evaluate_recovery_evidence L (pr_payload row) (row_lifecycle row) (wd_evidence w) (wd_alerts w) (wd_now w)) (\<lambda>d.
        let lifecycle = apply_verification_terminal_state msg d (wd_key w)
              (dset (dset (row_lifecycle row) ''verification'' (JDict (record_decision L msg d (row_verification row))))
                 ''phase'' (JStr (target_status d)))
        in Inr (case update_lifecycle_if_status [''verification_pending''] (target_status d) lifecycle row of
                  None \<Rightarrow> (row, None)
                | Some row' \<Rightarrow> (row', Some d))))"

fun verification_run :: "verifylib \<Rightarrow> (verify_reason \<Rightarrow> string) \<Rightarrow> window list \<Rightarrow> plan_row \<Rightarrow>
    (plan_row \<times> verification_decision list) verify" where
  \<comment> \<open>a sequence of evidence events for one plan: the final row and the decisions that were saved\<close>
  "verification_run L msg [] row = Inr (row, [])"
| "verification_run L msg (w # ws) row =
     bindE (on_recovery_verification_evidence L msg w row) (\<lambda>(row', d).
     bindE (verification_run L msg ws row') (\<lambda>(row'', ds).
     Inr (row'', (case d of None \<Rightarrow> ds | Some x \<Rightarrow> x # ds))))"

subsection \<open>Starting a verification\<close>

definition started_verification :: "verifylib \<Rightarrow> (verify_reason \<Rightarrow> string) \<Rightarrow> datetime \<Rightarrow> int \<Rightarrow> jdict \<Rightarrow> jdict" where
  \<comment> \<open>the \<^verbatim>\<open>verification.update\<close> of \<^verbatim>\<open>start_recovery_verification\<close>; \<^verbatim>\<open>maximum_seconds\<close> is an argument\<close>
  "started_verification L msg now maximum_seconds verification =
     fold (\<lambda>(k, x) v. dset v k x)
       [(''status'', JStr ''verification_pending''), (''started_at'', JStr (utc_isoformat L now)),
        (''deadline_at'', JStr (utc_isoformat L (now + maximum_seconds * 1000000))), (''healthy_since'', JNull),
        (''last_reason_code'', JStr ''waiting_for_post_deploy_evidence''), (''last_reason'', JStr (msg Reason_Waiting))]
       verification"

definition recovery_retry_number :: "jdict \<Rightarrow> int" where
  "recovery_retry_number container =
     (case dget container ''retry_attempt'' of JInt i \<Rightarrow> if i \<ge> 0 then i + 1 else 1 | _ \<Rightarrow> 1)"

definition retry_maximum :: "jdict \<Rightarrow> int" where
  "retry_maximum verification =
     (case dget verification ''maximum_seconds'' of JInt m \<Rightarrow> if 0 < m \<and> m \<le> 600 then m else 600 | _ \<Rightarrow> 600)"

definition retried_verification :: "verifylib \<Rightarrow> (verify_reason \<Rightarrow> string) \<Rightarrow> datetime \<Rightarrow> jdict \<Rightarrow> jdict" where
  \<comment> \<open>the \<^verbatim>\<open>verification.update\<close> of \<^verbatim>\<open>verification_retry_lifecycle\<close>\<close>
  "retried_verification L msg now verification =
     fold (\<lambda>(k, x) v. dset v k x)
       [(''status'', JStr ''verification_pending''), (''started_at'', JStr (utc_isoformat L now)),
        (''deadline_at'', JStr (utc_isoformat L (now + retry_maximum verification * 1000000))),
        (''healthy_since'', JNull), (''last_healthy_observed_at'', JNull), (''distinct_evidence_count'', JInt 0),
        (''last_evidence_key'', JNull), (''last_session_samples'', dget verification ''protected_session_baseline''),
        (''after'', JDict []), (''last_reason_code'', JStr ''waiting_for_post_deploy_evidence''),
        (''last_reason'', JStr (msg Reason_Restarted)), (''retry_attempt'', JInt (recovery_retry_number verification))]
       verification"

subsection \<open>Streaks\<close>

definition window_ignored :: "verification_decision \<Rightarrow> bool" where
  "window_ignored d \<longleftrightarrow> vd_reason_code d \<in> {''duplicate_evidence_window'', ''stale_evidence_window''}"

definition all_checks_hold :: "verification_decision \<Rightarrow> bool" where
  "all_checks_hold d \<longleftrightarrow> list_all (\<lambda>c. snd c = Some True) (as_checks (vd_after d))"

definition window_times :: "verification_decision list \<Rightarrow> datetime list" where
  \<comment> \<open>the times of the windows that count\<close>
  "window_times ds = List.map_filter (\<lambda>d. as_evidence_observed_at (vd_after d)) (filter (\<lambda>d. \<not> window_ignored d) ds)"

fun dense :: "int \<Rightarrow> datetime list \<Rightarrow> bool" where
  \<comment> \<open>each window follows the one before, by at most one and a half cadences\<close>
  "dense cadence (t # t' # ts) \<longleftrightarrow> 0 < t' - t \<and> 2 * (t' - t) \<le> 3 * cadence * 1000000 \<and> dense cadence (t' # ts)"
| "dense cadence _ \<longleftrightarrow> True"

definition unbroken :: "verification_decision list \<Rightarrow> bool" where
  "unbroken ds \<longleftrightarrow> list_all (\<lambda>d. window_ignored d \<or> all_checks_hold d) ds"

definition stable_streak :: "int \<Rightarrow> int \<Rightarrow> verification_decision list \<Rightarrow> bool" where
  "stable_streak minimum_seconds cadence ds \<longleftrightarrow>
     (let ts = window_times ds
      in unbroken ds \<and> dense cadence ts \<and> int (length ts) \<ge> minimum_distinct minimum_seconds cadence
         \<and> last ts - hd ts \<ge> minimum_seconds * 1000000)"

definition iso_roundtrip :: "verifylib \<Rightarrow> bool" where
  \<comment> \<open>an instant that \<^verbatim>\<open>fromisoformat\<close> returned is read back from its own \<^verbatim>\<open>isoformat\<close>, a text without outer spaces\<close>
  "iso_roundtrip L \<longleftrightarrow> (\<forall>s t. fromisoformat L s = Some t \<longrightarrow>
     parse_datetime L (JStr (utc_isoformat L t)) = Some t \<and> py_strip (utc_isoformat L t) = utc_isoformat L t)"

definition fresh_verification :: "jdict \<Rightarrow> bool" where
  "fresh_verification v \<longleftrightarrow> dget v ''healthy_since'' = JNull \<and> dget v ''last_healthy_observed_at'' = JNull
     \<and> nonnegative_int (dget v ''distinct_evidence_count'') \<in> {Inr None, Inr (Some 0)}"

definition required_seconds :: "jdict \<Rightarrow> int verify" where
  "required_seconds v = bounded_seconds (dget v ''minimum_seconds'') 300 300 600"

definition evidence_cadence :: "jdict \<Rightarrow> int option verify" where
  "evidence_cadence v = nonnegative_int (dget (mapping (dget v ''expected'')) ''evidence_cadence_seconds'')"

definition tracks :: "verifylib \<Rightarrow> datetime list \<Rightarrow> jdict \<Rightarrow> bool" where
  \<comment> \<open>the durable state describes the streak of the given window times\<close>
  "tracks L ts v \<longleftrightarrow>
     dget v ''healthy_since'' = (if ts = [] then JNull else JStr (utc_isoformat L (hd ts)))
     \<and> dget v ''last_healthy_observed_at'' = (if ts = [] then JNull else JStr (utc_isoformat L (last ts)))
     \<and> (nonnegative_int (dget v ''distinct_evidence_count'') = Inr (Some (int (length ts)))
        \<or> ts = [] \<and> nonnegative_int (dget v ''distinct_evidence_count'') = Inr None)
     \<and> (\<forall>t \<in> set ts. \<exists>s. fromisoformat L s = Some t)"

lemma retried_is_fresh: "fresh_verification (retried_verification L msg now v)"
  by (simp add: retried_verification_def fresh_verification_def)

lemma started_is_fresh:
  "dget v ''last_healthy_observed_at'' = JNull \<Longrightarrow> dget v ''distinct_evidence_count'' = JNull
     \<Longrightarrow> fresh_verification (started_verification L msg now m v)"
  by (simp add: started_verification_def fresh_verification_def)

lemma dense_snoc: "ts \<noteq> [] \<Longrightarrow> dense c (ts @ [t]) \<longleftrightarrow> dense c ts \<and> continues_streak c (Some (last ts)) t"
  by (induction c ts rule: dense.induct) (auto simp: continues_streak_def)

lemma dense_hd_le_last: "dense c ts \<Longrightarrow> ts \<noteq> [] \<Longrightarrow> hd ts \<le> last ts"
  by (induction c ts rule: dense.induct) auto

lemma record_decision_gets:
  "dget (record_decision L msg d v) ''healthy_since'' = json_of_option (vd_healthy_since d)"
  "dget (record_decision L msg d v) ''last_healthy_observed_at'' = json_of_option (vd_last_healthy d)"
  "dget (record_decision L msg d v) ''distinct_evidence_count'' = JInt (vd_count d)"
  "dget (record_decision L msg d v) ''minimum_seconds'' = dget v ''minimum_seconds''"
  "dget (record_decision L msg d v) ''expected'' = dget v ''expected''"
  by (simp_all add: record_decision_def Let_def split: option.split)

lemma record_decision_keeps:
  "required_seconds (record_decision L msg d v) = required_seconds v"
  "evidence_cadence (record_decision L msg d v) = evidence_cadence v"
  by (simp_all add: required_seconds_def evidence_cadence_def record_decision_gets)

lemma required_seconds_bounds: "required_seconds v = Inr m \<Longrightarrow> 300 \<le> m \<and> m \<le> 600"
  by (auto simp: required_seconds_def bounded_seconds_def split: option.splits)

lemma roundtripD:
  assumes "iso_roundtrip L" and "\<exists>s. fromisoformat L s = Some t"
  shows "parse_datetime L (JStr (utc_isoformat L t)) = Some t" and "text_of (JStr (utc_isoformat L t)) = utc_isoformat L t"
    and "utc_isoformat L t \<noteq> []"
  using assms by (auto simp: iso_roundtrip_def text_of_def parse_datetime_def as_str_def split: if_splits)

lemma parse_datetime_from: "parse_datetime L v = Some t \<Longrightarrow> \<exists>s. fromisoformat L s = Some t"
  by (auto simp: parse_datetime_def split: option.splits if_splits)

lemma tracks_reads:
  assumes rt: "iso_roundtrip L" and tr: "tracks L ts v"
  shows "parse_datetime L (dget v ''healthy_since'') = (if ts = [] then None else Some (hd ts))"
    and "parse_datetime L (dget v ''last_healthy_observed_at'') = (if ts = [] then None else Some (last ts))"
proof -
  have read: "parse_datetime L (JStr (utc_isoformat L t)) = Some t" if "t \<in> set ts" for t
    using that tr roundtripD(1) [OF rt] by (auto simp: tracks_def)
  have null: "parse_datetime L JNull = None" by (simp add: parse_datetime_def as_str_def)
  show "parse_datetime L (dget v ''healthy_since'') = (if ts = [] then None else Some (hd ts))"
    and "parse_datetime L (dget v ''last_healthy_observed_at'') = (if ts = [] then None else Some (last ts))"
    using tr by (simp_all add: tracks_def read null)
qed

definition stored_count :: "jdict \<Rightarrow> int \<Rightarrow> bool" where
  "stored_count v n \<longleftrightarrow> nonnegative_int (dget v ''distinct_evidence_count'') = Inr (Some n)
     \<or> n = 0 \<and> nonnegative_int (dget v ''distinct_evidence_count'') = Inr None"

lemma ignored_keeps_streak:
  assumes "iso_roundtrip L" and "tracks L ts v"
    and "stored_count v n"
  shows "tracks L ts (record_decision L msg (ignored_decision L v code reason n a) v)"
proof -
  have "n = int (length ts)" using assms(2,3) by (auto simp: tracks_def stored_count_def)
  moreover have "text_of (JStr (utc_isoformat L (hd ts))) = utc_isoformat L (hd ts)" and "utc_isoformat L (hd ts) \<noteq> []"
    if "ts \<noteq> []"
    using that assms(2) roundtripD(2,3) [OF assms(1)] by (auto simp: tracks_def)
  ultimately show ?thesis
    using assms(2) tracks_reads [OF assms(1,2)]
    by (simp add: tracks_def record_decision_gets ignored_decision_def json_of_option_def text_or_none_def text_of_def)
qed

lemma reset_ends_streak: "tracks L [] (record_decision L msg (reset_decision status code reason a key) v)"
  by (simp add: tracks_def record_decision_gets reset_decision_def json_of_option_def)

definition extend_streak :: "int \<Rightarrow> datetime list \<Rightarrow> datetime \<Rightarrow> datetime list" where
  "extend_streak c ts t = (if ts \<noteq> [] \<and> continues_streak c (Some (last ts)) t then ts @ [t] else [t])"

lemma extend_streak_ne [simp]: "extend_streak c ts t \<noteq> []" "last (extend_streak c ts t) = t"
  by (simp_all add: extend_streak_def)

definition streak_decision :: "verifylib \<Rightarrow> jdict \<Rightarrow> int \<Rightarrow> int \<Rightarrow> datetime \<Rightarrow> datetime list \<Rightarrow> after_state \<Rightarrow>
    string option \<Rightarrow> verification_decision" where
  \<comment> \<open>the decision on a healthy window, in terms of the streak that it ends\<close>
  "streak_decision L v m c now E a key =
     (let us = max 0 (last E - hd E); unstable = (us < m * 1000000 \<or> int (length E) < minimum_distinct m c);
          late = past_deadline L v now
      in \<lparr>vd_status = (if \<not> unstable then ''completed'' else if late then ''failed'' else ''pending''),
          vd_reason_code = (if \<not> unstable then ''recovery_verified''
             else if late then ''verification_window_expired'' else ''stabilization_window_in_progress''),
          vd_reason = (if \<not> unstable then Reason_Verified m
             else if late then Reason_Expired_Unstable else Reason_Stabilizing (us div 1000000) m),
          vd_after = a\<lparr>as_stable := Some (hd E, of_int us / 1000000, int (length E))\<rparr>,
          vd_healthy_since = Some (utc_isoformat L (hd E)), vd_last_healthy = Some (utc_isoformat L (last E)),
          vd_count = int (length E), vd_last_key = key\<rparr>)"

lemma healthy_is_streak:
  assumes iso: "iso_roundtrip L" and tr: "tracks L ts v" and n: "stored_count v n"
  shows "healthy_decision L v m c now t n a key = streak_decision L v m c now (extend_streak c ts t) a key"
proof -
  let ?cont = "continues_streak c (if ts = [] then None else Some (last ts)) t"
  have n': "n = int (length ts)" using tr n by (auto simp: tracks_def stored_count_def)
  have since: "(case (if ?cont then if ts = [] then None else Some (hd ts) else None) of None \<Rightarrow> t | Some s \<Rightarrow> s)
      = hd (extend_streak c ts t)"
    and count: "(if ?cont then n else 0) + 1 = int (length (extend_streak c ts t))"
    by (auto simp: extend_streak_def continues_streak_def n')
  show ?thesis
    unfolding healthy_decision_def streak_decision_def Let_def tracks_reads [OF iso tr] since count extend_streak_ne
    by simp
qed

lemma streak_decision_tracks:
  "E \<noteq> [] \<Longrightarrow> (\<And>t. t \<in> set E \<Longrightarrow> \<exists>s. fromisoformat L s = Some t)
     \<Longrightarrow> tracks L E (record_decision L msg (streak_decision L v m c now E a key) v)"
  by (simp add: tracks_def record_decision_gets streak_decision_def Let_def json_of_option_def)

lemma streak_decision_completed:
  assumes "vd_status (streak_decision L v m c now E a key) = ''completed''" and "0 < m"
  shows "int (length E) \<ge> minimum_distinct m c \<and> last E - hd E \<ge> m * 1000000"
proof -
  from assms(1) have "\<not> (max 0 (last E - hd E) < m * 1000000 \<or> int (length E) < minimum_distinct m c)"
    by (simp add: streak_decision_def Let_def split: if_splits)
  with \<open>0 < m\<close> show ?thesis by (simp add: max_def split: if_splits)
qed

lemma streak_decision_counts:
  "\<not> window_ignored (streak_decision L v m c now E a key)"
  "as_evidence_observed_at (vd_after (streak_decision L v m c now E a key)) = as_evidence_observed_at a"
  "all_checks_hold (streak_decision L v m c now E a key) \<longleftrightarrow> list_all (\<lambda>c. snd c = Some True) (as_checks a)"
  by (simp_all add: streak_decision_def window_ignored_def all_checks_hold_def Let_def)

subsection \<open>The kinds of decision\<close>

lemma checks_split:
  assumes "map fst (filter (\<lambda>c. snd c = Some False) cs) = []" and "map fst (filter (\<lambda>c. snd c = None) cs) = []"
  shows "list_all (\<lambda>c. snd c = Some True) cs"
proof -
  have "snd c = Some True" if "c \<in> set cs" for c
    using assms that by (cases "snd c") (auto simp: filter_empty_conv)
  then show ?thesis by (simp add: list_all_iff)
qed

lemma unhealthy_is_reset:
  "\<exists>status code r. unhealthy_decision L v now failed missing a key = reset_decision status code r a key
     \<and> status \<noteq> ''completed'' \<and> code \<notin> {''duplicate_evidence_window'', ''stale_evidence_window''}"
  by (auto simp: unhealthy_decision_def Let_def)

lemma judge_cases:
  assumes "judge_window L v m now ek started n a = Inr d"
  obtains (ignored) code r where "d = ignored_decision L v code r n a"
      "code \<in> {''duplicate_evidence_window'', ''stale_evidence_window''}"
  | (reset) status code r key where "d = reset_decision status code r a key" "status \<noteq> ''completed''"
      "code \<notin> {''duplicate_evidence_window'', ''stale_evidence_window''}"
  | (healthy) c t key where "d = healthy_decision L v m c now t n a key" "evidence_cadence v = Inr (Some c)" "0 < c"
      "as_evidence_observed_at a = Some t" "list_all (\<lambda>c. snd c = Some True) (as_checks a)"
proof -
  note ways = ignored reset healthy
  let ?f = "map fst (filter (\<lambda>c. snd c = Some False) (as_checks a))"
  let ?m = "map fst (filter (\<lambda>c. snd c = None) (as_checks a))"
  let ?key = "text_or_none (if ek \<noteq> [] then ek else text_of (dget v ''last_evidence_key''))"
  have reset': "thesis" if "d = reset_decision ''pending'' ''verification_evidence_missing'' Reason_No_Cadence a ?key"
    using that ways(2) by fastforce
  show thesis
  proof (cases "ek \<noteq> [] \<and> ek = text_of (dget v ''last_evidence_key'')")
    case True
    then show thesis using assms by (intro ways(1)) (auto simp: judge_window_def Let_def)
  next
    case fresh: False
    show thesis
    proof (cases "\<exists>t s. as_evidence_observed_at a = Some t \<and> started = Some s \<and> \<not> (t < s \<or> t > now)")
      case False
      then show thesis using assms fresh
        by (intro ways(1)) (auto simp: judge_window_def Let_def split: option.splits if_splits)
    next
      case True
      then obtain t s where t: "as_evidence_observed_at a = Some t" and s: "started = Some s" "\<not> (t < s \<or> t > now)" by blast
      show thesis
      proof (cases "?f \<noteq> [] \<or> ?m \<noteq> []")
        case True
        with assms fresh t s have "d = unhealthy_decision L v now ?f ?m a ?key"
          unfolding judge_window_def Let_def by (simp only: option.case prod.case if_True if_False sum.inject simp_thms)
        with unhealthy_is_reset [of L v now ?f ?m a ?key] show thesis by (metis ways(2))
      next
        case False
        with assms fresh t s obtain cadence where cad: "evidence_cadence v = Inr cadence"
          and d: "(case cadence of None \<Rightarrow> Inr (reset_decision ''pending'' ''verification_evidence_missing'' Reason_No_Cadence a ?key)
             | Some c \<Rightarrow> if c \<le> 0 then Inr (reset_decision ''pending'' ''verification_evidence_missing'' Reason_No_Cadence a ?key)
                 else if cadence_too_large c then Inl Verify_Overflow else Inr (healthy_decision L v m c now t n a ?key)) = Inr d"
          unfolding judge_window_def Let_def evidence_cadence_def
          by (auto simp only: option.case prod.case if_True if_False simp_thms bindE_eq_Inr)
        from False have hold: "list_all (\<lambda>c. snd c = Some True) (as_checks a)" by (intro checks_split) blast+
        show thesis
          using d cad t hold by (cases cadence) (auto intro: reset' ways(3) split: if_splits)
      qed
    qed
  qed
qed

lemma evaluate_judges:
  assumes "evaluate_recovery_evidence L plan lifecycle evidence alerts now = Inr d"
    and "mapping (dget lifecycle ''verification'') = v"
  obtains m n a where "judge_window L v m now (text_of (dget evidence ''evidence_key''))
      (parse_datetime L (dget v ''started_at'')) n a = Inr d"
    "required_seconds v = Inr m" "stored_count v n"
    "as_evidence_observed_at a = parse_datetime L (dget evidence ''window_start'')"
proof -
  from assms obtain m view checks sc where m: "required_seconds v = Inr m"
    and sc: "nonnegative_int (dget v ''distinct_evidence_count'') = Inr sc"
    and j: "judge_window L v m now (text_of (dget evidence ''evidence_key'')) (parse_datetime L (dget v ''started_at''))
        (case sc of None \<Rightarrow> 0 | Some n \<Rightarrow> n)
        (after_view.extend view \<lparr>as_checks = checks, as_observed_at = now,
           as_evidence_observed_at = parse_datetime L (dget evidence ''window_start''),
           as_evidence_ref = text_or_none (text_of (dget evidence ''evidence_key'')), as_stable = None\<rparr>) = Inr d"
    unfolding evaluate_recovery_evidence_def Let_def required_seconds_def by auto
  show thesis
  proof (rule that [OF j m])
    show "stored_count v (case sc of None \<Rightarrow> 0 | Some n \<Rightarrow> n)" using sc by (cases sc) (simp_all add: stored_count_def)
  qed (simp add: after_view.defs)
qed

subsection \<open>The run\<close>

definition streak_open :: "jdict \<Rightarrow> verification_decision list \<Rightarrow> datetime list \<Rightarrow> bool" where
  \<comment> \<open>the history ends with an unbroken streak of the given times\<close>
  "streak_open v h ts \<longleftrightarrow> (\<forall>c. evidence_cadence v = Inr (Some c) \<longrightarrow> dense c ts)
     \<and> (\<exists>pre suf. h = pre @ suf \<and> unbroken suf \<and> window_times suf = ts)"

lemma window_times_snoc:
  "window_times (ds @ [d]) = window_times ds @
     (if window_ignored d then [] else case as_evidence_observed_at (vd_after d) of None \<Rightarrow> [] | Some t \<Rightarrow> [t])"
  by (simp add: window_times_def map_filter_def split: option.split)

lemma unbroken_snoc: "unbroken (ds @ [d]) \<longleftrightarrow> unbroken ds \<and> (window_ignored d \<or> all_checks_hold d)"
  by (simp add: unbroken_def)

lemma streak_open_ignored:
  assumes "streak_open v h ts" and "window_ignored d"
  shows "streak_open v (h @ [d]) ts"
proof -
  from assms(1) obtain pre suf where "h = pre @ suf" "unbroken suf" "window_times suf = ts" by (auto simp: streak_open_def)
  with assms show ?thesis unfolding streak_open_def
    by (intro conjI exI [of _ pre] exI [of _ "suf @ [d]"]) (auto simp: window_times_snoc unbroken_snoc)
qed

lemma streak_open_reset: "streak_open v h []"
  unfolding streak_open_def
  by (intro conjI exI [of _ h] exI [of _ "[]"]) (simp_all add: unbroken_def window_times_def map_filter_def)

lemma streak_open_healthy:
  assumes op: "streak_open v h ts" and c: "evidence_cadence v = Inr (Some c)"
    and d: "\<not> window_ignored d" "all_checks_hold d" "as_evidence_observed_at (vd_after d) = Some t"
  shows "streak_open v (h @ [d]) (extend_streak c ts t)"
proof (cases "ts \<noteq> [] \<and> continues_streak c (Some (last ts)) t")
  case True
  from op obtain pre suf where "h = pre @ suf" "unbroken suf" "window_times suf = ts" by (auto simp: streak_open_def)
  with True op c d show ?thesis unfolding streak_open_def
    by (intro conjI exI [of _ pre] exI [of _ "suf @ [d]"])
       (auto simp: window_times_snoc unbroken_snoc extend_streak_def dense_snoc)
next
  case False
  with c d show ?thesis unfolding streak_open_def
    by (intro conjI exI [of _ h] exI [of _ "[d]"])
       (auto simp: extend_streak_def unbroken_def window_times_def map_filter_def)
qed

lemma evidence_step:
  assumes iso: "iso_roundtrip L"
    and eval: "evaluate_recovery_evidence L plan lifecycle evidence alerts now = Inr d"
    and v: "mapping (dget lifecycle ''verification'') = v"
    and tr: "tracks L ts v" and op: "streak_open v h ts"
  obtains ts' where "tracks L ts' (record_decision L msg d v)" "streak_open v (h @ [d]) ts'"
    "vd_status d = ''completed'' \<Longrightarrow> \<exists>m c. required_seconds v = Inr m \<and> evidence_cadence v = Inr (Some c) \<and> 0 < c
       \<and> int (length ts') \<ge> minimum_distinct m c \<and> last ts' - hd ts' \<ge> m * 1000000"
proof -
  from eval v obtain m n a where j: "judge_window L v m now (text_of (dget evidence ''evidence_key''))
      (parse_datetime L (dget v ''started_at'')) n a = Inr d"
    and m: "required_seconds v = Inr m" and n: "stored_count v n"
    and a: "as_evidence_observed_at a = parse_datetime L (dget evidence ''window_start'')" by (rule evaluate_judges)
  from j show thesis
  proof (cases rule: judge_cases)
    case (ignored code r)
    then have "window_ignored d" and "vd_status d \<noteq> ''completed''"
      by (auto simp: ignored_decision_def window_ignored_def)
    with ignored(1) show thesis
      using that [of ts] ignored_keeps_streak [OF iso tr n] streak_open_ignored [OF op] by blast
  next
    case (reset status code r key)
    then show thesis using that [of "[]"] reset_ends_streak streak_open_reset by (auto simp: reset_decision_def)
  next
    case (healthy c t key)
    let ?E = "extend_streak c ts t"
    have d: "d = streak_decision L v m c now ?E a key" using healthy(1) healthy_is_streak [OF iso tr n] by simp
    have "parse_datetime L (dget evidence ''window_start'') = Some t" using a healthy(4) by simp
    then have "\<exists>s. fromisoformat L s = Some t" by (rule parse_datetime_from)
    then have from_iso: "\<exists>s. fromisoformat L s = Some t'" if "t' \<in> set ?E" for t'
      using that tr by (auto simp: extend_streak_def tracks_def split: if_splits)
    show thesis
    proof (rule that [of ?E])
      show "tracks L ?E (record_decision L msg d v)" unfolding d by (rule streak_decision_tracks) (simp_all add: from_iso)
      show "streak_open v (h @ [d]) ?E"
        by (rule streak_open_healthy [OF op healthy(2)]) (simp_all add: d streak_decision_counts healthy(4,5))
      show "\<exists>m c. required_seconds v = Inr m \<and> evidence_cadence v = Inr (Some c) \<and> 0 < c
          \<and> int (length ?E) \<ge> minimum_distinct m c \<and> last ?E - hd ?E \<ge> m * 1000000" if "vd_status d = ''completed''"
        using streak_decision_completed [of L v m c now ?E a key] that m healthy(2,3) required_seconds_bounds [OF m]
        unfolding d by auto
    qed
  qed
qed

lemma streak_open_record: "streak_open (record_decision L msg d v) h ts \<longleftrightarrow> streak_open v h ts"
  by (simp add: streak_open_def record_decision_keeps)

lemma event_row:
  assumes "on_recovery_verification_evidence L msg w row = Inr (row', res)" and "pr_status row = ''verification_pending''"
  obtains "row' = row" "res = None"
  | d where "res = Some d" "evaluate_recovery_evidence L (pr_payload row) (row_lifecycle row) (wd_evidence w) (wd_alerts w) (wd_now w) = Inr d"
      "pr_status row' = target_status d"
      "target_status d = ''verification_pending'' \<Longrightarrow> row_verification row' = record_decision L msg d (row_verification row)"
proof (cases "wd_key w = []")
  case True
  with assms that(1) show thesis by (simp add: on_recovery_verification_evidence_def)
next
  case False
  with assms obtain d where d: "evaluate_recovery_evidence L (pr_payload row) (row_lifecycle row) (wd_evidence w) (wd_alerts w) (wd_now w) = Inr d"
    and res: "res = Some d" and r: "row' = \<lparr>pr_status = target_status d,
      pr_payload = dset (pr_payload row) ''lifecycle'' (JDict (apply_verification_terminal_state msg d (wd_key w)
        (dset (dset (row_lifecycle row) ''verification'' (JDict (record_decision L msg d (row_verification row))))
           ''phase'' (JStr (target_status d)))))\<rparr>"
    by (auto simp: on_recovery_verification_evidence_def update_lifecycle_if_status_def Let_def)
  show thesis
  proof (rule that(2) [OF res d])
    show "pr_status row' = target_status d" by (simp add: r)
    assume "target_status d = ''verification_pending''"
    then have "vd_status d \<noteq> ''failed''" "vd_status d \<noteq> ''completed''" by (auto simp: target_status_def)
    then show "row_verification row' = record_decision L msg d (row_verification row)"
      by (simp add: r row_verification_def row_lifecycle_def apply_verification_terminal_state_def mapping_or_empty_def)
  qed
qed

lemma finished_row_stays:
  "pr_status row \<noteq> ''verification_pending'' \<Longrightarrow> verification_run L msg ws row = Inr (row', ds) \<Longrightarrow> row' = row \<and> ds = []"
  by (induction ws arbitrary: row' ds) (auto simp: on_recovery_verification_evidence_def)

definition completes :: "jdict \<Rightarrow> verification_decision list \<Rightarrow> bool" where
  "completes v h \<longleftrightarrow> (\<exists>pre suf m c. h = pre @ suf \<and> required_seconds v = Inr m \<and> evidence_cadence v = Inr (Some c) \<and> 0 < c
     \<and> stable_streak m c suf)"

lemma open_completes:
  assumes "streak_open v h ts" and "required_seconds v = Inr m" "evidence_cadence v = Inr (Some c)" "0 < c"
    "int (length ts) \<ge> minimum_distinct m c" "last ts - hd ts \<ge> m * 1000000"
  shows "completes v h"
  using assms unfolding streak_open_def completes_def stable_streak_def Let_def by blast

lemma completes_record: "completes (record_decision L msg d v) h \<longleftrightarrow> completes v h"
  by (simp add: completes_def record_decision_keeps)

lemma run_completes:
  assumes iso: "iso_roundtrip L"
  shows "verification_run L msg ws row = Inr (row', ds) \<Longrightarrow> pr_status row = ''verification_pending'' \<Longrightarrow>
    pr_status row' = ''completed'' \<Longrightarrow> tracks L ts (row_verification row) \<Longrightarrow> streak_open (row_verification row) h ts \<Longrightarrow>
    completes (row_verification row) (h @ ds)"
proof (induction ws arbitrary: row ds h ts)
  case Nil
  then show ?case by simp
next
  case (Cons w ws)
  let ?v = "row_verification row"
  from Cons.prems(1) obtain row1 res ds1 where ev: "on_recovery_verification_evidence L msg w row = Inr (row1, res)"
    and run: "verification_run L msg ws row1 = Inr (row', ds1)"
    and ds: "ds = (case res of None \<Rightarrow> ds1 | Some x \<Rightarrow> x # ds1)" by auto
  from ev Cons.prems(2) show ?case
  proof (cases rule: event_row)
    case 1
    then show ?thesis using Cons.IH [of row ds1 ts h] run Cons.prems ds by simp
  next
    case (2 d)
    obtain ts' where tr: "tracks L ts' (record_decision L msg d ?v)" and op: "streak_open ?v (h @ [d]) ts'"
      and fin: "vd_status d = ''completed'' \<Longrightarrow> \<exists>m c. required_seconds ?v = Inr m \<and> evidence_cadence ?v = Inr (Some c) \<and> 0 < c
       \<and> int (length ts') \<ge> minimum_distinct m c \<and> last ts' - hd ts' \<ge> m * 1000000"
      using evidence_step [OF iso 2(2) row_verification_def [symmetric] Cons.prems(4,5)] by metis
    show ?thesis
    proof (cases "target_status d = ''verification_pending''")
      case True
      then have "completes (row_verification row1) ((h @ [d]) @ ds1)"
        using Cons.IH [OF run _ Cons.prems(3), of ts' "h @ [d]"] 2(3,4) tr op by (simp add: streak_open_record)
      with True 2 ds show ?thesis by (simp add: completes_record)
    next
      case False
      with 2(3) finished_row_stays [OF _ run] have "row' = row1" and "ds1 = []" by simp_all
      with 2(3) Cons.prems(3) have "vd_status d = ''completed''" by (auto simp: target_status_def split: if_splits)
      with fin op open_completes \<open>ds1 = []\<close> 2(1) ds show ?thesis by fastforce
    qed
  qed
qed

text \<open>
  C37. A recovery is declared completed only after proof of stability. Take any sequence of evidence
  windows, over a plan whose verification is fresh: if the plan ends completed, then the saved
  decisions end in a streak in which every window either was ignored (a redelivery or a stale window)
  or passed all fifteen checks; the times of the windows that count increase, with no gap above one
  and a half collection cadences; they span the required time, which is between 300 and 600 seconds;
  and there are at least as many as that time and the cadence require. The hypothesis on the clock
  texts is that an instant read by \<^verbatim>\<open>fromisoformat\<close> is read back from its own \<^verbatim>\<open>isoformat\<close>.\<close>
theorem completed_recovery_was_stable:
  assumes "iso_roundtrip L" and "fresh_verification (row_verification row)"
    and "pr_status row = ''verification_pending''" and "verification_run L msg ws row = Inr (row', ds)"
    and "pr_status row' = ''completed''"
  shows "\<exists>pre suf m c. ds = pre @ suf \<and> stable_streak m c suf \<and> 300 \<le> m \<and> m \<le> 600
    \<and> required_seconds (row_verification row) = Inr m \<and> evidence_cadence (row_verification row) = Inr (Some c) \<and> 0 < c"
proof -
  have "tracks L [] (row_verification row)" using assms(2) by (auto simp: tracks_def fresh_verification_def)
  from run_completes [OF assms(1,4,3,5) this streak_open_reset]
  have "completes (row_verification row) ([] @ ds)" .
  then show ?thesis unfolding completes_def using required_seconds_bounds by (metis append_Nil)
qed

subsection \<open>A recovery that completes\<close>

definition two_instants :: verifylib where
  \<comment> \<open>a clock that knows the instants 0 and 300 seconds\<close>
  "two_instants = \<lparr>fromisoformat = (\<lambda>s. if s = ''t0'' then Some 0 else if s = ''t1'' then Some 300000000 else None),
     utc_isoformat = (\<lambda>t. if t = 0 then ''t0'' else ''t1''), float_of = (\<lambda>_. None)\<rparr>"

definition demo_target :: jdict where
  "demo_target = [(''cluster_id'', JStr ''c''), (''namespace'', JStr ''n''), (''resource_kind'', JStr ''Deployment''),
     (''resource_name'', JStr ''app'')]"

definition demo_labels :: jdict where
  "demo_labels = [(''namespace'', JStr ''n''), (''resource_kind'', JStr ''Deployment''), (''resource_name'', JStr ''app''),
     (''service'', JStr ''s''), (''sli'', JStr ''i''), (''symptom'', JStr ''y'')]"

definition demo_samples :: "rat \<Rightarrow> json" where
  "demo_samples q = JDict [(''samples'', JList [JDict [(''metric'', JDict demo_labels), (''value'', JFloat (Fin q) [])]])]"

definition demo_window :: "string \<Rightarrow> string \<Rightarrow> rat \<Rightarrow> window" where
  "demo_window key start ratio = \<lparr>wd_key = key, wd_evidence =
     [(''evidence_key'', JStr key), (''window_start'', JStr start),
      (''metrics'', JDict [(''results'', JDict [(''kyro_sli_failure_ratio'', demo_samples ratio),
         (''kyro_sli_request_rate'', demo_samples 10)])]),
      (''metadata'', JDict [(''current_workload_snapshots'', JList [JDict
         [(''workload'', JDict [(''kind'', JStr ''Deployment''), (''namespace'', JStr ''n''), (''name'', JStr ''app''), (''generation'', JInt 1)]),
          (''deployment_status'', JDict [(''observed_generation'', JInt 1), (''desired_replicas'', JInt 2), (''ready_replicas'', JInt 2),
             (''updated_replicas'', JInt 2), (''available_replicas'', JInt 2), (''unavailable_replicas'', JInt 0)])]])])],
     wd_alerts = [[(''event_id'', JStr ''a1''), (''status'', JStr ''resolved''), (''resolved_at'', JStr ''t0''),
       (''subject'', JDict [(''cluster'', JStr ''c''), (''namespace'', JStr ''n''), (''kind'', JStr ''Deployment''), (''name'', JStr ''app'')])]],
     wd_now = 300000000\<rparr>"

definition demo_plan :: plan_row where
  "demo_plan = \<lparr>pr_status = ''verification_pending'', pr_payload = [(''lifecycle'', JDict [(''verification'', JDict
     [(''started_at'', JStr ''t0''), (''target'', JDict demo_target), (''before'', JDict [(''alert_event_id'', JStr ''a1'')]),
      (''expected'', JDict [(''failure_ratio_max'', JFloat (Fin (1 / 10)) []), (''request_rate_baseline'', JFloat (Fin 10) []),
         (''request_rate_tolerance_ratio'', JFloat (Fin (1 / 2)) []), (''replicas'', JInt 2),
         (''evidence_cadence_seconds'', JInt 300)])])])]\<rparr>"

definition demo_step :: "window \<Rightarrow> plan_row \<Rightarrow> plan_row" where
  "demo_step w row = (case on_recovery_verification_evidence two_instants (\<lambda>_. []) w row of Inl _ \<Rightarrow> row | Inr (row', _) \<Rightarrow> row')"

definition demo_decision :: "window \<Rightarrow> plan_row \<Rightarrow> verification_decision option" where
  "demo_decision w row = (case on_recovery_verification_evidence two_instants (\<lambda>_. []) w row of Inl _ \<Rightarrow> None | Inr (_, d) \<Rightarrow> d)"

definition demo_row1 :: plan_row where
  "demo_row1 = demo_step (demo_window ''k0'' ''t0'' 0) demo_plan"

definition demo_row2 :: plan_row where
  "demo_row2 = demo_step (demo_window ''k1'' ''t1'' 0) demo_row1"

lemma demo_first:
  "on_recovery_verification_evidence two_instants (\<lambda>_. []) (demo_window ''k0'' ''t0'' 0) demo_plan =
     Inr (demo_row1, demo_decision (demo_window ''k0'' ''t0'' 0) demo_plan)"
  by code_simp

lemma demo_second:
  "on_recovery_verification_evidence two_instants (\<lambda>_. []) (demo_window ''k1'' ''t1'' 0) demo_row1 =
     Inr (demo_row2, demo_decision (demo_window ''k1'' ''t1'' 0) demo_row1)"
  by code_simp

lemma demo_completed: "pr_status demo_row2 = ''completed''"
  by code_simp

lemma demo_fresh: "fresh_verification (row_verification demo_plan)"
  by code_simp

lemma demo_run:
  "\<exists>ds. verification_run two_instants (\<lambda>_. []) [demo_window ''k0'' ''t0'' 0, demo_window ''k1'' ''t1'' 0] demo_plan = Inr (demo_row2, ds)"
  by (simp add: demo_first demo_second)

lemma two_instants_iso: "iso_roundtrip two_instants"
proof -
  have texts: "utc_isoformat two_instants 0 = ''t0''" "utc_isoformat two_instants 300000000 = ''t1''"
    by (simp_all add: two_instants_def)
  have reads: "parse_datetime two_instants (JStr ''t0'') = Some 0" "parse_datetime two_instants (JStr ''t1'') = Some 300000000"
    and strips: "py_strip ''t0'' = ''t0''" "py_strip ''t1'' = ''t1''" by code_simp+
  have "t = 0 \<or> t = 300000000" if "fromisoformat two_instants s = Some t" for s t
    using that by (simp add: two_instants_def split: if_splits)
  then show ?thesis unfolding iso_roundtrip_def using texts reads strips by metis
qed

theorem completed_recovery_was_stable_witness:
  "\<exists>ds. verification_run two_instants (\<lambda>_. []) [demo_window ''k0'' ''t0'' 0, demo_window ''k1'' ''t1'' 0] demo_plan = Inr (demo_row2, ds)
     \<and> pr_status demo_row2 = ''completed''
     \<and> (\<exists>pre suf m c. ds = pre @ suf \<and> stable_streak m c suf \<and> 300 \<le> m \<and> m \<le> 600
        \<and> required_seconds (row_verification demo_plan) = Inr m
        \<and> evidence_cadence (row_verification demo_plan) = Inr (Some c) \<and> 0 < c)"
proof -
  from demo_run obtain ds where run: "verification_run two_instants (\<lambda>_. [])
    [demo_window ''k0'' ''t0'' 0, demo_window ''k1'' ''t1'' 0] demo_plan = Inr (demo_row2, ds)" by blast
  have "pr_status demo_plan = ''verification_pending''" by (simp add: demo_plan_def)
  from completed_recovery_was_stable [OF two_instants_iso demo_fresh this run demo_completed] run demo_completed
  show ?thesis by blast
qed

end
