(* ===== verification/Kustomize_Graph.thy ===== *)
theory Kustomize_Graph
  imports Manifest_Validation "HOL-Library.While_Combinator"
begin

section \<open>The files of a local Kustomize graph\<close>

text \<open>
  The part of \<^verbatim>\<open>src/src/domains/gitops/repository_discovery.py\<close> that collects the files a Kustomize
  source needs: from one directory it follows the local references of every \<^verbatim>\<open>kustomization.yaml\<close>,
  inside the tree of one commit and within limits on files and bytes. The repository client is not
  part of the sources that are modelled: the content of a path is an argument, \<open>None\<close> where the client
  raises. Bytes are their number and the text they decode to, if they are valid UTF-8. The work list
  is the loop of the source, as a \<open>while_option\<close> over its state, so that termination is a theorem.
\<close>

record blob =
  bl_bytes :: int
  bl_text :: "string option"

datatype render_error =
  File_Limit int | Byte_Limit int | Missing_Reference string | Fetch_Failed string
| Missing_Kustomization string | Multiple_Kustomizations string
| Not_Utf8 string | Parse_Failed string | Not_An_Object string
| Must_Be_List string | Must_Be_Paths string | Must_Be_Objects string
| Remote_Reference string string | Invalid_Reference string string | Escaping_Reference string string
| Remote_Chart_Repository | Remote_Chart_Name

subsection \<open>Paths\<close>

definition SLASH :: char where
  "SLASH = CHR ''/''"

definition strip_slashes :: "string \<Rightarrow> string" where
  \<comment> \<open>\<^verbatim>\<open>s.strip("/")\<close>\<close>
  "strip_slashes s = rev (dropWhile (\<lambda>c. c = SLASH) (rev (dropWhile (\<lambda>c. c = SLASH) s)))"

definition normalize_tree_path :: "string \<Rightarrow> string" where
  "normalize_tree_path path =
     (let p = strip_slashes (py_strip path); parts = filter (\<lambda>w. w \<noteq> []) (py_split SLASH p)
      in if p = [] \<or> CHR 0x5C \<in> set p then []
         else if ''.'' \<in> set parts \<or> ''..'' \<in> set parts then []
         else py_join ''/'' parts)"

definition base_name :: "string \<Rightarrow> string" where
  \<comment> \<open>\<^verbatim>\<open>path.rsplit("/", 1)[-1]\<close>\<close>
  "base_name path = rev (takeWhile (\<lambda>c. c \<noteq> SLASH) (rev path))"

definition parent_path :: "string \<Rightarrow> string" where
  "parent_path path =
     (if SLASH \<notin> set path then ''.'' else rev (tl (dropWhile (\<lambda>c. c \<noteq> SLASH) (rev path))))"

definition path_is_under_directory :: "string \<Rightarrow> string \<Rightarrow> bool" where
  "path_is_under_directory path directory \<longleftrightarrow>
     directory = ''.'' \<or> path = directory \<or> prefix (directory @ ''/'') path"

fun normpath_components :: "bool \<Rightarrow> string list \<Rightarrow> string list \<Rightarrow> string list" where
  \<comment> \<open>the loop of \<^verbatim>\<open>posixpath.normpath\<close>, for an absolute or a relative path\<close>
  "normpath_components absolute [] acc = acc"
| "normpath_components absolute (part # parts) acc =
     (if part = [] \<or> part = ''.'' then normpath_components absolute parts acc
      else if part \<noteq> ''..'' \<or> (\<not> absolute \<and> acc = []) \<or> (acc \<noteq> [] \<and> last acc = ''..'')
      then normpath_components absolute parts (acc @ [part])
      else normpath_components absolute parts (butlast acc))"

definition normpath :: "string \<Rightarrow> string" where
  "normpath path =
     (let slashes = (if prefix ''//'' path \<and> \<not> prefix ''///'' path then ''//'' else if prefix ''/'' path then ''/'' else []);
          result = slashes @ py_join ''/'' (normpath_components (slashes \<noteq> []) (py_split SLASH path) [])
      in if result = [] then ''.'' else result)"

definition posix_join :: "string \<Rightarrow> string \<Rightarrow> string" where
  \<comment> \<open>\<^verbatim>\<open>posixpath.join(base, path)\<close> for a path that is not absolute\<close>
  "posix_join base path = (if base = [] \<or> last base = SLASH then base @ path else base @ ''/'' @ path)"

definition has_scheme :: "string \<Rightarrow> bool" where
  \<comment> \<open>\<^verbatim>\<open>re.match(r"^[a-z][a-z0-9+.-]*:", s)\<close>\<close>
  "has_scheme s =
     (case s of
        [] \<Rightarrow> False
      | c # cs \<Rightarrow> chr_in CHR ''a'' CHR ''z'' c
          \<and> prefix '':'' (dropWhile (\<lambda>d. chr_in CHR ''a'' CHR ''z'' d \<or> is_digit d \<or> d \<in> set ''+.-'') cs))"

definition is_remote_kustomize_reference :: "string \<Rightarrow> bool" where
  "is_remote_kustomize_reference reference \<longleftrightarrow>
     (let lowered = py_casefold reference
      in has_scheme lowered
         \<or> list_ex (\<lambda>p. prefix p lowered) [''git@'', ''//'', ''github.com/'', ''gitlab.com/'', ''bitbucket.org/'', ''dev.azure.com/'']
         \<or> sublist ''.git//'' lowered \<or> sublist ''?ref='' lowered)"

definition normalize_kustomize_local_reference :: "string \<Rightarrow> string \<Rightarrow> string \<Rightarrow> render_error + string" where
  "normalize_kustomize_local_reference raw_reference field current_directory =
     (let reference = py_strip raw_reference;
          base = (if current_directory = ''.'' then [] else current_directory);
          normalized = normpath (posix_join base reference); safe = normalize_tree_path normalized
      in if is_remote_kustomize_reference reference then Inl (Remote_Reference field reference)
         else if reference = [] \<or> CHR 0x5C \<in> set reference \<or> prefix ''/'' reference
         then Inl (Invalid_Reference field (if reference = [] then ''<empty>'' else reference))
         else if normalized \<in> {[], ''.'', ''..''} \<or> prefix ''../'' normalized
         then Inl (Escaping_Reference field reference)
         else if safe = [] then Inl (Invalid_Reference field reference) else Inr safe)"

subsection \<open>References of a kustomization\<close>

definition sequence_value :: "json \<Rightarrow> string \<Rightarrow> render_error + json list" where
  "sequence_value v field = (case v of JNull \<Rightarrow> Inr [] | JList xs \<Rightarrow> Inr xs | _ \<Rightarrow> Inl (Must_Be_List field))"

definition string_sequence :: "json \<Rightarrow> string \<Rightarrow> render_error + string list" where
  "string_sequence v field =
     bindE (sequence_value v field) (\<lambda>vs.
       if list_ex (\<lambda>x. case as_str x of None \<Rightarrow> True | Some s \<Rightarrow> py_strip s = []) vs then Inl (Must_Be_Paths field)
       else Inr (List.map_filter as_str vs))"

definition mapping_sequence :: "json \<Rightarrow> string \<Rightarrow> render_error + jdict list" where
  "mapping_sequence v field =
     bindE (sequence_value v field) (\<lambda>vs.
       if list_ex (\<lambda>x. as_dict x = None) vs then Inl (Must_Be_Objects field) else Inr (List.map_filter as_dict vs))"

type_synonym reference = "string \<times> string \<times> bool"

definition field_references :: "jdict \<Rightarrow> bool \<Rightarrow> string \<Rightarrow> render_error + reference list" where
  "field_references document may_be_directory field =
     bindE (string_sequence (dget document field) field) (\<lambda>vs. Inr (map (\<lambda>v. (field, v, may_be_directory)) vs))"

definition patch_path_references :: "jdict \<Rightarrow> string \<Rightarrow> render_error + reference list" where
  "patch_path_references document field =
     bindE (sequence_value (dget document field) field) (\<lambda>patches.
       Inr (List.map_filter (\<lambda>patch. case as_dict patch of None \<Rightarrow> None
         | Some p \<Rightarrow> map_option (\<lambda>path. (field @ ''.path'', path, False)) (as_str (dget p ''path''))) patches))"

definition kustomize_patch_references :: "jdict \<Rightarrow> render_error + reference list" where
  "kustomize_patch_references document =
     bindE (patch_path_references document ''patches'') (\<lambda>a.
     bindE (patch_path_references document ''patchesJson6902'') (\<lambda>b.
     bindE (string_sequence (dget document ''patchesStrategicMerge'') ''patchesStrategicMerge'') (\<lambda>ps.
     Inr (a @ b @ map (\<lambda>p. (''patchesStrategicMerge'', p, False)) (filter (\<lambda>p. CHR 0x0A \<notin> set p) ps)))))"

definition generator_file_path :: "string \<Rightarrow> string" where
  "generator_file_path reference =
     (if CHR ''='' \<in> set reference then tl (dropWhile (\<lambda>c. c \<noteq> CHR ''='') reference) else reference)"

definition generator_references :: "string \<Rightarrow> jdict \<Rightarrow> render_error + reference list" where
  \<comment> \<open>the body of the loop over the generators\<close>
  "generator_references generator_field generator =
     bindE (mapE (\<lambda>file_field. bindE (string_sequence (dget generator file_field) (generator_field @ ''.'' @ file_field))
        (\<lambda>vs. Inr (map (\<lambda>v. (generator_field @ ''.'' @ file_field, generator_file_path v, False)) vs))) [''files'', ''envs'']) (\<lambda>fs.
     Inr (concat fs @ (case as_str (dget generator ''env'') of
            Some e \<Rightarrow> if py_strip e = [] then [] else [(generator_field @ ''.env'', e, False)] | None \<Rightarrow> [])))"

definition kustomize_generator_references :: "jdict \<Rightarrow> render_error + reference list" where
  "kustomize_generator_references document =
     bindE (mapE (\<lambda>field. bindE (mapping_sequence (dget document field) field) (\<lambda>gs.
        bindE (mapE (generator_references field) gs) (Inr \<circ> concat))) [''configMapGenerator'', ''secretGenerator'']) (Inr \<circ> concat)"

definition chart_references :: "jdict \<Rightarrow> render_error + reference list" where
  \<comment> \<open>the body of the loop over \<^verbatim>\<open>helmCharts\<close>\<close>
  "chart_references chart =
     (if (case as_str (dget chart ''repo'') of Some r \<Rightarrow> py_strip r \<noteq> [] | None \<Rightarrow> False) then Inl Remote_Chart_Repository
      else if (case as_str (dget chart ''name'') of
                 Some n \<Rightarrow> is_remote_kustomize_reference (py_strip n) \<or> SLASH \<in> set n \<or> CHR 0x5C \<in> set n
                   \<or> py_strip n \<in> {[], ''.'', ''..''}
               | None \<Rightarrow> False) then Inl Remote_Chart_Name
      else bindE (string_sequence (dget chart ''additionalValuesFiles'') ''helmCharts.additionalValuesFiles'') (\<lambda>vs.
           Inr ((case as_str (dget chart ''valuesFile'') of
                   Some f \<Rightarrow> if py_strip f = [] then [] else [(''helmCharts.valuesFile'', f, False)] | None \<Rightarrow> [])
                @ map (\<lambda>v. (''helmCharts.additionalValuesFiles'', v, False)) vs)))"

definition nested_text :: "jdict \<Rightarrow> string \<Rightarrow> string \<Rightarrow> string option" where
  "nested_text document key field =
     (case as_dict (dget document key) of None \<Rightarrow> None | Some d \<Rightarrow> as_str (dget d field))"

definition kustomize_local_references :: "jdict \<Rightarrow> render_error + reference list" where
  "kustomize_local_references document =
     bindE (mapE (field_references document True) [''resources'', ''bases'', ''components'']) (\<lambda>dirs.
     bindE (mapE (field_references document False) [''crds'', ''configurations'', ''generators'', ''transformers'']) (\<lambda>files.
     bindE (kustomize_patch_references document) (\<lambda>patches.
     bindE (kustomize_generator_references document) (\<lambda>generated.
     bindE (mapping_sequence (dget document ''helmCharts'') ''helmCharts'') (\<lambda>charts.
     bindE (mapE chart_references charts) (\<lambda>chart_refs.
     Inr (concat dirs @ concat files @ patches @ generated
        @ (case nested_text document ''openapi'' ''path'' of Some p \<Rightarrow> [(''openapi.path'', p, False)] | None \<Rightarrow> [])
        @ (case nested_text document ''helmGlobals'' ''chartHome'' of Some p \<Rightarrow> [(''helmGlobals.chartHome'', p, True)] | None \<Rightarrow> [])
        @ concat chart_refs)))))))"

definition parse_kustomization_document :: "text_lib \<Rightarrow> blob \<Rightarrow> string \<Rightarrow> render_error + jdict" where
  "parse_kustomization_document Y content path =
     (case bl_text content of
        None \<Rightarrow> Inl (Not_Utf8 path)
      | Some t \<Rightarrow> (case yaml_safe_load Y t of
                     None \<Rightarrow> Inl (Parse_Failed path)
                   | Some v \<Rightarrow> (case as_dict v of None \<Rightarrow> Inl (Not_An_Object path) | Some d \<Rightarrow> Inr d)))"

subsection \<open>The tree of the commit\<close>

definition KUSTOMIZATION_FILE_ORDER :: "string list" where
  "KUSTOMIZATION_FILE_ORDER = [''kustomization.yaml'', ''kustomization.yml'', ''Kustomization'']"

definition MAX_RENDER_SOURCE_FILES :: nat where
  "MAX_RENDER_SOURCE_FILES = 500"

definition MAX_RENDER_SOURCE_BYTES :: int where
  "MAX_RENDER_SOURCE_BYTES = 5 * 1048576"

definition tree_blobs :: "jdict list \<Rightarrow> string list" where
  \<comment> \<open>the set \<^verbatim>\<open>blob_paths\<close>\<close>
  "tree_blobs tree =
     remdups (filter (\<lambda>p. p \<noteq> []) (map (\<lambda>item. normalize_tree_path (py_str (py_or (dget item ''path'') (JStr []))))
       (filter (\<lambda>item. py_str (py_or (dget item ''type'') (JStr [])) = ''blob'') tree)))"

lemma parent_path_shorter:
  assumes "parent_path p \<noteq> ''.''"
  shows "length (parent_path p) < length p"
proof -
  let ?rest = "dropWhile (\<lambda>c. c \<noteq> SLASH) (rev p)"
  have slash: "SLASH \<in> set p" using assms unfolding parent_path_def by presburger
  then have "?rest \<noteq> []" by (auto simp: dropWhile_eq_Nil_conv)
  moreover have "length ?rest \<le> length p" using length_dropWhile_le [of _ "rev p"] by simp
  ultimately have "length (tl ?rest) < length p" by (cases ?rest) simp_all
  then show ?thesis using slash by (simp add: parent_path_def)
qed

function ancestors :: "string \<Rightarrow> string list" where
  \<comment> \<open>the inner loop of \<^verbatim>\<open>repository_directories\<close>\<close>
  "ancestors path = (let parent = parent_path path in if parent = ''.'' then [] else parent # ancestors parent)"
  by pat_completeness auto
termination
  by (relation "measure length") (auto simp: parent_path_shorter)

declare ancestors.simps [simp del]

definition repository_directories :: "string list \<Rightarrow> string list" where
  "repository_directories blobs = ''.'' # concat (map ancestors blobs)"

definition kustomization_at :: "string \<Rightarrow> string \<Rightarrow> string" where
  "kustomization_at directory name = (if directory = ''.'' then name else directory @ ''/'' @ name)"

definition find_kustomization_path :: "string list \<Rightarrow> string \<Rightarrow> render_error + string" where
  "find_kustomization_path blobs directory =
     (case filter (\<lambda>p. p \<in> set blobs) (map (kustomization_at directory) KUSTOMIZATION_FILE_ORDER) of
        [] \<Rightarrow> Inl (Missing_Kustomization directory)
      | [p] \<Rightarrow> Inr p
      | _ \<Rightarrow> Inl (Multiple_Kustomizations directory))"

subsection \<open>The work list\<close>

record collector =
  kc_pending :: "string list"
  kc_visited :: "string list"
  kc_contents :: "(string \<times> blob) list"
  kc_total :: int
  kc_external :: bool

definition fetch_file :: "(string \<Rightarrow> blob option) \<Rightarrow> string list \<Rightarrow> string \<Rightarrow> collector \<Rightarrow> render_error + (blob \<times> collector)" where
  "fetch_file content_of blobs path s =
     (case map_of (kc_contents s) path of
        Some c \<Rightarrow> Inr (c, s)
      | None \<Rightarrow>
          if path \<notin> set blobs then Inl (Missing_Reference path)
          else if length (kc_contents s) \<ge> MAX_RENDER_SOURCE_FILES then Inl (File_Limit (int (length (kc_contents s)) + 1))
          else (case content_of path of
                  None \<Rightarrow> Inl (Fetch_Failed path)
                | Some c \<Rightarrow>
                    (let total = kc_total s + bl_bytes c
                     in if total > MAX_RENDER_SOURCE_BYTES then Inl (Byte_Limit total)
                        else Inr (c, s\<lparr>kc_contents := kc_contents s @ [(path, c)], kc_total := total\<rparr>))))"

definition follow_reference :: "(string \<Rightarrow> blob option) \<Rightarrow> string list \<Rightarrow> string \<Rightarrow> string \<Rightarrow> reference \<Rightarrow> collector \<Rightarrow>
    render_error + collector" where
  \<comment> \<open>the body of the loop over the references of one directory\<close>
  "follow_reference content_of blobs source_dir directory = (\<lambda>(field, raw, may_be_directory) s.
     bindE (normalize_kustomize_local_reference raw field directory) (\<lambda>reference.
     let s1 = (if reference \<noteq> directory \<and> \<not> path_is_under_directory reference source_dir then s\<lparr>kc_external := True\<rparr> else s)
     in if may_be_directory \<and> reference \<in> set (repository_directories blobs)
        then Inr (s1\<lparr>kc_pending := kc_pending s1 @ [reference]\<rparr>)
        else bindE (fetch_file content_of blobs reference s1) (Inr \<circ> snd)))"

definition visit_directory :: "(string \<Rightarrow> blob option) \<Rightarrow> text_lib \<Rightarrow> string list \<Rightarrow> string \<Rightarrow> collector \<Rightarrow> render_error + collector" where
  \<comment> \<open>one turn of the \<^verbatim>\<open>while pending_directories\<close> loop\<close>
  "visit_directory content_of Y blobs source_dir s =
     (let directory = last (kc_pending s); s1 = s\<lparr>kc_pending := butlast (kc_pending s)\<rparr>
      in if directory \<in> set (kc_visited s) then Inr s1
         else bindE (find_kustomization_path blobs directory) (\<lambda>path.
              bindE (fetch_file content_of blobs path (s1\<lparr>kc_visited := kc_visited s1 @ [directory]\<rparr>)) (\<lambda>(content, s2).
              bindE (parse_kustomization_document Y content path) (\<lambda>document.
              bindE (kustomize_local_references document) (\<lambda>references.
              foldE (follow_reference content_of blobs source_dir directory) references s2)))))"

definition collecting :: "render_error + collector \<Rightarrow> bool" where
  "collecting r \<longleftrightarrow> (case r of Inl _ \<Rightarrow> False | Inr s \<Rightarrow> kc_pending s \<noteq> [])"

definition collect_turn :: "(string \<Rightarrow> blob option) \<Rightarrow> text_lib \<Rightarrow> string list \<Rightarrow> string \<Rightarrow> render_error + collector \<Rightarrow>
    render_error + collector" where
  "collect_turn content_of Y blobs source_dir r = bindE r (visit_directory content_of Y blobs source_dir)"

definition collect_start :: "string \<Rightarrow> collector" where
  "collect_start source_dir = \<lparr>kc_pending = [source_dir], kc_visited = [], kc_contents = [], kc_total = 0, kc_external = False\<rparr>"

definition collect_loop :: "(string \<Rightarrow> blob option) \<Rightarrow> text_lib \<Rightarrow> string list \<Rightarrow> string \<Rightarrow> (render_error + collector) option" where
  "collect_loop content_of Y blobs source_dir =
     while_option collecting (collect_turn content_of Y blobs source_dir) (Inr (collect_start source_dir))"

definition collect_kustomize_source_contents :: "(string \<Rightarrow> blob option) \<Rightarrow> text_lib \<Rightarrow> string \<Rightarrow> jdict list \<Rightarrow>
    (render_error + (string \<times> blob) list \<times> bool) option" where
  \<comment> \<open>the contents in the order of the fetches, and whether the warning about references outside the source is given\<close>
  "collect_kustomize_source_contents content_of Y source_dir tree =
     (let blobs = tree_blobs tree; selected = filter (\<lambda>p. path_is_under_directory p source_dir) blobs
      in if length selected > MAX_RENDER_SOURCE_FILES then Some (Inl (File_Limit (int (length selected))))
         else map_option (\<lambda>r. bindE r (\<lambda>s. Inr (kc_contents s, kc_external s))) (collect_loop content_of Y blobs source_dir))"

subsection \<open>The loop ends\<close>

definition kustomized :: "string list \<Rightarrow> string set" where
  \<comment> \<open>the directories that hold a kustomization file\<close>
  "kustomized blobs = {d. \<exists>name \<in> set KUSTOMIZATION_FILE_ORDER. kustomization_at d name \<in> set blobs}"

lemma finite_kustomized: "finite (kustomized blobs)"
proof -
  have "d \<in> insert ''.'' ((\<lambda>(p, name). take (length p - length name - 1) p) ` (set blobs \<times> set KUSTOMIZATION_FILE_ORDER))"
    if "name \<in> set KUSTOMIZATION_FILE_ORDER" "kustomization_at d name \<in> set blobs" for d name
  proof (cases "d = ''.''")
    case False
    then have "d = take (length (kustomization_at d name) - length name - 1) (kustomization_at d name)"
      by (simp add: kustomization_at_def)
    with that show ?thesis by force
  qed simp
  then have "kustomized blobs \<subseteq>
      insert ''.'' ((\<lambda>(p, name). take (length p - length name - 1) p) ` (set blobs \<times> set KUSTOMIZATION_FILE_ORDER))"
    unfolding kustomized_def by blast
  then show ?thesis by (rule finite_subset) simp
qed

lemma find_kustomization_path_in:
  "find_kustomization_path blobs d = Inr p \<Longrightarrow>
     p \<in> set blobs \<and> (\<exists>name \<in> set KUSTOMIZATION_FILE_ORDER. p = kustomization_at d name)"
proof -
  assume "find_kustomization_path blobs d = Inr p"
  then have "filter (\<lambda>p. p \<in> set blobs) (map (kustomization_at d) KUSTOMIZATION_FILE_ORDER) = [p]"
    by (simp add: find_kustomization_path_def split: list.splits)
  then have "p \<in> set (filter (\<lambda>p. p \<in> set blobs) (map (kustomization_at d) KUSTOMIZATION_FILE_ORDER))" by simp
  then show ?thesis by auto
qed

lemma fetch_keeps:
  assumes "fetch_file content_of blobs path s = Inr (c, s')"
  shows "kc_pending s' = kc_pending s" "kc_visited s' = kc_visited s" "kc_external s' = kc_external s"
  using assms by (auto simp: fetch_file_def Let_def split: option.splits if_splits)

lemma follow_visited:
  assumes "follow_reference content_of blobs src d ref s = Inr s'"
  shows "kc_visited s' = kc_visited s"
  using assms
  by (auto simp: follow_reference_def Let_def dest: fetch_keeps(2) split: prod.splits if_splits)

lemma follow_all_visited:
  "foldE (follow_reference content_of blobs src d) refs s = Inr s' \<Longrightarrow> kc_visited s' = kc_visited s"
  by (induction refs arbitrary: s) (auto dest: follow_visited)

lemma visit_progress:
  assumes "visit_directory content_of Y blobs src s = Inr s'"
  shows "(last (kc_pending s) \<in> set (kc_visited s) \<and> s' = s\<lparr>kc_pending := butlast (kc_pending s)\<rparr>)
    \<or> (last (kc_pending s) \<in> kustomized blobs - set (kc_visited s) \<and> kc_visited s' = kc_visited s @ [last (kc_pending s)])"
proof (cases "last (kc_pending s) \<in> set (kc_visited s)")
  case True
  with assms show ?thesis by (simp add: visit_directory_def Let_def)
next
  case False
  with assms obtain p c s2 refs where "find_kustomization_path blobs (last (kc_pending s)) = Inr p"
    and f: "fetch_file content_of blobs p (s\<lparr>kc_pending := butlast (kc_pending s),
      kc_visited := kc_visited s @ [last (kc_pending s)]\<rparr>) = Inr (c, s2)"
    and r: "foldE (follow_reference content_of blobs src (last (kc_pending s))) refs s2 = Inr s'"
    by (auto simp: visit_directory_def Let_def)
  then have "last (kc_pending s) \<in> kustomized blobs"
    unfolding kustomized_def using find_kustomization_path_in by blast
  with False f r show ?thesis by (simp add: fetch_keeps follow_all_visited)
qed

definition work_left :: "string list \<Rightarrow> render_error + collector \<Rightarrow> nat \<times> nat" where
  "work_left blobs r =
     (case r of Inl _ \<Rightarrow> (0, 0) | Inr s \<Rightarrow> (card (kustomized blobs - set (kc_visited s)), length (kc_pending s)))"

lemma turn_decreases:
  assumes "collecting r"
  shows "(collect_turn content_of Y blobs src r, r) \<in> inv_image (less_than <*lex*> less_than) (work_left blobs)"
proof -
  from assms obtain s where r: "r = Inr s" and ne: "kc_pending s \<noteq> []" by (auto simp: collecting_def split: sum.splits)
  show ?thesis
  proof (cases "visit_directory content_of Y blobs src s")
    case (Inl e)
    with r ne show ?thesis by (auto simp: collect_turn_def work_left_def)
  next
    case (Inr s')
    from visit_progress [OF Inr] show ?thesis
    proof
      assume "last (kc_pending s) \<in> set (kc_visited s) \<and> s' = s\<lparr>kc_pending := butlast (kc_pending s)\<rparr>"
      with r ne Inr show ?thesis by (auto simp: collect_turn_def work_left_def)
    next
      assume new: "last (kc_pending s) \<in> kustomized blobs - set (kc_visited s)
        \<and> kc_visited s' = kc_visited s @ [last (kc_pending s)]"
      then have "card (kustomized blobs - set (kc_visited s')) < card (kustomized blobs - set (kc_visited s))"
        using finite_kustomized [of blobs] by (intro psubset_card_mono) auto
      with r Inr show ?thesis by (auto simp: collect_turn_def work_left_def)
    qed
  qed
qed

lemma collect_loop_ends: "\<exists>r. collect_loop content_of Y blobs src = Some r"
  unfolding collect_loop_def
  by (rule wf_rel_while_option_Some [where P = "\<lambda>_. True" and R = "inv_image (less_than <*lex*> less_than) (work_left blobs)"])
     (auto simp del: in_inv_image intro: turn_decreases)

subsection \<open>The contents are the local closure\<close>

definition directory_references :: "(string \<Rightarrow> blob option) \<Rightarrow> text_lib \<Rightarrow> string list \<Rightarrow> string \<Rightarrow>
    render_error + (string \<times> reference list)" where
  \<comment> \<open>the kustomization file of a directory and its references\<close>
  "directory_references content_of Y blobs d =
     bindE (find_kustomization_path blobs d) (\<lambda>p.
       case content_of p of None \<Rightarrow> Inl (Fetch_Failed p)
       | Some c \<Rightarrow> bindE (parse_kustomization_document Y c p) (\<lambda>doc.
           bindE (kustomize_local_references doc) (\<lambda>refs. Inr (p, refs))))"

definition ref_target :: "string \<Rightarrow> reference \<Rightarrow> render_error + string" where
  "ref_target d = (\<lambda>(field, raw, _). normalize_kustomize_local_reference raw field d)"

definition to_directory :: "string list \<Rightarrow> reference \<Rightarrow> string \<Rightarrow> bool" where
  "to_directory blobs ref r \<longleftrightarrow> snd (snd ref) \<and> r \<in> set (repository_directories blobs)"

inductive local_dir :: "(string \<Rightarrow> blob option) \<Rightarrow> text_lib \<Rightarrow> string list \<Rightarrow> string \<Rightarrow> string \<Rightarrow> bool"
  for content_of Y blobs src where
  start: "local_dir content_of Y blobs src src"
| follow: "local_dir content_of Y blobs src d \<Longrightarrow> directory_references content_of Y blobs d = Inr (p, refs) \<Longrightarrow>
    ref \<in> set refs \<Longrightarrow> ref_target d ref = Inr r \<Longrightarrow> to_directory blobs ref r \<Longrightarrow> local_dir content_of Y blobs src r"

definition graph_files :: "(string \<Rightarrow> blob option) \<Rightarrow> text_lib \<Rightarrow> string list \<Rightarrow> string \<Rightarrow> string set" where
  "graph_files content_of Y blobs src =
     {f. \<exists>d p refs. local_dir content_of Y blobs src d \<and> directory_references content_of Y blobs d = Inr (p, refs)
        \<and> (f = p \<or> (\<exists>ref \<in> set refs. ref_target d ref = Inr f \<and> \<not> to_directory blobs ref f))}"

abbreviation keys :: "collector \<Rightarrow> string set" where
  "keys s \<equiv> fst ` set (kc_contents s)"

definition collected_ok :: "(string \<Rightarrow> blob option) \<Rightarrow> string list \<Rightarrow> collector \<Rightarrow> bool" where
  "collected_ok content_of blobs s \<longleftrightarrow>
     distinct (map fst (kc_contents s)) \<and> length (kc_contents s) \<le> MAX_RENDER_SOURCE_FILES
     \<and> kc_total s = sum_list (map (bl_bytes \<circ> snd) (kc_contents s)) \<and> kc_total s \<le> MAX_RENDER_SOURCE_BYTES
     \<and> (\<forall>(p, c) \<in> set (kc_contents s). p \<in> set blobs \<and> content_of p = Some c)"

lemma fetch_ok:
  assumes "fetch_file content_of blobs path s = Inr (c, s')" and "collected_ok content_of blobs s"
  shows "collected_ok content_of blobs s'" "keys s' = insert path (keys s)" "content_of path = Some c"
proof -
  consider (cached) "map_of (kc_contents s) path = Some c" "s' = s"
    | (new) "map_of (kc_contents s) path = None" "path \<in> set blobs" "length (kc_contents s) < MAX_RENDER_SOURCE_FILES"
      "content_of path = Some c" "kc_total s + bl_bytes c \<le> MAX_RENDER_SOURCE_BYTES"
      "s' = s\<lparr>kc_contents := kc_contents s @ [(path, c)], kc_total := kc_total s + bl_bytes c\<rparr>"
    using assms(1) by (auto simp: fetch_file_def Let_def split: option.splits if_splits)
  then have "collected_ok content_of blobs s' \<and> keys s' = insert path (keys s) \<and> content_of path = Some c"
  proof cases
    case cached
    then have "(path, c) \<in> set (kc_contents s)" by (auto dest: map_of_SomeD)
    with cached assms(2) show ?thesis by (auto simp: collected_ok_def rev_image_eqI)
  next
    case new
    with assms(2) show ?thesis by (auto simp: collected_ok_def map_of_eq_None_iff)
  qed
  then show "collected_ok content_of blobs s'" "keys s' = insert path (keys s)" "content_of path = Some c" by blast+
qed

lemma follow_ok:
  assumes "follow_reference content_of blobs src d ref s = Inr s'" and ok: "collected_ok content_of blobs s"
  obtains r where "ref_target d ref = Inr r" "collected_ok content_of blobs s'"
    "keys s' = (if to_directory blobs ref r then keys s else insert r (keys s))"
    "set (kc_pending s') = (if to_directory blobs ref r then insert r (set (kc_pending s)) else set (kc_pending s))"
proof -
  obtain field raw may where ref: "ref = (field, raw, may)" by (cases ref)
  from assms(1) obtain r where r: "ref_target d ref = Inr r"
    by (auto simp: follow_reference_def ref ref_target_def)
  define s1 where "s1 = (if r \<noteq> d \<and> \<not> path_is_under_directory r src then s\<lparr>kc_external := True\<rparr> else s)"
  have s1: "collected_ok content_of blobs s1" "kc_contents s1 = kc_contents s" "kc_pending s1 = kc_pending s"
    using ok by (auto simp: s1_def collected_ok_def)
  have step: "(if to_directory blobs ref r then Inr (s1\<lparr>kc_pending := kc_pending s1 @ [r]\<rparr>)
      else bindE (fetch_file content_of blobs r s1) (Inr \<circ> snd)) = Inr s'"
    using assms(1) r unfolding follow_reference_def ref ref_target_def to_directory_def Let_def s1_def by simp
  show thesis
  proof (cases "to_directory blobs ref r")
    case True
    with step have "s' = s1\<lparr>kc_pending := kc_pending s1 @ [r]\<rparr>" by simp
    with True s1 show thesis by (intro that [OF r]) (auto simp: collected_ok_def)
  next
    case False
    with step obtain c where "fetch_file content_of blobs r s1 = Inr (c, s')" by auto
    with False s1 show thesis
      using fetch_ok fetch_keeps(1) by (intro that [OF r]) (auto simp: fetch_keeps)
  qed
qed

lemma follow_all_ok:
  assumes "foldE (follow_reference content_of blobs src d) refs s = Inr s'" and "collected_ok content_of blobs s"
  shows "collected_ok content_of blobs s' \<and> (\<forall>ref \<in> set refs. \<exists>r. ref_target d ref = Inr r)
    \<and> keys s' = keys s \<union> {r. \<exists>ref \<in> set refs. ref_target d ref = Inr r \<and> \<not> to_directory blobs ref r}
    \<and> set (kc_pending s') = set (kc_pending s) \<union> {r. \<exists>ref \<in> set refs. ref_target d ref = Inr r \<and> to_directory blobs ref r}"
  using assms
proof (induction refs arbitrary: s)
  case (Cons ref refs)
  from Cons.prems(1) obtain s1 where step: "follow_reference content_of blobs src d ref s = Inr s1"
    and rest: "foldE (follow_reference content_of blobs src d) refs s1 = Inr s'" by auto
  from step Cons.prems(2) obtain r where r: "ref_target d ref = Inr r" "collected_ok content_of blobs s1"
    and k: "keys s1 = (if to_directory blobs ref r then keys s else insert r (keys s))"
    and p: "set (kc_pending s1) = (if to_directory blobs ref r then insert r (set (kc_pending s)) else set (kc_pending s))"
    by (rule follow_ok)
  note IH = Cons.IH [OF rest r(2)]
  show ?case
  proof (intro conjI)
    show "collected_ok content_of blobs s'" using IH by blast
    show "\<forall>ref' \<in> set (ref # refs). \<exists>r. ref_target d ref' = Inr r" using IH r(1) by auto
    show "keys s' = keys s \<union> {r'. \<exists>ref' \<in> set (ref # refs). ref_target d ref' = Inr r' \<and> \<not> to_directory blobs ref' r'}"
      using IH r(1) unfolding k by (auto split: if_splits)
    show "set (kc_pending s') = set (kc_pending s) \<union> {r'. \<exists>ref' \<in> set (ref # refs). ref_target d ref' = Inr r' \<and> to_directory blobs ref' r'}"
      using IH r(1) unfolding p by (auto split: if_splits)
  qed
qed simp

abbreviation known :: "collector \<Rightarrow> string set" where
  "known s \<equiv> set (kc_pending s) \<union> set (kc_visited s)"

definition ref_closed :: "string list \<Rightarrow> string set \<Rightarrow> string set \<Rightarrow> string \<Rightarrow> reference \<Rightarrow> bool" where
  "ref_closed blobs D K d ref \<longleftrightarrow>
     (case ref_target d ref of Inl _ \<Rightarrow> False | Inr r \<Rightarrow> if to_directory blobs ref r then r \<in> D else r \<in> K)"

definition closed_at :: "(string \<Rightarrow> blob option) \<Rightarrow> text_lib \<Rightarrow> string list \<Rightarrow> string set \<Rightarrow> string set \<Rightarrow> string \<Rightarrow> bool" where
  \<comment> \<open>everything that a visited directory needs is collected or pending\<close>
  "closed_at content_of Y blobs D K d \<longleftrightarrow>
     (\<exists>p refs. directory_references content_of Y blobs d = Inr (p, refs) \<and> p \<in> K \<and> (\<forall>ref \<in> set refs. ref_closed blobs D K d ref))"

definition collect_inv :: "(string \<Rightarrow> blob option) \<Rightarrow> text_lib \<Rightarrow> string list \<Rightarrow> string \<Rightarrow> collector \<Rightarrow> bool" where
  "collect_inv content_of Y blobs src s \<longleftrightarrow>
     collected_ok content_of blobs s \<and> src \<in> known s \<and> (\<forall>d \<in> known s. local_dir content_of Y blobs src d)
     \<and> keys s \<subseteq> graph_files content_of Y blobs src
     \<and> (\<forall>d \<in> set (kc_visited s). closed_at content_of Y blobs (known s) (keys s) d)"

lemma closed_at_mono:
  assumes "closed_at content_of Y blobs D K d" and "K \<subseteq> K'" and "D \<subseteq> D'"
  shows "closed_at content_of Y blobs D' K' d"
proof -
  have "ref_closed blobs D' K' d ref" if "ref_closed blobs D K d ref" for ref
    using that assms(2,3) by (auto simp: ref_closed_def split: sum.splits if_splits)
  with assms(1,2) show ?thesis unfolding closed_at_def by blast
qed

lemma pending_split: "xs \<noteq> [] \<Longrightarrow> set xs = insert (last xs) (set (butlast xs))"
  by (metis append_butlast_last_id insert_is_Un list.set(1,2) set_append sup_commute)

lemma visit_steps:
  assumes "visit_directory content_of Y blobs src s = Inr s'" and new: "last (kc_pending s) \<notin> set (kc_visited s)"
    and ok: "collected_ok content_of blobs s"
  obtains p refs s2 where "directory_references content_of Y blobs (last (kc_pending s)) = Inr (p, refs)"
    "collected_ok content_of blobs s2" "keys s2 = insert p (keys s)" "kc_pending s2 = butlast (kc_pending s)"
    "kc_visited s2 = kc_visited s @ [last (kc_pending s)]"
    "foldE (follow_reference content_of blobs src (last (kc_pending s))) refs s2 = Inr s'"
proof -
  let ?d = "last (kc_pending s)"
  let ?s1 = "s\<lparr>kc_pending := butlast (kc_pending s), kc_visited := kc_visited s @ [?d]\<rparr>"
  from assms(1) new obtain p c s2 doc refs where find: "find_kustomization_path blobs ?d = Inr p"
    and f: "fetch_file content_of blobs p ?s1 = Inr (c, s2)" and d: "parse_kustomization_document Y c p = Inr doc"
    and refs: "kustomize_local_references doc = Inr refs"
    and r: "foldE (follow_reference content_of blobs src ?d) refs s2 = Inr s'"
    by (auto simp: visit_directory_def Let_def)
  have ok1: "collected_ok content_of blobs ?s1" using ok by (simp add: collected_ok_def)
  note ff = fetch_ok [OF f ok1]
  have "directory_references content_of Y blobs ?d = Inr (p, refs)"
    using find ff(3) d refs by (simp add: directory_references_def)
  with ff r fetch_keeps [OF f] show thesis by (intro that) auto
qed

lemma visit_inv:
  assumes visit: "visit_directory content_of Y blobs src s = Inr s'" and ne: "kc_pending s \<noteq> []"
    and inv: "collect_inv content_of Y blobs src s"
  shows "collect_inv content_of Y blobs src s'"
proof (cases "last (kc_pending s) \<in> set (kc_visited s)")
  case True
  with visit have s': "s' = s\<lparr>kc_pending := butlast (kc_pending s)\<rparr>" by (simp add: visit_directory_def Let_def)
  have "known s' = known s" using pending_split [OF ne] True s' by auto
  with inv s' show ?thesis by (simp add: collect_inv_def collected_ok_def)
next
  case False
  let ?d = "last (kc_pending s)"
  have ok: "collected_ok content_of blobs s" using inv by (simp add: collect_inv_def)
  from visit False ok obtain p refs s2 where refs: "directory_references content_of Y blobs ?d = Inr (p, refs)"
    and ok2: "collected_ok content_of blobs s2" and k2: "keys s2 = insert p (keys s)"
    and p2: "kc_pending s2 = butlast (kc_pending s)" and v2: "kc_visited s2 = kc_visited s @ [?d]"
    and f: "foldE (follow_reference content_of blobs src ?d) refs s2 = Inr s'" by (rule visit_steps)
  define DT where "DT = {r. \<exists>ref \<in> set refs. ref_target ?d ref = Inr r \<and> to_directory blobs ref r}"
  define FT where "FT = {r. \<exists>ref \<in> set refs. ref_target ?d ref = Inr r \<and> \<not> to_directory blobs ref r}"
  have ok': "collected_ok content_of blobs s'" and targets: "\<forall>ref \<in> set refs. \<exists>r. ref_target ?d ref = Inr r"
    and k': "keys s' = insert p (keys s) \<union> FT" and pend: "set (kc_pending s') = set (butlast (kc_pending s)) \<union> DT"
    using follow_all_ok [OF f ok2] unfolding k2 p2 DT_def [symmetric] FT_def [symmetric] by blast+
  have v': "set (kc_visited s') = insert ?d (set (kc_visited s))" using follow_all_visited [OF f] v2 by simp
  have known': "known s' = known s \<union> DT" using pending_split [OF ne] unfolding pend v' by blast
  have locals: "\<forall>d \<in> known s. local_dir content_of Y blobs src d" using inv by (simp add: collect_inv_def)
  have loc: "local_dir content_of Y blobs src ?d" using locals last_in_set [OF ne] by blast
  have DT: "\<forall>d \<in> DT. local_dir content_of Y blobs src d"
    unfolding DT_def using local_dir.follow [OF loc refs] by blast
  have FT: "insert p FT \<subseteq> graph_files content_of Y blobs src"
    unfolding FT_def graph_files_def using loc refs by blast
  have "ref_closed blobs (known s') (keys s') ?d ref" if "ref \<in> set refs" for ref
  proof -
    from targets that obtain r where "ref_target ?d ref = Inr r" by blast
    then show ?thesis using that unfolding ref_closed_def known' k' DT_def FT_def by (simp, blast)
  qed
  then have here: "closed_at content_of Y blobs (known s') (keys s') ?d"
    unfolding closed_at_def using refs k' by blast
  have there: "closed_at content_of Y blobs (known s') (keys s') d" if "d \<in> set (kc_visited s)" for d
  proof (rule closed_at_mono)
    show "closed_at content_of Y blobs (known s) (keys s) d" using inv that by (simp add: collect_inv_def)
  qed (use k' known' in blast)+
  show ?thesis unfolding collect_inv_def
  proof (intro conjI)
    show "src \<in> known s'" using inv unfolding known' collect_inv_def by blast
    show "\<forall>d \<in> known s'. local_dir content_of Y blobs src d" using locals DT unfolding known' by blast
    show "keys s' \<subseteq> graph_files content_of Y blobs src" using inv FT unfolding k' collect_inv_def by blast
    show "\<forall>d \<in> set (kc_visited s'). closed_at content_of Y blobs (known s') (keys s') d"
      using here there unfolding v' by blast
  qed (rule ok')
qed

lemma collect_loop_inv:
  assumes "collect_loop content_of Y blobs src = Some (Inr s)"
  shows "collect_inv content_of Y blobs src s" "kc_pending s = []"
proof -
  let ?P = "\<lambda>r :: render_error + collector. case r of Inl _ \<Rightarrow> True | Inr s \<Rightarrow> collect_inv content_of Y blobs src s"
  have start: "?P (Inr (collect_start src))"
    by (simp add: collect_inv_def collect_start_def collected_ok_def MAX_RENDER_SOURCE_BYTES_def local_dir.start)
  have turn: "?P (collect_turn content_of Y blobs src r)" if "?P r" "collecting r" for r
    using that visit_inv by (auto simp: collect_turn_def collecting_def bindE_def split: sum.splits)
  have "?P (Inr s)" by (rule while_option_rule [where P = ?P, OF turn assms [unfolded collect_loop_def] start])
  then show "collect_inv content_of Y blobs src s" by simp
  show "kc_pending s = []"
    using while_option_stop [OF assms [unfolded collect_loop_def]] by (simp add: collecting_def)
qed

lemma collected_closure:
  assumes "collect_loop content_of Y blobs src = Some (Inr s)"
  shows "keys s = graph_files content_of Y blobs src"
proof -
  note inv = collect_loop_inv(1) [OF assms] and finished = collect_loop_inv(2) [OF assms]
  have visited: "d \<in> set (kc_visited s)" if "local_dir content_of Y blobs src d" for d
    using that
  proof induction
    case start
    then show ?case using inv finished by (simp add: collect_inv_def)
  next
    case (follow d p refs ref r)
    then have "closed_at content_of Y blobs (known s) (keys s) d" using inv by (simp add: collect_inv_def)
    with follow(2) have "ref_closed blobs (known s) (keys s) d ref" using follow(3) by (simp add: closed_at_def)
    with follow(4,5) finished show ?case by (simp add: ref_closed_def)
  qed
  have "f \<in> keys s" if "f \<in> graph_files content_of Y blobs src" for f
  proof -
    from that obtain d p refs where d: "local_dir content_of Y blobs src d" "directory_references content_of Y blobs d = Inr (p, refs)"
      and f: "f = p \<or> (\<exists>ref \<in> set refs. ref_target d ref = Inr f \<and> \<not> to_directory blobs ref f)"
      by (auto simp: graph_files_def)
    have "closed_at content_of Y blobs (known s) (keys s) d" using inv visited [OF d(1)] by (simp add: collect_inv_def)
    with d(2) have "p \<in> keys s" "\<forall>ref \<in> set refs. ref_closed blobs (known s) (keys s) d ref" by (simp_all add: closed_at_def)
    with f show ?thesis by (fastforce simp: ref_closed_def)
  qed
  with inv show ?thesis by (auto simp: collect_inv_def)
qed

text \<open>
  C38. Collecting a Kustomize source always ends. Whatever the tree, the client and the documents are,
  cyclic references included, the work list empties or an error is returned: a directory is visited
  at most once, and only directories that hold a kustomization file count.\<close>
theorem collect_terminates: "\<exists>r. collect_kustomize_source_contents content_of Y source_dir tree = Some r"
  using collect_loop_ends [of content_of Y "tree_blobs tree" source_dir]
  by (auto simp: collect_kustomize_source_contents_def Let_def)

text \<open>
  C39. The collected files are exactly the local closure of the source. They are the kustomization files
  of the directories reachable from it by local references, and the files these refer to; no path occurs
  twice, every one is a blob of the commit with the content the client returned, and together they stay
  within 500 files and 5 MiB.\<close>
theorem collected_is_local_closure:
  assumes "collect_kustomize_source_contents content_of Y source_dir tree = Some (Inr (contents, external))"
  shows "fst ` set contents = graph_files content_of Y (tree_blobs tree) source_dir
    \<and> distinct (map fst contents) \<and> length contents \<le> 500
    \<and> sum_list (map (bl_bytes \<circ> snd) contents) \<le> 5 * 1048576
    \<and> (\<forall>(p, c) \<in> set contents. p \<in> set (tree_blobs tree) \<and> content_of p = Some c)"
proof -
  from assms obtain s where s: "collect_loop content_of Y (tree_blobs tree) source_dir = Some (Inr s)"
    and c: "contents = kc_contents s"
    by (auto simp: collect_kustomize_source_contents_def Let_def split: if_splits)
  have "collected_ok content_of (tree_blobs tree) s" using collect_loop_inv(1) [OF s] by (simp add: collect_inv_def)
  then show ?thesis using collected_closure [OF s] unfolding collected_ok_def c
    by (simp add: MAX_RENDER_SOURCE_FILES_def MAX_RENDER_SOURCE_BYTES_def)
qed

subsection \<open>An overlay and its base, which refer to each other\<close>

definition overlay_yaml :: "string \<Rightarrow> json option" where
  "overlay_yaml t =
     (if t = ''overlay'' then Some (JDict [(''resources'', JList [JStr ''../base''])])
      else if t = ''base'' then Some (JDict [(''resources'', JList [JStr ''app.yaml'', JStr ''../overlay''])])
      else None)"

definition overlay_lib :: text_lib where
  "overlay_lib = \<lparr>yaml_scan = (\<lambda>_. ([], False)), yaml_compose_all = (\<lambda>_. None), yaml_safe_load_all = (\<lambda>_. None),
     yaml_safe_load = overlay_yaml, yaml_safe_dump = (\<lambda>_. []), json_loads = (\<lambda>_. None), sha256_hex = id\<rparr>"

definition overlay_files :: "(string \<times> string) list" where
  "overlay_files = [(''overlay/kustomization.yaml'', ''overlay''), (''base/kustomization.yaml'', ''base''), (''base/app.yaml'', ''app'')]"

definition overlay_content :: "string \<Rightarrow> blob option" where
  "overlay_content p = map_option (\<lambda>t. \<lparr>bl_bytes = 10, bl_text = Some t\<rparr>) (map_of overlay_files p)"

definition overlay_tree :: "jdict list" where
  "overlay_tree = map (\<lambda>(p, _). [(''type'', JStr ''blob''), (''path'', JStr p)]) overlay_files"

definition overlay_contents :: "(string \<times> blob) list" where
  "overlay_contents = map (\<lambda>(p, t). (p, \<lparr>bl_bytes = 10, bl_text = Some t\<rparr>)) overlay_files"

lemma overlay_collected:
  "collect_kustomize_source_contents overlay_content overlay_lib ''overlay'' overlay_tree = Some (Inr (overlay_contents, True))"
  by code_simp

theorem collected_is_local_closure_witness:
  "collect_kustomize_source_contents overlay_content overlay_lib ''overlay'' overlay_tree = Some (Inr (overlay_contents, True))
   \<and> fst ` set overlay_contents = graph_files overlay_content overlay_lib (tree_blobs overlay_tree) ''overlay''"
  using collected_is_local_closure [OF overlay_collected] overlay_collected by blast

end
