(* ===== verification/Kustomize_Edit_Source.thy ===== *)
theory Kustomize_Edit_Source
  imports Kustomize_Graph Source_Patch
begin

section \<open>The file that declares a rendered resource\<close>

text \<open>
  \<^verbatim>\<open>src/src/domains/gitops/kustomize_edit_source.py\<close>: a recovery edits the one raw file of the local
  Kustomize graph that declares the selected resource, and refuses when the file is not unique or when
  a kustomization of the graph itself writes a protected field. The tree and the contents of the
  commit are arguments, as in \<open>Kustomize_Graph\<close>. Two exceptions leave the functions: the errors of the
  graph, and the TypeError of \<^verbatim>\<open>item.get("op") in {...}\<close> when the operation is a list or a mapping.
\<close>

record edit_source =
  es_path :: string
  es_source_type :: string
  es_sha256 :: string
  es_identity :: "manifest_id option"

datatype edit_error = Graph_Error render_error | Unhashable_Operation

definition graphE :: "render_error + 'a \<Rightarrow> edit_error + 'a" where
  "graphE r = (case r of Inl e \<Rightarrow> Inl (Graph_Error e) | Inr x \<Rightarrow> Inr x)"

fun anyE :: "('a \<Rightarrow> 'e + bool) \<Rightarrow> 'a list \<Rightarrow> 'e + bool" where
  \<comment> \<open>a loop that returns True at the first element that passes\<close>
  "anyE f [] = Inr False"
| "anyE f (x # xs) = bindE (f x) (\<lambda>b. if b then Inr True else anyE f xs)"

subsection \<open>Which resource a patch may touch\<close>

definition identity_matches_selected :: "manifest_id \<Rightarrow> manifest_id \<Rightarrow> bool" where
  "identity_matches_selected identity selected \<longleftrightarrow>
     api_version identity = api_version selected
     \<and> py_casefold (id_kind identity) = py_casefold (id_kind selected) \<and> id_name identity = id_name selected
     \<and> (id_namespace identity = id_namespace selected \<or> id_namespace identity = None)"

definition py_isalnum :: "char \<Rightarrow> bool" where
  \<comment> \<open>\<^verbatim>\<open>str.isalnum\<close> below code point 256\<close>
  "py_isalnum c \<longleftrightarrow> is_alnum c \<or> (let n = of_char c :: int in
     n \<in> {170, 178, 179, 181, 185, 186, 188, 189, 190} \<or> (192 \<le> n \<and> n \<le> 255 \<and> n \<noteq> 215 \<and> n \<noteq> 247))"

fun select_loop :: "jdict \<Rightarrow> (string \<times> string) list \<Rightarrow> bool" where
  "select_loop target [] = True"
| "select_loop target ((key, expected) # rest) =
     (case dget target key of
        JNull \<Rightarrow> select_loop target rest
      | JStr v \<Rightarrow> if v \<noteq> expected then \<not> list_all (\<lambda>c. py_isalnum c \<or> c \<in> set ''._-'') v else select_loop target rest
      | _ \<Rightarrow> True)"

definition target_may_select :: "json \<Rightarrow> manifest_id \<Rightarrow> bool" where
  "target_may_select target selected =
     (case as_dict target of
        None \<Rightarrow> True
      | Some d \<Rightarrow> select_loop d [(''kind'', id_kind selected), (''name'', id_name selected),
          (''namespace'', case id_namespace selected of None \<Rightarrow> [] | Some n \<Rightarrow> n)])"

subsection \<open>Which field a patch writes\<close>

definition json_pointer_overlaps_field :: "string \<Rightarrow> string \<Rightarrow> bool" where
  "json_pointer_overlaps_field pointer path \<longleftrightarrow>
     (let protected = SLASH # map (\<lambda>c. if c = CHR ''.'' then SLASH else c) path
      in pointer = protected \<or> prefix (protected @ ''/'') pointer \<or> prefix (pointer @ ''/'') protected)"

definition mapping_declares_field :: "jdict \<Rightarrow> string \<Rightarrow> bool" where
  "mapping_declares_field v path =
     (let segments = field_path_segments path
      in if segments = [] then True
         else case object_value_at (JDict v) segments of Inl _ \<Rightarrow> False | Inr _ \<Rightarrow> True)"

definition semantic_fields_overlap :: "string \<Rightarrow> string \<Rightarrow> bool" where
  "semantic_fields_overlap left right \<longleftrightarrow> left = right \<or> prefix (right @ ''.'') left \<or> prefix (left @ ''.'') right"

definition operation_owns_field :: "string list \<Rightarrow> json \<Rightarrow> edit_error + bool" where
  \<comment> \<open>one item of a JSON patch\<close>
  "operation_owns_field protected item =
     (case as_dict item of
        None \<Rightarrow> Inr False
      | Some d \<Rightarrow>
          (case dget d ''op'' of
             JList _ \<Rightarrow> Inl Unhashable_Operation
           | JDict _ \<Rightarrow> Inl Unhashable_Operation
           | operation \<Rightarrow>
               (let touches = (\<lambda>key path. json_pointer_overlaps_field (py_str (py_or (dget d key) (JStr []))) path)
                in Inr (operation \<in> JStr ` set [''add'', ''copy'', ''move'', ''remove'', ''replace'']
                     \<and> list_ex (\<lambda>path. touches ''path'' path
                          \<or> (operation \<in> {JStr ''copy'', JStr ''move''} \<and> touches ''from'' path)) protected))))"

definition patch_content_owns_field :: "text_lib \<Rightarrow> manifest_id \<Rightarrow> string list \<Rightarrow> bool \<Rightarrow> string \<Rightarrow> edit_error + bool" where
  "patch_content_owns_field Y selected protected target_declared content =
     (case yaml_safe_load Y content of
        None \<Rightarrow> Inr True
      | Some (JList items) \<Rightarrow> anyE (operation_owns_field protected) items
      | Some (JDict payload) \<Rightarrow>
          Inr (case manifest_identity payload of
                 None \<Rightarrow> \<not> target_declared \<or> list_ex (mapping_declares_field payload) protected
               | Some identity \<Rightarrow> identity_matches_selected identity selected \<and> list_ex (mapping_declares_field payload) protected)
      | Some _ \<Rightarrow> Inr True)"

subsection \<open>Ownership of a field by a kustomization\<close>

type_synonym contents = "(string \<times> blob) list"

definition file_owns_field :: "text_lib \<Rightarrow> contents \<Rightarrow> manifest_id \<Rightarrow> string list \<Rightarrow> bool \<Rightarrow> string \<Rightarrow> edit_error + bool" where
  \<comment> \<open>a patch that is read from a file; one that cannot be read owns the field\<close>
  "file_owns_field Y contents selected protected target_declared reference =
     (case map_of contents reference of
        None \<Rightarrow> Inr True
      | Some raw \<Rightarrow> (case bl_text raw of None \<Rightarrow> Inr True
          | Some t \<Rightarrow> patch_content_owns_field Y selected protected target_declared t))"

definition patch_entry_owns_field :: "text_lib \<Rightarrow> contents \<Rightarrow> string \<Rightarrow> manifest_id \<Rightarrow> string list \<Rightarrow> string \<Rightarrow> json \<Rightarrow> edit_error + bool" where
  \<comment> \<open>the body of the loop over \<^verbatim>\<open>patches\<close> and \<^verbatim>\<open>patchesJson6902\<close>\<close>
  "patch_entry_owns_field Y contents directory selected protected field entry =
     (case as_dict entry of
        None \<Rightarrow> Inr True
      | Some e \<Rightarrow>
          (let target = dget e ''target''
           in if \<not> target_may_select target selected then Inr False
              else case as_str (dget e ''patch'') of
                     Some patch \<Rightarrow> patch_content_owns_field Y selected protected (is_dict target) patch
                   | None \<Rightarrow>
                       (case as_str (dget e ''path'') of
                          None \<Rightarrow> Inr True
                        | Some path \<Rightarrow>
                            bindE (graphE (normalize_kustomize_local_reference path (field @ ''.path'') directory))
                              (file_owns_field Y contents selected protected (is_dict target)))))"

definition strategic_patch_owns_field :: "text_lib \<Rightarrow> contents \<Rightarrow> string \<Rightarrow> manifest_id \<Rightarrow> string list \<Rightarrow> string \<Rightarrow> edit_error + bool" where
  "strategic_patch_owns_field Y contents directory selected protected raw_reference =
     (if CHR 0x0A \<in> set raw_reference then patch_content_owns_field Y selected protected False raw_reference
      else bindE (graphE (normalize_kustomize_local_reference raw_reference ''patchesStrategicMerge'' directory))
             (file_owns_field Y contents selected protected False))"

definition replacement_target_owns_field :: "manifest_id \<Rightarrow> string list \<Rightarrow> json \<Rightarrow> bool" where
  "replacement_target_owns_field selected protected target =
     (case as_dict target of
        None \<Rightarrow> True
      | Some d \<Rightarrow>
          if \<not> target_may_select (dget d ''select'') selected then False
          else case as_list (dget d ''fieldPaths'') of
                 None \<Rightarrow> True
               | Some paths \<Rightarrow>
                   list_ex (\<lambda>p. as_str p = None) paths
                   \<or> list_ex (\<lambda>p. case as_str p of None \<Rightarrow> False | Some t \<Rightarrow> list_ex (semantic_fields_overlap t) protected) paths)"

definition replacements_own_field :: "json \<Rightarrow> manifest_id \<Rightarrow> string list \<Rightarrow> render_error + bool" where
  "replacements_own_field v selected protected =
     bindE (sequence_value v ''replacements'') (anyE (\<lambda>replacement.
       case as_dict replacement of
         None \<Rightarrow> Inr True
       | Some r \<Rightarrow> bindE (sequence_value (dget r ''targets'') ''replacements.targets'')
           (\<lambda>targets. Inr (list_ex (replacement_target_owns_field selected protected) targets))))"

definition replicas_own_field :: "jdict \<Rightarrow> manifest_id \<Rightarrow> string list \<Rightarrow> render_error + bool" where
  "replicas_own_field document selected protected =
     (if ''spec.replicas'' \<notin> set protected then Inr False
      else bindE (sequence_value (dget document ''replicas'') ''replicas'') (\<lambda>replicas.
        Inr (list_ex (\<lambda>r. case as_dict r of None \<Rightarrow> True
               | Some d \<Rightarrow> py_str (py_or (dget d ''name'') (JStr [])) = id_name selected) replicas)))"

definition kustomization_owns_protected_field :: "text_lib \<Rightarrow> contents \<Rightarrow> manifest_id \<Rightarrow> string list \<Rightarrow> string \<Rightarrow> jdict \<Rightarrow>
    edit_error + bool" where
  "kustomization_owns_protected_field Y contents selected protected directory document =
     (if protected = [] then Inr False
      else bindE (graphE (sequence_value (dget document ''transformers'') ''transformers'')) (\<lambda>transformers.
        if transformers \<noteq> [] then Inr True
        else bindE (graphE (replicas_own_field document selected protected)) (\<lambda>owned.
        if owned then Inr True
        else bindE (anyE (\<lambda>field. bindE (graphE (sequence_value (dget document field) field))
               (anyE (patch_entry_owns_field Y contents directory selected protected field))) [''patches'', ''patchesJson6902'']) (\<lambda>owned.
        if owned then Inr True
        else bindE (graphE (string_sequence (dget document ''patchesStrategicMerge'') ''patchesStrategicMerge'')) (\<lambda>references.
        bindE (anyE (strategic_patch_owns_field Y contents directory selected protected) references) (\<lambda>owned.
        if owned then Inr True
        else graphE (replacements_own_field (dget document ''replacements'') selected protected)))))))"

subsection \<open>The resolution\<close>

definition KUSTOMIZATION_FILES :: "string list" where
  "KUSTOMIZATION_FILES = [''kustomization.yaml'', ''kustomization.yml'', ''Kustomization'']"

definition is_kustomization :: "string \<Rightarrow> bool" where
  "is_kustomization path \<longleftrightarrow> base_name path \<in> set KUSTOMIZATION_FILES"

definition sorted_contents :: "contents \<Rightarrow> contents" where
  \<comment> \<open>\<^verbatim>\<open>sorted(contents.items())\<close>: the keys are distinct\<close>
  "sorted_contents contents = sort_key fst contents"

definition resource_references :: "jdict \<Rightarrow> string \<Rightarrow> render_error + string list" where
  "resource_references document directory =
     bindE (mapE (\<lambda>field. bindE (string_sequence (dget document field) field)
        (mapE (\<lambda>raw. normalize_kustomize_local_reference raw field directory))) [''resources'', ''bases'', ''components''])
       (\<lambda>rs. Inr (concat rs))"

fun ownership_loop :: "text_lib \<Rightarrow> contents \<Rightarrow> manifest_id \<Rightarrow> string list \<Rightarrow> string list \<Rightarrow> contents \<Rightarrow> string list \<Rightarrow>
    edit_error + (string list \<times> bool)" where
  "ownership_loop Y contents selected protected directories [] paths = Inr (paths, False)"
| "ownership_loop Y contents selected protected directories ((path, content) # rest) paths =
     (if \<not> is_kustomization path then ownership_loop Y contents selected protected directories rest paths
      else bindE (graphE (parse_kustomization_document Y content path)) (\<lambda>document.
           bindE (graphE (resource_references document (parent_path path))) (\<lambda>references.
           let paths' = paths @ filter (\<lambda>r. r \<notin> set directories) references
           in bindE (kustomization_owns_protected_field Y contents selected protected (parent_path path) document) (\<lambda>owned.
              if owned then Inr (paths', True)
              else ownership_loop Y contents selected protected directories rest paths'))))"

definition kustomize_resource_paths_and_field_ownership :: "text_lib \<Rightarrow> contents \<Rightarrow> manifest_id \<Rightarrow> string list \<Rightarrow>
    edit_error + (string list \<times> bool)" where
  "kustomize_resource_paths_and_field_ownership Y contents selected protected =
     ownership_loop Y contents selected protected (map parent_path (filter is_kustomization (map fst contents)))
       (sorted_contents contents) []"

definition matches_document :: "manifest_id \<Rightarrow> jdict \<Rightarrow> bool" where
  "matches_document selected d =
     (case manifest_identity d of None \<Rightarrow> False | Some i \<Rightarrow> identity_matches_selected i selected)"

fun scan_documents :: "text_lib \<Rightarrow> manifest_id \<Rightarrow> string \<Rightarrow> nat \<Rightarrow> json list \<Rightarrow> edit_source list option" where
  \<comment> \<open>the loop over the documents of one file; \<open>None\<close> where it returns because of a list wrapper\<close>
  "scan_documents Y selected path n [] = Some []"
| "scan_documents Y selected path n (document # documents) =
     (case as_dict document of
        None \<Rightarrow> scan_documents Y selected path n documents
      | Some d \<Rightarrow>
          if kind_text d = ''List'' then
            (if list_ex (matches_document selected) (flattened_resources document) then None
             else scan_documents Y selected path n documents)
          else if \<not> matches_document selected d then scan_documents Y selected path n documents
          else map_option (\<lambda>es. \<lparr>es_path = path, es_source_type = RAW_YAML, es_sha256 = canonical_manifest_digest Y d,
                 es_identity = (if n > 1 then manifest_identity d else None)\<rparr> # es)
                 (scan_documents Y selected path n documents))"

definition candidate_documents :: "text_lib \<Rightarrow> string list \<Rightarrow> string \<times> blob \<Rightarrow> json list" where
  \<comment> \<open>the documents of a file of the graph that the loop looks at, none for a file that it skips\<close>
  "candidate_documents Y paths = (\<lambda>(path, raw).
     if is_kustomization path \<or> path \<notin> set paths
        \<or> \<not> list_ex (\<lambda>e. suffix e (py_casefold path)) [''.yaml'', ''.yml'', ''.json''] then []
     else case bl_text raw of
            None \<Rightarrow> []
          | Some t \<Rightarrow> (case parse_documents Y t path of ([], Some documents) \<Rightarrow> documents | _ \<Rightarrow> []))"

fun scan_files :: "text_lib \<Rightarrow> manifest_id \<Rightarrow> string list \<Rightarrow> contents \<Rightarrow> edit_source list option" where
  "scan_files Y selected paths [] = Some []"
| "scan_files Y selected paths (file # files) =
     (let documents = candidate_documents Y paths file
      in case scan_documents Y selected (fst file) (length documents) documents of
           None \<Rightarrow> None
         | Some es \<Rightarrow> map_option (\<lambda>rest. es @ rest) (scan_files Y selected paths files))"

definition HELM_CHART_FILE :: string where
  "HELM_CHART_FILE = ''Chart.yaml''"

definition render_source_directory :: "string \<Rightarrow> string \<Rightarrow> string" where
  "render_source_directory manifest_path source_type =
     (if source_type = ''helm'' \<and> base_name manifest_path = HELM_CHART_FILE then parent_path manifest_path
      else if source_type = ''kustomize'' \<and> is_kustomization manifest_path then parent_path manifest_path
      else manifest_path)"

definition resolve_in_contents :: "text_lib \<Rightarrow> manifest_id \<Rightarrow> string list \<Rightarrow> contents \<Rightarrow> edit_error + edit_source option" where
  "resolve_in_contents Y selected protected contents =
     bindE (kustomize_resource_paths_and_field_ownership Y contents selected protected) (\<lambda>(paths, owned).
       if owned then Inr None
       else Inr (case scan_files Y selected paths (sorted_contents contents) of Some [e] \<Rightarrow> Some e | _ \<Rightarrow> None))"

definition resolve_unique_kustomize_edit_source :: "(string \<Rightarrow> blob option) \<Rightarrow> text_lib \<Rightarrow> jdict list \<Rightarrow> string \<Rightarrow> manifest_id \<Rightarrow>
    string list \<Rightarrow> (edit_error + edit_source option) option" where
  "resolve_unique_kustomize_edit_source content_of Y tree binding_manifest_path selected protected =
     map_option (\<lambda>r. bindE (graphE r) (\<lambda>(contents, _). resolve_in_contents Y selected protected contents))
       (collect_kustomize_source_contents content_of Y (render_source_directory binding_manifest_path ''kustomize'') tree)"

subsection \<open>What a resolved source is\<close>

definition declared_documents :: "text_lib \<Rightarrow> string list \<Rightarrow> contents \<Rightarrow> (string \<times> jdict) list" where
  \<comment> \<open>every mapping document of the resource files of the graph, with its path\<close>
  "declared_documents Y paths contents =
     concat (map (\<lambda>file. map (Pair (fst file)) (List.map_filter as_dict (candidate_documents Y paths file))) contents)"

definition declares :: "manifest_id \<Rightarrow> string \<times> jdict \<Rightarrow> bool" where
  \<comment> \<open>the document is the selected resource, or a list that wraps it\<close>
  "declares selected = (\<lambda>(path, d). list_ex (matches_document selected) (flattened_resources (JDict d)))"

lemma flattened_document [simp]: "kind_text d \<noteq> ''List'' \<Longrightarrow> flattened_resources (JDict d) = [d]"
  by (simp add: flattened_resources_def)

lemma scan_documents_declares:
  "scan_documents Y selected path n documents = Some es \<Longrightarrow>
     list_all2 (\<lambda>e d. es_path e = path \<and> es_sha256 e = canonical_manifest_digest Y d \<and> kind_text d \<noteq> ''List'')
       es (filter (\<lambda>d. declares selected (path, d)) (List.map_filter as_dict documents))"
proof (induction documents arbitrary: es)
  case (Cons document documents)
  show ?case
  proof (cases "as_dict document")
    case None
    with Cons show ?thesis by (simp add: map_filter_simps)
  next
    case (Some d)
    then have document: "document = JDict d" by (cases document) (simp_all add: as_dict_def)
    show ?thesis
    proof (cases "declares selected (path, d)")
      case True
      with Cons.prems Some document obtain e es' where "es = e # es'" "kind_text d \<noteq> ''List''"
          "es_path e = path" "es_sha256 e = canonical_manifest_digest Y d"
          "scan_documents Y selected path n documents = Some es'"
        by (cases "kind_text d = ''List''") (auto simp: declares_def)
      with Cons.IH True Some show ?thesis by (simp add: map_filter_simps)
    next
      case False
      with Cons.prems Some document have "scan_documents Y selected path n documents = Some es"
        by (cases "kind_text d = ''List''") (simp_all add: declares_def)
      with Cons.IH False Some show ?thesis by (simp add: map_filter_simps)
    qed
  qed
qed (simp add: map_filter_simps)

lemma scan_files_declares:
  "scan_files Y selected paths files = Some es \<Longrightarrow>
     list_all2 (\<lambda>e pd. es_path e = fst pd \<and> es_sha256 e = canonical_manifest_digest Y (snd pd) \<and> kind_text (snd pd) \<noteq> ''List'')
       es (filter (declares selected) (declared_documents Y paths files))"
proof (induction files arbitrary: es)
  case (Cons f files)
  from Cons.prems obtain es1 es2 where es: "es = es1 @ es2"
    and one: "scan_documents Y selected (fst f) (length (candidate_documents Y paths f)) (candidate_documents Y paths f) = Some es1"
    and rest: "scan_files Y selected paths files = Some es2"
    by (auto simp: Let_def split: option.splits)
  have "list_all2 (\<lambda>e pd. es_path e = fst pd \<and> es_sha256 e = canonical_manifest_digest Y (snd pd) \<and> kind_text (snd pd) \<noteq> ''List'')
      es1 (filter (declares selected) (map (Pair (fst f)) (List.map_filter as_dict (candidate_documents Y paths f))))"
    using scan_documents_declares [OF one] by (simp add: filter_map list_all2_map2 comp_def)
  with Cons.IH [OF rest] show ?case
    by (simp add: es declared_documents_def list_all2_appendI)
qed (simp add: declared_documents_def)

lemma ownership_none:
  assumes "ownership_loop Y contents selected protected dirs files paths = Inr (paths', False)"
    and "(path, content) \<in> set files" and "is_kustomization path"
  shows "\<exists>document. parse_kustomization_document Y content path = Inr document
    \<and> kustomization_owns_protected_field Y contents selected protected (parent_path path) document = Inr False"
  using assms
proof (induction files arbitrary: paths)
  case (Cons f files)
  obtain p c where f: "f = (p, c)" by (cases f)
  show ?case
  proof (cases "is_kustomization p")
    case True
    with Cons.prems(1) obtain document references where doc: "parse_kustomization_document Y c p = Inr document"
      and own: "kustomization_owns_protected_field Y contents selected protected (parent_path p) document = Inr False"
      and rest: "ownership_loop Y contents selected protected dirs files
        (paths @ filter (\<lambda>r. r \<notin> set dirs) references) = Inr (paths', False)"
      by (auto simp: f graphE_def Let_def split: sum.splits if_splits)
    from Cons.IH [OF rest] Cons.prems(2,3) doc own show ?thesis by (auto simp: f)
  next
    case False
    with Cons.prems Cons.IH show ?thesis by (auto simp: f)
  qed
qed simp


definition source_lib :: text_lib where
  \<comment> \<open>the library of the overlay, which reads the resource file as one deployment\<close>
  "source_lib = overlay_lib\<lparr>yaml_scan := (\<lambda>_. ([False], False)), yaml_safe_load_all := (\<lambda>_. Some [sample_deployment 2])\<rparr>"

definition overlay_source :: edit_source where
  "overlay_source = \<lparr>es_path = ''base/app.yaml'', es_source_type = RAW_YAML,
     es_sha256 = ''sha256:'' @ json_dumps_sorted (sample_deployment 2), es_identity = None\<rparr>"

lemma overlay_source_resolved:
  "resolve_unique_kustomize_edit_source overlay_content source_lib overlay_tree ''overlay/kustomization.yaml'' sample_id
     [''spec.replicas''] = Some (Inr (Some overlay_source))"
  by code_simp


subsection \<open>Container fields\<close>

text \<open>
  The protected paths of a recovery name a container by its name. A JSON patch and a replacement name it
  by its index or by the whole list, and the comparison by prefix then sees no overlap, so that a
  kustomization which rewrites the memory limit of the container does not own it.
\<close>

lemma container_patch_not_recognised:
  "\<not> json_pointer_overlaps_field ''/spec/template/spec/containers/0/resources/limits/memory''
       ''spec.template.spec.containers[name=app].resources.limits.memory''
   \<and> \<not> json_pointer_overlaps_field ''/spec/template/spec/containers''
       ''spec.template.spec.containers[name=app].resources.limits.memory''
   \<and> \<not> semantic_fields_overlap ''spec.template.spec.containers''
       ''spec.template.spec.containers[name=app].resources.limits.memory''"
  by code_simp

lemma replica_patch_recognised:
  "json_pointer_overlaps_field ''/spec/replicas'' ''spec.replicas'' \<and> json_pointer_overlaps_field ''/spec'' ''spec.replicas''"
  by code_simp

end
