(* ===== verification/Spec2Isabelle.thy ===== *)
theory Spec2Isabelle
  imports Declared_Patch Image_Patch Manifest_Validation Evidence_Claim_Check Event_Pipeline Worker_Machine
    Cause_Pipeline Timeline_Coverage Recovery_Stability Kustomize_Edit_Source
begin

section \<open>A verification of the remediation control plane\<close>

text \<open>
  The program is a control plane for incidents in Kubernetes clusters. Agents send evidence; workers turn
  it into root causes by rules; a recovery is proposed as a small change of a manifest in a repository,
  approved by a person, merged, and then verified by later evidence. The workers communicate only by
  events. This library models the parts that decide, and proves what the others rely on. Paths below
  are relative to \<^verbatim>\<open>src/src/\<close>.

  \<^bold>\<open>Conventions.\<close> Python text is \<^typ>\<open>string\<close>, one character per code point below 256; Python integers are
  \<^typ>\<open>int\<close>; a JSON or YAML value is the datatype \<^typ>\<open>json\<close>, a dict an association list in insertion order.
  A function that may raise returns a sum, \<open>Inl\<close> the exception, composed with \<open>bindE\<close>, \<open>mapE\<close>, \<open>foldE\<close>; every
  raise, early return and skipped iteration is a branch. Objects that change are records that are passed
  on. Messages that only inform a person are constructors, not texts. Packages that are not in the
  repository are arguments: PyYAML, \<^verbatim>\<open>json\<close> texts and SHA-256 are the record \<open>text_lib\<close>, dates are
  \<open>timelib\<close>, \<^verbatim>\<open>difflib\<close> and the repository client are functions. Theorems assume nothing of them except
  where a hypothesis says so, and each such theorem has a concrete instance. PostgreSQL statements are
  functions on the rows they select and write, one transaction a step; a broker is its contract.

  \<^bold>\<open>Foundations.\<close> \<open>Clue_Prelude\<close> has the result type, Python's text functions and the shared lemmas.
  \<open>Json_Value\<close> has values, truthiness, Python equality and sorted serialisation. \<open>Yaml_Library\<close> has
  the library record.

  \<^bold>\<open>Patches of manifests\<close> (\<^verbatim>\<open>domains/gitops/source_patch.py\<close>, \<^verbatim>\<open>packages/contracts/remediation_source.py\<close>,
  \<^verbatim>\<open>domains/manifest_editor/validation.py\<close>).
  \<open>Field_Paths\<close> reads and writes a value at a path such as \<^verbatim>\<open>spec.containers[name=web].image\<close> and proves the laws
  of one write. \<open>Path_Writes\<close> states them as the contract \<open>scalar_fields\<close>, derives the laws of a list of
  writes from it, and interprets it on the two functions. \<open>Text_Splice\<close> replaces spans of a text.
  \<open>Remediation_Source\<close> is the parser of \<^verbatim>\<open>.remediation.yaml\<close>, \<open>Manifest_Validation\<close> the check of an edit in
  the console, \<open>Source_Patch\<close> the plans and the three \<^verbatim>\<open>materialize\<close> functions. \<open>Patch_Safety\<close>,
  \<open>Declared_Patch\<close> and \<open>Image_Patch\<close> show that a patch changes the approved scalars from the approved old to
  the approved new value and nothing else, that its rollback restores the manifest, that a validated plan
  stays within the bounds of its action, that a plan is redirected only to declared fields, and that plans
  survive writing and parsing.

  \<^bold>\<open>Kustomize sources\<close> (\<^verbatim>\<open>domains/gitops/repository_discovery.py\<close>, \<^verbatim>\<open>domains/gitops/kustomize_edit_source.py\<close>).
  \<open>Kustomize_Graph\<close> collects the files that a source needs. The work list is a \<open>while_option\<close> over its state,
  without fuel: it is shown to end for all inputs, since a directory is visited once and only the finitely
  many directories with a kustomization file count. The result is the closure of the local references.
  \<open>Kustomize_Edit_Source\<close> finds the one file that declares a resource; a result is unique, and no
  kustomization of the graph owns a protected field as the code understands ownership. The last lemmas
  show where that understanding is too narrow.

  \<^bold>\<open>Events\<close> (\<^verbatim>\<open>packages/contracts/event_bus/\<close>, \<^verbatim>\<open>packages/events/\<close>, \<^verbatim>\<open>packages/runtime/\<close>,
  \<^verbatim>\<open>packages/storage/repositories/\<close>).
  \<open>Event_Envelope\<close> is the envelope and the context that children inherit. \<open>Event_Body\<close> is the decoder of bodies,
  \<open>Event_Catalog\<close> every body of the catalogue, \<open>Evidence_Claim_Check\<close> the compact form of evidence.
  \<open>Event_Dispatch\<close> is registration and routing. \<open>Event_Store\<close> has the tables: the processing ledger, whose
  contract is the locale \<open>event_ledger\<close>, the outbox and the dead letters. \<open>Event_Worker\<close> is the processing of a
  message, \<open>Outbox_Relay\<close> one round of the relay, \<open>In_Memory_Bus\<close> the bus with the contract \<open>at_least_once\<close>.
  \<open>Worker_Properties\<close> has the guarantees of one worker: at most one commit per event and consumer,
  an acknowledged message is settled, dead letters exactly after the configured attempts. \<open>Worker_Machine\<close>
  is a step relation of several workers with clocks and crashes, in which two never hold one event.
  \<open>Event_Pipeline\<close> joins worker, outbox, relay (by the contract \<open>broker\<close>) and bus in one step relation and
  shows that no committed event is lost.

  \<^bold>\<open>Causes\<close> (\<^verbatim>\<open>services/ai/agent/causes/\<close>, \<^verbatim>\<open>services/ai/agent/playbooks/cause.py\<close>,
  \<^verbatim>\<open>services/ai/agent/pipeline/causes.py\<close>, \<^verbatim>\<open>services/ai/rca-worker/app.py\<close>, \<^verbatim>\<open>packages/ai/rule_catalog.py\<close>).
  \<open>Cause_Signals\<close> extracts the signals of a bundle, \<open>Cause_Engine\<close> plans, evaluates and selects, \<open>Rule_Catalog\<close> loads
  the rules, \<open>Cause_Pipeline\<close> has the handlers. Scores are rationals, not floats. A completed analysis names a
  declared candidate whose evidence was all observed, and it is the best one.

  \<^bold>\<open>Timeline\<close> (\<^verbatim>\<open>domains/inventory/kubernetes_events.py\<close>, \<^verbatim>\<open>domains/timeline/coverage.py\<close>).
  \<open>Timeline_Capture\<close> derives Timeline events from captures, one for each observation that advanced.
  \<open>Timeline_Coverage\<close> projects collection gaps; the streaming form agrees with the batch form, and a gap is
  reported only between an observed failure and an observed recovery.

  \<^bold>\<open>Recovery verification\<close> (\<^verbatim>\<open>domains/rca/recovery_verification.py\<close>, \<^verbatim>\<open>services/ai/rca-feedback-worker/app.py\<close>).
  \<open>Recovery_Verification\<close> has the checks of one window of evidence. \<open>Recovery_Stability\<close> has the decision over
  the windows and the handler that records it: a recovery is completed only after an unbroken streak of
  healthy windows, dense and long enough.

  \<^bold>\<open>Bounds.\<close> All loops over data are structural recursion. The limits of the code are constants with its
  values (500 files, 5 MiB, 1 MiB of manifest, 60 seconds of lease, and so on). No fuel is used: the loops
  that are not structural are the parent walk of \<open>Kustomize_Graph\<close>, with a measure, and its work list. The
  endless loops of services appear as sequences of their turns.

  \<^bold>\<open>Not modelled.\<close> HTTP routers and the gateway, start-up and settings, migrations, scripts and the frontend
  are left out: they are mostly wiring, and the checks they make themselves (authentication, permissions,
  rate limits) are not covered. The repositories other than those of events, outbox and dead letters are
  SQL statements whose meaning is the database's. The NATS client, the GitHub provider and the cluster
  agent are calls of remote services. Cryptography and DNS in \<^verbatim>\<open>packages/security/\<close> rest on other packages.
  The symptom and incident stages and the planning of recoveries are not covered; a patch plan they
  produce still passes the modelled validation. Characters beyond code point 255, floating-point rounding,
  logging and metrics are left out throughout.
\<close>

end
